(* ===== verification/Prelude.thy ===== *)
theory Prelude
  imports Main "HOL-Library.Word"
begin

unbundle bit_operations_syntax

text \<open>
  Shared vocabulary of the development: Rust's integer types, the ways a Rust call can end,
  programs over an explicit state, loops, checked arithmetic, and the reasoning rules
  (\<open>wp\<close> for total correctness, \<open>preserves\<close> for invariants) that the component theories use.

  Reading guide.
  \<^item> \<open>u8\<close>, \<open>u16\<close>, \<open>u32\<close>, \<open>u64\<close> are words of that width; \<open>usize\<close> is \<open>nat\<close>,
    and every \<open>usize\<close> operation of the source that can leave the range \<open>0 .. 2^64 - 1\<close> is
    written with a checked operation below. The repository is built with Cargo's debug profile
    (\<open>Makefile.toml\<close>, \<open>build_debug\<close>), in which an overflowing \<open>+\<close>, \<open>-\<close> or \<open>*\<close> panics.
  \<^item> a Rust \<open>Result<T, E>\<close> is the sum \<open>'e + 't\<close>, with \<open>Err\<close> for \<open>Inl\<close> and \<open>Ok\<close> for \<open>Inr\<close>.
  \<^item> a call ends in an \<open>outcome\<close>: it returns, it panics (the panic handler halts the machine), or
    it does not end (used only where recursion is bounded by explicit fuel).
  \<^item> a program is a function from a state to an outcome and the state it leaves behind; the state
    is kept on a panic too, because what was written to memory or to a port stays written.
\<close>

section \<open>Types\<close>

type_synonym u8 = "8 word"
type_synonym u16 = "16 word"
type_synonym u32 = "32 word"
type_synonym u64 = "64 word"
type_synonym usize = nat

type_synonym ('a, 'e) result = "'e + 'a"

abbreviation Err :: "'e \<Rightarrow> 'e + 'a" where "Err \<equiv> Inl"
abbreviation Ok :: "'a \<Rightarrow> 'e + 'a" where "Ok \<equiv> Inr"

datatype 'a outcome = Ret 'a | Panic | Diverge

type_synonym ('s, 'a) prog = "'s \<Rightarrow> 'a outcome \<times> 's"

named_theorems prog_simps \<open>evaluation rules of the program combinators\<close>
named_theorems wp_rules \<open>total-correctness rules of the program combinators\<close>
named_theorems preserves_rules \<open>invariant rules of the program combinators\<close>

section \<open>Programs\<close>

definition ret :: "'a \<Rightarrow> ('s, 'a) prog" where
  "ret x s = (Ret x, s)"

definition panic :: "('s, 'a) prog" where
  "panic s = (Panic, s)"

definition diverge :: "('s, 'a) prog" where
  "diverge s = (Diverge, s)"

definition get :: "('s, 's) prog" where
  "get s = (Ret s, s)"

definition update :: "('s \<Rightarrow> 's) \<Rightarrow> ('s, unit) prog" where
  "update f s = (Ret (), f s)"

definition bnd :: "('s, 'a) prog \<Rightarrow> ('a \<Rightarrow> ('s, 'b) prog) \<Rightarrow> ('s, 'b) prog" where
  "bnd m f s = (case m s of
      (Ret x, t) \<Rightarrow> f x t
    | (Panic, t) \<Rightarrow> (Panic, t)
    | (Diverge, t) \<Rightarrow> (Diverge, t))"

text \<open>Rust's \<open>?\<close>: continue with the value of an \<open>Ok\<close>, return an \<open>Err\<close> at once.\<close>

definition bndE :: "('s, 'e + 'a) prog \<Rightarrow> ('a \<Rightarrow> ('s, 'e + 'b) prog) \<Rightarrow> ('s, 'e + 'b) prog" where
  "bndE m f = bnd m (\<lambda>r. case r of Inl e \<Rightarrow> ret (Inl e) | Inr x \<Rightarrow> f x)"

text \<open>Rust's \<open>unwrap\<close> and \<open>expect\<close> on a \<open>Result\<close> and on an \<open>Option\<close>.\<close>

definition unwrap :: "('s, 'e + 'a) prog \<Rightarrow> ('s, 'a) prog" where
  "unwrap m = bnd m (\<lambda>r. case r of Inl _ \<Rightarrow> panic | Inr x \<Rightarrow> ret x)"

definition expect :: "'a option \<Rightarrow> ('s, 'a) prog" where
  "expect x = (case x of None \<Rightarrow> panic | Some v \<Rightarrow> ret v)"

text \<open>A conversion of the error by \<open>From\<close> (the \<open>?\<close> operator applies it) or by \<open>map_err\<close>.\<close>

definition map_err :: "('e \<Rightarrow> 'f) \<Rightarrow> ('s, 'e + 'a) prog \<Rightarrow> ('s, 'f + 'a) prog" where
  "map_err g m = bnd m (\<lambda>r. ret (case r of Inl e \<Rightarrow> Inl (g e) | Inr x \<Rightarrow> Inr x))"

text \<open>
  A \<open>for\<close> loop over an iterator: a range \<open>lo..hi\<close> is the list \<open>[lo..<hi]\<close>. \<open>for_eachE\<close> is a
  loop whose body uses \<open>?\<close>, which leaves the function on the first error.
\<close>

fun for_each :: "'i list \<Rightarrow> ('i \<Rightarrow> ('s, unit) prog) \<Rightarrow> ('s, unit) prog" where
  "for_each [] body = ret ()"
| "for_each (i # is) body = bnd (body i) (\<lambda>_. for_each is body)"

fun for_eachE :: "'i list \<Rightarrow> ('i \<Rightarrow> ('s, 'e + unit) prog) \<Rightarrow> ('s, 'e + unit) prog" where
  "for_eachE [] body = ret (Inr ())"
| "for_eachE (i # is) body = bndE (body i) (\<lambda>_. for_eachE is body)"

text \<open>Running a program that works on a part of the state.\<close>

definition zoom :: "('t \<Rightarrow> 's) \<Rightarrow> ('s \<Rightarrow> 't \<Rightarrow> 't) \<Rightarrow> ('s, 'a) prog \<Rightarrow> ('t, 'a) prog" where
  "zoom g p m t = (case m (g t) of (r, s) \<Rightarrow> (r, p s t))"

section \<open>Checked arithmetic\<close>

definition usize_add :: "usize \<Rightarrow> usize \<Rightarrow> ('s, usize) prog" where
  "usize_add a b = (if a + b < 2 ^ 64 then ret (a + b) else panic)"

definition usize_mul :: "usize \<Rightarrow> usize \<Rightarrow> ('s, usize) prog" where
  "usize_mul a b = (if a * b < 2 ^ 64 then ret (a * b) else panic)"

definition usize_sub :: "usize \<Rightarrow> usize \<Rightarrow> ('s, usize) prog" where
  "usize_sub a b = (if b \<le> a then ret (a - b) else panic)"

definition u64_add :: "u64 \<Rightarrow> u64 \<Rightarrow> ('s, u64) prog" where
  "u64_add a b = (if unat a + unat b < 2 ^ 64 then ret (a + b) else panic)"

section \<open>Words\<close>

lemma bit_less_exp: "x < 2 ^ n \<Longrightarrow> bit x k \<Longrightarrow> k < n" for x :: "'a::len word"
  by (metis bit_and_iff bit_mask_iff less_mask_eq)

lemma unat_less_mask:
  fixes w :: "'a::len word"
  assumes "unat w < 2 ^ k"
  shows "w AND mask k = w"
proof -
  have "int (unat w) < int (2 ^ k)" using assms by (simp only: of_nat_less_iff)
  then show ?thesis by (simp add: mask_eq_iff)
qed

lemma bit_unat_less: "unat w < 2 ^ k \<Longrightarrow> bit w n \<Longrightarrow> n < k" for w :: "'a::len word"
  by (metis bit_and_iff bit_mask_iff unat_less_mask)

lemma masks_u32:
  "(3 :: u32) = mask 2" "(0xf :: u32) = mask 4" "(0xff :: u32) = mask 8"
  "(0xffff :: u32) = mask 16" "(0xffffff :: u32) = mask 24" "(0xfffff :: u32) = mask 20"
  by (simp_all add: mask_eq_exp_minus_1)

section \<open>Evaluation\<close>

lemma ret_eq [prog_simps]: "ret x s = (Ret x, s)"
  by (simp add: ret_def)

lemma panic_eq [prog_simps]: "panic s = (Panic, s)"
  by (simp add: panic_def)

lemma diverge_eq [prog_simps]: "diverge s = (Diverge, s)"
  by (simp add: diverge_def)

lemma get_eq [prog_simps]: "get s = (Ret s, s)"
  by (simp add: get_def)

lemma update_eq [prog_simps]: "update f s = (Ret (), f s)"
  by (simp add: update_def)

lemma bnd_ret_left [simp]: "bnd (ret x) f = f x"
  by (rule ext) (simp add: bnd_def ret_def)

lemma bnd_ret_right [simp]: "bnd m ret = m"
  by (rule ext) (simp add: bnd_def ret_def split: prod.split outcome.split)

lemma bnd_panic [simp]: "bnd panic f = panic"
  by (rule ext) (simp add: bnd_def panic_def)

lemma bnd_diverge [simp]: "bnd diverge f = diverge"
  by (rule ext) (simp add: bnd_def diverge_def)

lemma bnd_assoc: "bnd (bnd m f) g = bnd m (\<lambda>x. bnd (f x) g)"
  by (rule ext) (simp add: bnd_def split: prod.split outcome.split)

lemma bndE_Ok [simp]: "bndE (ret (Inr x)) f = f x"
  by (simp add: bndE_def)

lemma bndE_Err [simp]: "bndE (ret (Inl e)) f = ret (Inl e)"
  by (simp add: bndE_def)

lemma bndE_panic [simp]: "bndE panic f = panic"
  by (simp add: bndE_def)

lemma bnd_Ret [prog_simps]: "m s = (Ret x, t) \<Longrightarrow> bnd m f s = f x t"
  by (simp add: bnd_def)

lemma bnd_Panic [prog_simps]: "m s = (Panic, t) \<Longrightarrow> bnd m f s = (Panic, t)"
  by (simp add: bnd_def)

lemma bnd_Diverge [prog_simps]: "m s = (Diverge, t) \<Longrightarrow> bnd m f s = (Diverge, t)"
  by (simp add: bnd_def)

lemma bndE_Ret_Ok [prog_simps]: "m s = (Ret (Inr x), t) \<Longrightarrow> bndE m f s = f x t"
  by (simp add: bndE_def bnd_def)

lemma bndE_Ret_Err [prog_simps]: "m s = (Ret (Inl e), t) \<Longrightarrow> bndE m f s = (Ret (Inl e), t)"
  by (simp add: bndE_def bnd_def ret_def)

lemma bndE_Panic' [prog_simps]: "m s = (Panic, t) \<Longrightarrow> bndE m f s = (Panic, t)"
  by (simp add: bndE_def bnd_def)

lemma for_each_append: "for_each (xs @ ys) body = bnd (for_each xs body) (\<lambda>_. for_each ys body)"
  by (induction xs) (simp_all add: bnd_assoc)

lemma bndE_assoc: "bndE (bndE m f) g = bndE m (\<lambda>x. bndE (f x) g)"
  by (rule ext) (simp add: bndE_def bnd_def ret_def split: prod.split outcome.split sum.split)

lemma for_eachE_append:
  "for_eachE (xs @ ys) body = bndE (for_eachE xs body) (\<lambda>_. for_eachE ys body)"
  by (induction xs) (simp_all add: bndE_assoc)

lemma for_eachE_map: "for_eachE (map f xs) body = for_eachE xs (\<lambda>x. body (f x))"
  by (induction xs) simp_all

lemma for_eachE_cong [fundef_cong]:
  "xs = ys \<Longrightarrow> (\<And>x. x \<in> set ys \<Longrightarrow> body x = body' x) \<Longrightarrow> for_eachE xs body = for_eachE ys body'"
  by (induction xs arbitrary: ys) auto

lemma for_eachE_filter:
  "for_eachE xs (\<lambda>x. if P x then body x else ret (Inr ())) = for_eachE (filter P xs) body"
  by (induction xs) simp_all

lemma for_eachE_concat: "for_eachE (concat (map f xs)) body = for_eachE xs (\<lambda>x. for_eachE (f x) body)"
  by (induction xs) (simp_all add: for_eachE_append)

lemma for_eachE_nested:
  "for_eachE xs (\<lambda>x. for_eachE (ys x) (body x)) =
    for_eachE (concat (map (\<lambda>x. map (Pair x) (ys x)) xs)) (\<lambda>(x, y). body x y)"
  by (induction xs) (simp_all add: for_eachE_append for_eachE_map)

section \<open>Total correctness\<close>

text \<open>
  \<open>wp m Q s\<close>: run from \<open>s\<close>, the program returns (no panic, no divergence) a value and a state
  that satisfy \<open>Q\<close>.
\<close>

definition wp :: "('s, 'a) prog \<Rightarrow> ('a \<Rightarrow> 's \<Rightarrow> bool) \<Rightarrow> 's \<Rightarrow> bool" where
  "wp m Q s \<longleftrightarrow> (case m s of (Ret x, t) \<Rightarrow> Q x t | _ \<Rightarrow> False)"

lemma wpD: "wp m Q s \<Longrightarrow> \<exists>x t. m s = (Ret x, t) \<and> Q x t"
  by (auto simp: wp_def split: prod.splits outcome.splits)

lemma wpI: "m s = (Ret x, t) \<Longrightarrow> Q x t \<Longrightarrow> wp m Q s"
  by (simp add: wp_def)

lemma wp_mono: "wp m Q s \<Longrightarrow> (\<And>x t. Q x t \<Longrightarrow> R x t) \<Longrightarrow> wp m R s"
  by (auto simp: wp_def split: prod.splits outcome.splits)

text \<open>
  The rules are equations between predicates on states, so that they also rewrite under the
  continuation of a bind.
\<close>

lemma wp_ret [wp_rules]: "wp (ret x) Q = Q x"
  by (rule ext) (simp add: wp_def ret_def)

lemma wp_get [wp_rules]: "wp get Q = (\<lambda>s. Q s s)"
  by (rule ext) (simp add: wp_def get_def)

lemma wp_update [wp_rules]: "wp (update f) Q = (\<lambda>s. Q () (f s))"
  by (rule ext) (simp add: wp_def update_def)

lemma wp_panic [wp_rules]: "wp panic Q = (\<lambda>_. False)"
  by (rule ext) (simp add: wp_def panic_def)

lemma wp_bnd [wp_rules]: "wp (bnd m f) Q = wp m (\<lambda>x. wp (f x) Q)"
  by (rule ext) (simp add: wp_def bnd_def split: prod.split outcome.split)

lemma wp_bndE [wp_rules]:
  "wp (bndE m f) Q = wp m (\<lambda>r. case r of Inl e \<Rightarrow> Q (Inl e) | Inr x \<Rightarrow> wp (f x) Q)"
  by (rule ext)
    (simp add: bndE_def wp_def bnd_def ret_def split: prod.split outcome.split sum.split)

lemma wp_unwrap [wp_rules]:
  "wp (unwrap m) Q = wp m (\<lambda>r. case r of Inl e \<Rightarrow> (\<lambda>_. False) | Inr x \<Rightarrow> Q x)"
  by (rule ext)
    (simp add: unwrap_def wp_def bnd_def ret_def panic_def split: prod.split outcome.split sum.split)

lemma wp_map_err [wp_rules]: "wp (map_err g m) Q = wp m (\<lambda>r. Q (case r of Inl e \<Rightarrow> Inl (g e) | Inr x \<Rightarrow> Inr x))"
  by (simp add: map_err_def wp_bnd wp_ret)

lemma wp_zoom [wp_rules]: "wp (zoom g p m) Q s = wp m (\<lambda>x t. Q x (p t s)) (g s)"
  by (simp add: wp_def zoom_def split: prod.split outcome.split)

lemma wp_expect [wp_rules]: "wp (expect x) Q = (\<lambda>s. case x of None \<Rightarrow> False | Some v \<Rightarrow> Q v s)"
  by (rule ext) (simp add: expect_def wp_ret wp_panic split: option.split)

lemma wp_usize_add [wp_rules]: "wp (usize_add a b) Q = (\<lambda>s. a + b < 2 ^ 64 \<and> Q (a + b) s)"
  by (rule ext) (simp add: usize_add_def wp_ret wp_panic)

lemma wp_usize_mul [wp_rules]: "wp (usize_mul a b) Q = (\<lambda>s. a * b < 2 ^ 64 \<and> Q (a * b) s)"
  by (rule ext) (simp add: usize_mul_def wp_ret wp_panic)

lemma wp_usize_sub [wp_rules]: "wp (usize_sub a b) Q = (\<lambda>s. b \<le> a \<and> Q (a - b) s)"
  by (rule ext) (simp add: usize_sub_def wp_ret wp_panic)

lemma wp_u64_add [wp_rules]:
  "wp (u64_add a b) Q = (\<lambda>s. unat a + unat b < 2 ^ 64 \<and> Q (a + b) s)"
  by (rule ext) (simp add: u64_add_def wp_ret wp_panic)

lemma wp_case_sum [wp_rules]:
  "wp (case r of Inl e \<Rightarrow> f e | Inr x \<Rightarrow> g x) Q = (case r of Inl e \<Rightarrow> wp (f e) Q | Inr x \<Rightarrow> wp (g x) Q)"
  by (simp split: sum.split)

text \<open>
  Loops with an invariant. \<open>I k\<close> is what holds after the first \<open>k\<close> elements of the iterator.
\<close>

lemma wp_for_each_list:
  assumes "I 0 s"
    and "\<And>k s. k < length xs \<Longrightarrow> I k s \<Longrightarrow> wp (body (xs ! k)) (\<lambda>_. I (Suc k)) s"
  shows "wp (for_each xs body) (\<lambda>_. I (length xs)) s"
  using assms
proof (induction xs arbitrary: s I)
  case Nil
  then show ?case by (simp add: wp_ret)
next
  case (Cons x xs)
  have first: "wp (body x) (\<lambda>_. I (Suc 0)) s"
    using Cons.prems(1) Cons.prems(2) [of 0] by simp
  have later: "wp (body (xs ! k)) (\<lambda>_. I (Suc (Suc k))) t" if "k < length xs" "I (Suc k) t" for k t
    using that Cons.prems(2) [of "Suc k" t] by simp
  have rest: "wp (for_each xs body) (\<lambda>_. I (Suc (length xs))) t" if "I (Suc 0) t" for t
    using Cons.IH [where I = "\<lambda>k. I (Suc k)" and s = t] that later by simp
  have "wp (body x) (\<lambda>_. wp (for_each xs body) (\<lambda>_. I (Suc (length xs)))) s"
    using first by (rule wp_mono) (rule rest)
  then show ?case
    by (simp add: wp_bnd)
qed

lemma wp_for_range:
  assumes "lo \<le> hi" and "I lo s"
    and "\<And>i s. lo \<le> i \<Longrightarrow> i < hi \<Longrightarrow> I i s \<Longrightarrow> wp (body i) (\<lambda>_. I (Suc i)) s"
  shows "wp (for_each [lo..<hi] body) (\<lambda>_. I hi) s"
proof -
  have "wp (for_each [lo..<hi] body) (\<lambda>_ s. I (lo + length [lo..<hi]) s) s"
    using wp_for_each_list [where I = "\<lambda>k. I (lo + k)" and xs = "[lo..<hi]" and s = s and body = body]
      assms(2,3) by simp
  then show ?thesis
    using assms(1) by simp
qed

lemma wp_for_eachE_list:
  assumes "I 0 s"
    and "\<And>k s. k < length xs \<Longrightarrow> I k s \<Longrightarrow>
      wp (body (xs ! k)) (\<lambda>r t. r = Inr () \<and> I (Suc k) t) s"
  shows "wp (for_eachE xs body) (\<lambda>r t. r = Inr () \<and> I (length xs) t) s"
  using assms
proof (induction xs arbitrary: s I)
  case Nil
  then show ?case by (simp add: wp_ret)
next
  case (Cons x xs)
  have first: "wp (body x) (\<lambda>r t. r = Inr () \<and> I (Suc 0) t) s"
    using Cons.prems(1) Cons.prems(2) [of 0] by simp
  have later: "wp (body (xs ! k)) (\<lambda>r t. r = Inr () \<and> I (Suc (Suc k)) t) t"
    if "k < length xs" "I (Suc k) t" for k t
    using that Cons.prems(2) [of "Suc k" t] by simp
  have rest: "wp (for_eachE xs body) (\<lambda>r t. r = Inr () \<and> I (Suc (length xs)) t) t"
    if "I (Suc 0) t" for t
    using Cons.IH [where I = "\<lambda>k. I (Suc k)" and s = t] that later by simp
  have "wp (body x) (\<lambda>r. case r of Inl e \<Rightarrow> (\<lambda>t. Inl e = Inr () \<and> I (Suc (length xs)) t)
      | Inr _ \<Rightarrow> wp (for_eachE xs body) (\<lambda>r t. r = Inr () \<and> I (Suc (length xs)) t)) s"
    using first by (rule wp_mono) (auto intro: rest)
  then show ?case
    by (simp add: wp_bndE)
qed

lemma wp_for_rangeE:
  assumes "lo \<le> hi" and "I lo s"
    and "\<And>i s. lo \<le> i \<Longrightarrow> i < hi \<Longrightarrow> I i s \<Longrightarrow>
      wp (body i) (\<lambda>r t. r = Inr () \<and> I (Suc i) t) s"
  shows "wp (for_eachE [lo..<hi] body) (\<lambda>r t. r = Inr () \<and> I hi t) s"
proof -
  have "wp (for_eachE [lo..<hi] body) (\<lambda>r t. r = Inr () \<and> I (lo + length [lo..<hi]) t) s"
    using wp_for_eachE_list [where I = "\<lambda>k. I (lo + k)" and xs = "[lo..<hi]" and s = s and body = body]
      assms(2,3) by simp
  then show ?thesis
    using assms(1) by simp
qed

section \<open>Invariants\<close>

text \<open>
  \<open>preserves P m\<close>: however the program ends, panic included, the state it leaves satisfies \<open>P\<close>
  when the state it started from does.
\<close>

definition preserves :: "('s \<Rightarrow> bool) \<Rightarrow> ('s, 'a) prog \<Rightarrow> bool" where
  "preserves P m \<longleftrightarrow> (\<forall>s. P s \<longrightarrow> P (snd (m s)))"

lemma preservesI: "(\<And>s. P s \<Longrightarrow> P (snd (m s))) \<Longrightarrow> preserves P m"
  by (simp add: preserves_def)

lemma preservesD: "preserves P m \<Longrightarrow> P s \<Longrightarrow> P (snd (m s))"
  by (simp add: preserves_def)

lemma preserves_ret [preserves_rules]: "preserves P (ret x)"
  by (simp add: preserves_def ret_def)

lemma preserves_panic [preserves_rules]: "preserves P panic"
  by (simp add: preserves_def panic_def)

lemma preserves_get [preserves_rules]: "preserves P get"
  by (simp add: preserves_def get_def)

lemma preserves_bnd [preserves_rules]:
  "preserves P m \<Longrightarrow> (\<And>x. preserves P (f x)) \<Longrightarrow> preserves P (bnd m f)"
  unfolding preserves_def bnd_def
  by (metis (mono_tags, lifting) case_prod_beta outcome.exhaust outcome.simps(10)
      outcome.simps(8) outcome.simps(9) snd_conv)

lemma preserves_bndE [preserves_rules]:
  "preserves P m \<Longrightarrow> (\<And>x. preserves P (f x)) \<Longrightarrow> preserves P (bndE m f)"
  unfolding bndE_def by (rule preserves_bnd) (simp_all add: preserves_ret split: sum.split)

lemma preserves_unwrap [preserves_rules]: "preserves P m \<Longrightarrow> preserves P (unwrap m)"
  unfolding unwrap_def
  by (rule preserves_bnd) (simp_all add: preserves_ret preserves_panic split: sum.split)

lemma preserves_map_err [preserves_rules]: "preserves P m \<Longrightarrow> preserves P (map_err g m)"
  unfolding map_err_def by (rule preserves_bnd) (simp_all add: preserves_ret)

lemma preserves_if [preserves_rules]:
  "preserves P m \<Longrightarrow> preserves P n \<Longrightarrow> preserves P (if b then m else n)"
  by simp

lemma preserves_for_each [preserves_rules]:
  "(\<And>i. preserves P (body i)) \<Longrightarrow> preserves P (for_each xs body)"
  by (induction xs) (simp_all add: preserves_ret preserves_bnd)

lemma preserves_for_eachE [preserves_rules]:
  "(\<And>i. preserves P (body i)) \<Longrightarrow> preserves P (for_eachE xs body)"
  by (induction xs) (simp_all add: preserves_ret preserves_bndE)

text \<open>From one state on; the second rule keeps what \<open>get\<close> returned.\<close>

lemma preserves_from: "P (snd (m s)) \<Longrightarrow> (\<And>x. preserves P (f x)) \<Longrightarrow> P (snd (bnd m f s))"
  by (auto simp: bnd_def preserves_def split: prod.splits outcome.splits)

lemma preserves_bnd_get: "(\<And>s. P s \<Longrightarrow> P (snd (f s s))) \<Longrightarrow> preserves P (bnd get f)"
  by (rule preservesI) (simp add: bnd_def get_def)

section \<open>Programs that always return\<close>

definition returns :: "('s, 'a) prog \<Rightarrow> bool" where
  "returns m \<longleftrightarrow> (\<forall>s. \<exists>x t. m s = (Ret x, t))"

named_theorems returns_rules \<open>programs that always return\<close>

lemma returnsD: "returns m \<Longrightarrow> \<exists>x t. m s = (Ret x, t)"
  by (simp add: returns_def)

lemma returns_ret [returns_rules]: "returns (ret x)"
  by (simp add: returns_def ret_def)

lemma returns_bnd [returns_rules]: "returns m \<Longrightarrow> (\<And>x. returns (f x)) \<Longrightarrow> returns (bnd m f)"
  unfolding returns_def by (metis bnd_Ret)

lemma returns_bndE [returns_rules]: "returns m \<Longrightarrow> (\<And>x. returns (f x)) \<Longrightarrow> returns (bndE m f)"
  unfolding bndE_def by (rule returns_bnd) (simp_all add: returns_ret split: sum.split)

lemma returns_map_err [returns_rules]: "returns m \<Longrightarrow> returns (map_err g m)"
  unfolding map_err_def by (rule returns_bnd) (simp_all add: returns_ret)

lemma returns_if [returns_rules]: "returns m \<Longrightarrow> returns n \<Longrightarrow> returns (if b then m else n)"
  by simp

lemma returns_zoom [returns_rules]: "returns m \<Longrightarrow> returns (zoom g p m)"
  unfolding returns_def zoom_def by (metis (mono_tags, lifting) case_prod_conv)

section \<open>Simulation\<close>

text \<open>
  \<open>sim R m m'\<close>: from related states the two programs end in the same way, with the same value, in related states.
\<close>

definition sim :: "('s \<Rightarrow> 't \<Rightarrow> bool) \<Rightarrow> ('s, 'a) prog \<Rightarrow> ('t, 'a) prog \<Rightarrow> bool" where
  "sim R m m' \<longleftrightarrow> (\<forall>s t. R s t \<longrightarrow> fst (m s) = fst (m' t) \<and> R (snd (m s)) (snd (m' t)))"

named_theorems sim_rules \<open>simulation rules of the program combinators\<close>

lemma simI: "(\<And>s t. R s t \<Longrightarrow> fst (m s) = fst (m' t) \<and> R (snd (m s)) (snd (m' t))) \<Longrightarrow> sim R m m'"
  by (simp add: sim_def)

lemma simD: "sim R m m' \<Longrightarrow> R s t \<Longrightarrow> m' t = (r, u) \<Longrightarrow> \<exists>v. m s = (r, v) \<and> R v u"
  unfolding sim_def by (metis fst_conv prod.collapse snd_conv)

lemma sim_ret [sim_rules]: "sim R (ret x) (ret x)"
  by (simp add: sim_def ret_def)

lemma sim_panic [sim_rules]: "sim R panic panic"
  by (simp add: sim_def panic_def)

lemma sim_diverge [sim_rules]: "sim R diverge diverge"
  by (simp add: sim_def diverge_def)

lemma sim_bnd [sim_rules]:
  assumes "sim R m m'" and "\<And>x. sim R (f x) (f' x)"
  shows "sim R (bnd m f) (bnd m' f')"
proof (rule simI)
  fix s t assume "R s t"
  obtain r u where m: "m s = (r, u)" by (cases "m s")
  obtain r' v where m': "m' t = (r', v)" by (cases "m' t")
  have "fst (m s) = fst (m' t) \<and> R (snd (m s)) (snd (m' t))" using assms(1) \<open>R s t\<close> unfolding sim_def by blast
  then have "r' = r" "R u v" using m m' by simp_all
  with assms(2) m m' show "fst (bnd m f s) = fst (bnd m' f' t) \<and> R (snd (bnd m f s)) (snd (bnd m' f' t))"
    by (cases r) (simp_all add: bnd_def sim_def)
qed

lemma sim_bndE [sim_rules]: "sim R m m' \<Longrightarrow> (\<And>x. sim R (f x) (f' x)) \<Longrightarrow> sim R (bndE m f) (bndE m' f')"
  unfolding bndE_def by (rule sim_bnd) (simp_all add: sim_ret split: sum.split)

lemma sim_unwrap [sim_rules]: "sim R m m' \<Longrightarrow> sim R (unwrap m) (unwrap m')"
  unfolding unwrap_def by (rule sim_bnd) (simp_all add: sim_ret sim_panic split: sum.split)

lemma sim_map_err [sim_rules]: "sim R m m' \<Longrightarrow> sim R (map_err g m) (map_err g m')"
  unfolding map_err_def by (rule sim_bnd) (simp_all add: sim_ret)

lemma sim_if [sim_rules]: "sim R m m' \<Longrightarrow> sim R n n' \<Longrightarrow> sim R (if b then m else n) (if b then m' else n')"
  by simp

lemma sim_for_each [sim_rules]: "(\<And>x. sim R (body x) (body' x)) \<Longrightarrow> sim R (for_each xs body) (for_each xs body')"
  by (induction xs) (simp_all add: sim_ret sim_bnd)

lemma sim_expect [sim_rules]: "sim R (expect x) (expect x)"
  by (simp add: expect_def sim_ret sim_panic split: option.split)

lemma sim_case_option [sim_rules]:
  "sim R m m' \<Longrightarrow> (\<And>x. sim R (f x) (f' x)) \<Longrightarrow>
    sim R (case a of None \<Rightarrow> m | Some x \<Rightarrow> f x) (case a of None \<Rightarrow> m' | Some x \<Rightarrow> f' x)"
  by (cases a) simp_all

end
