(* ===== verification/Phys_Mem.thy ===== *)
theory Phys_Mem
  imports Prelude
begin

unbundle bit_operations_syntax

text \<open>
  The physical memory manager: \<open>kernel/src/phys_mem_manager.rs\<close> and \<open>kernel/src/memory_map.rs\<close>.

  The bitmap \<open>alloc_map: [MapLine; MAP_LINE_COUNT]\<close> is a function from a line index to a 64-bit
  line; the array has \<open>MAP_LINE_COUNT\<close> elements, and an index beyond them panics. The UEFI memory
  map (\<open>uefi::MemoryMapOwned\<close>) is the list of its descriptors, and the type codes of the \<open>uefi\<close>
  crate are the parameter \<open>memory_types\<close>. The abstraction \<open>allocated\<close> reads the bitmap as the set of
  frames marked allocated; the locale \<open>frame_set\<close> is the contract of the two bit operations, and
  the range operations, \<open>init\<close> and \<open>free\<close> are verified against it.
\<close>

section \<open>Memory map\<close>

record 't memory_types =
  BOOT_SERVICES_CODE :: 't
  BOOT_SERVICES_DATA :: 't
  CONVENTIONAL :: 't

record 't MemoryDescriptor =
  desc_ty :: 't
  phys_start :: u64
  page_count :: u64

definition UEFI_PAGE_SIZE :: usize where
  "UEFI_PAGE_SIZE = 1024 * 4"

definition is_available :: "'t memory_types \<Rightarrow> 't \<Rightarrow> bool" where
  "is_available mt memory_type \<longleftrightarrow>
     memory_type = BOOT_SERVICES_CODE mt
     \<or> memory_type = BOOT_SERVICES_DATA mt
     \<or> memory_type = CONVENTIONAL mt"

section \<open>The bitmap manager\<close>

definition BYTES_PER_FRAME :: usize where
  "BYTES_PER_FRAME = 4 * 1024"

definition FRAME_SIZE :: usize where
  "FRAME_SIZE = 4 * 1024"

definition MAX_PHYSICAL_MEMORY_BYTES :: usize where
  "MAX_PHYSICAL_MEMORY_BYTES = 128 * 1024 * 1024 * 1024"

definition FRAME_COUNT :: usize where
  "FRAME_COUNT = MAX_PHYSICAL_MEMORY_BYTES div FRAME_SIZE"

definition BITS_PER_MAP_LINE :: usize where
  "BITS_PER_MAP_LINE = 8 * 8"

definition MAP_LINE_COUNT :: usize where
  "MAP_LINE_COUNT = FRAME_COUNT div BITS_PER_MAP_LINE"

type_synonym FrameID = usize
type_synonym MapLine = u64

record BitmapMemoryManager =
  alloc_map :: "usize \<Rightarrow> MapLine"
  mm_begin :: FrameID
  mm_end :: FrameID

definition BitmapMemoryManager_new :: BitmapMemoryManager where
  "BitmapMemoryManager_new = \<lparr>alloc_map = (\<lambda>_. 0), mm_begin = 0, mm_end = FRAME_COUNT\<rparr>"

text \<open>A \<open>FrameID\<close> wraps a frame number; \<open>deref\<close> and \<open>deref_mut\<close> give access to it.\<close>

definition FrameID_get :: "FrameID \<Rightarrow> usize" where "FrameID_get self = self"

definition FrameID_deref :: "FrameID \<Rightarrow> usize" where "FrameID_deref self = self"

definition FrameID_deref_mut :: "(usize \<Rightarrow> usize) \<Rightarrow> FrameID \<Rightarrow> FrameID" where "FrameID_deref_mut f self = f self"

lemmas frame_ids [simp] = FrameID_get_def FrameID_deref_def FrameID_deref_mut_def

definition set_bit_mm :: "FrameID \<Rightarrow> bool \<Rightarrow> (BitmapMemoryManager, unit) prog" where
  "set_bit_mm frame_id allocated =
     (let line_index = FrameID_get frame_id div BITS_PER_MAP_LINE;
          bit_index = FrameID_get frame_id mod BITS_PER_MAP_LINE
      in if line_index < MAP_LINE_COUNT then
           update (\<lambda>m. m\<lparr>alloc_map := (alloc_map m)(line_index :=
             (if allocated then alloc_map m line_index OR push_bit bit_index 1
              else alloc_map m line_index AND NOT (push_bit bit_index 1)))\<rparr>)
         else panic)"

definition get_bit_mm :: "FrameID \<Rightarrow> (BitmapMemoryManager, bool) prog" where
  "get_bit_mm frame_id =
     (let line_index = FrameID_get frame_id div BITS_PER_MAP_LINE;
          bit_index = FrameID_get frame_id mod BITS_PER_MAP_LINE
      in if line_index < MAP_LINE_COUNT then
           bnd get (\<lambda>m. ret (alloc_map m line_index AND push_bit bit_index 1 \<noteq> 0))
         else panic)"

definition set_range :: "(usize \<Rightarrow> bool \<Rightarrow> ('m, unit) prog) \<Rightarrow> usize \<Rightarrow> usize \<Rightarrow> bool \<Rightarrow> ('m, unit) prog" where
  "set_range set1 first count b =
     for_each [0..<count] (\<lambda>i. bnd (usize_add (FrameID_get first) i) (\<lambda>f. set1 f b))"

definition mark_allocated :: "FrameID \<Rightarrow> usize \<Rightarrow> (BitmapMemoryManager, unit) prog" where
  "mark_allocated first_frame_id count = set_range set_bit_mm first_frame_id count True"

definition free :: "FrameID \<Rightarrow> usize \<Rightarrow> (BitmapMemoryManager, unit) prog" where
  "free first_frame_id number_of_frame = set_range set_bit_mm first_frame_id number_of_frame False"

definition set_memory_range :: "FrameID \<Rightarrow> FrameID \<Rightarrow> (BitmapMemoryManager, unit) prog" where
  "set_memory_range range_begin range_end =
     update (\<lambda>m. m\<lparr>mm_begin := range_begin, mm_end := range_end\<rparr>)"

text \<open>
  The loop of \<open>init\<close> over the descriptors and its body; the accumulator is \<open>last_available_end\<close>.
\<close>

definition init_step :: "'t memory_types \<Rightarrow> 't MemoryDescriptor \<Rightarrow> usize
    \<Rightarrow> (BitmapMemoryManager, usize) prog" where
  "init_step mt desc last_available_end =
     bnd (usize_mul (unat (page_count desc)) UEFI_PAGE_SIZE) (\<lambda>bytes.
     bnd (usize_add (unat (phys_start desc)) bytes) (\<lambda>phys_end.
     bnd (if last_available_end < unat (phys_start desc) then
            bnd (usize_sub (unat (phys_start desc)) last_available_end) (\<lambda>gap.
              mark_allocated (last_available_end div BYTES_PER_FRAME) (gap div BYTES_PER_FRAME))
          else ret ()) (\<lambda>_.
     if is_available mt (desc_ty desc) then ret phys_end
     else
       bnd (usize_mul (unat (page_count desc)) UEFI_PAGE_SIZE) (\<lambda>bytes.
       bnd (mark_allocated (unat (phys_start desc) div BYTES_PER_FRAME)
              (bytes div BYTES_PER_FRAME)) (\<lambda>_.
       ret last_available_end)))))"

fun init_loop :: "'t memory_types \<Rightarrow> 't MemoryDescriptor list \<Rightarrow> usize
    \<Rightarrow> (BitmapMemoryManager, usize) prog" where
  "init_loop mt [] last_available_end = ret last_available_end"
| "init_loop mt (desc # descs) last_available_end =
     bnd (init_step mt desc last_available_end) (init_loop mt descs)"

definition BitmapMemoryManager_init ::
    "'t memory_types \<Rightarrow> 't MemoryDescriptor list \<Rightarrow> (BitmapMemoryManager, unit) prog" where
  "BitmapMemoryManager_init mt memory_map =
     bnd (init_loop mt memory_map 0) (\<lambda>last_available_end.
     set_memory_range 1 (last_available_end div BYTES_PER_FRAME))"

text \<open>
  \<open>alloc\<close>. The inner \<open>for _ in i..number_of_frame\<close> never changes \<open>i\<close>, which is the immutable
  binding \<open>let i = 0\<close>: \<open>alloc_scan\<close> is that loop with its remaining iterations as the first
  argument, and returns \<open>True\<close> when the source returns \<open>None\<close> from inside it. \<open>alloc_loop\<close> is the
  enclosing \<open>loop\<close>.
\<close>

fun alloc_scan :: "usize \<Rightarrow> usize \<Rightarrow> usize \<Rightarrow> (BitmapMemoryManager, bool) prog" where
  "alloc_scan 0 start_frame_id i = ret False"
| "alloc_scan (Suc k) start_frame_id i =
     bnd get (\<lambda>m.
     bnd (usize_add start_frame_id i) (\<lambda>f.
     if mm_end m \<le> f then ret True
     else bnd (get_bit_mm f) (\<lambda>b. if b then ret False else alloc_scan k start_frame_id i)))"

lemma alloc_scan_state: "snd (alloc_scan k start i m) = m"
  by (induction k) (auto simp: bnd_def get_def ret_def panic_def usize_add_def get_bit_mm_def Let_def
      split: prod.split outcome.split)

lemma alloc_scan_False:
  assumes "alloc_scan k start 0 m = (Ret False, t)"
  shows "t = m \<and> (k \<noteq> 0 \<longrightarrow> start < mm_end m)"
  using assms alloc_scan_state [of k start 0 m]
  by (cases k) (auto simp: bnd_def get_def ret_def panic_def usize_add_def split: if_splits)

function alloc_loop :: "usize \<Rightarrow> usize \<Rightarrow> BitmapMemoryManager
    \<Rightarrow> usize option outcome \<times> BitmapMemoryManager" where
  "alloc_loop number_of_frame start_frame_id m =
     (let i = 0 in
      case alloc_scan number_of_frame start_frame_id i m of
        (Ret True, t) \<Rightarrow> (Ret None, t)
      | (Ret False, t) \<Rightarrow>
          if i = number_of_frame then
            bnd (mark_allocated start_frame_id number_of_frame) (\<lambda>_. ret (Some start_frame_id)) t
          else if start_frame_id + (i + 1) < 2 ^ 64 then
            alloc_loop number_of_frame (start_frame_id + (i + 1)) t
          else (Panic, t)
      | (Panic, t) \<Rightarrow> (Panic, t)
      | (Diverge, t) \<Rightarrow> (Diverge, t))"
  by pat_completeness auto
termination
  by (relation "measure (\<lambda>(n, start, m). mm_end m - start)") (auto dest!: alloc_scan_False [OF sym])

declare alloc_loop.simps [simp del]

definition alloc :: "usize \<Rightarrow> (BitmapMemoryManager, usize option) prog" where
  "alloc number_of_frame = bnd get (\<lambda>m. alloc_loop number_of_frame (mm_begin m))"

section \<open>The bitmap as a set of frames\<close>

definition allocated :: "BitmapMemoryManager \<Rightarrow> usize set" where
  "allocated m = {f. f < FRAME_COUNT \<and> bit (alloc_map m (f div BITS_PER_MAP_LINE)) (f mod BITS_PER_MAP_LINE)}"

lemmas mm_consts = BITS_PER_MAP_LINE_def MAP_LINE_COUNT_def FRAME_COUNT_def
  MAX_PHYSICAL_MEMORY_BYTES_def FRAME_SIZE_def BYTES_PER_FRAME_def UEFI_PAGE_SIZE_def

text \<open>
  The contract of the bit operations: a structure of type \<open>'m\<close> holds a set of frames below
  \<open>capacity\<close>; a frame in range can be added, removed and tested, a frame out of range panics, and
  nothing but the set changes (\<open>rest\<close> is everything else the structure holds).
\<close>

locale frame_set =
  fixes set1 :: "usize \<Rightarrow> bool \<Rightarrow> ('m, unit) prog"
    and get1 :: "usize \<Rightarrow> ('m, bool) prog"
    and frames :: "'m \<Rightarrow> usize set"
    and rest :: "'m \<Rightarrow> 'r"
    and capacity :: usize
  assumes capacity_usize: "capacity < 2 ^ 64"
    and set1_in: "f < capacity \<Longrightarrow> wp (set1 f b)
      (\<lambda>_ t. frames t = (if b then insert f (frames s) else frames s - {f}) \<and> rest t = rest s) s"
    and set1_out: "capacity \<le> f \<Longrightarrow> set1 f b s = (Panic, s)"
    and get1_in: "f < capacity \<Longrightarrow> get1 f s = (Ret (f \<in> frames s), s)"
    and get1_out: "capacity \<le> f \<Longrightarrow> get1 f s = (Panic, s)"
begin

lemma set_range_in:
  assumes "first + count \<le> capacity"
  shows "wp (set_range set1 first count b)
    (\<lambda>_ t. frames t = (if b then frames s \<union> {first..<first + count} else frames s - {first..<first + count})
      \<and> rest t = rest s) s"
proof -
  let ?I = "\<lambda>i t. frames t = (if b then frames s \<union> {first..<first + i} else frames s - {first..<first + i})
      \<and> rest t = rest s"
  have step: "wp (bnd (usize_add first i) (\<lambda>f. set1 f b)) (\<lambda>_. ?I (Suc i)) t"
    if "i < count" and inv: "?I i t" for i t
  proof -
    have f: "first + i < capacity" and no: "first + i < 2 ^ 64"
      using that assms capacity_usize by linarith+
    have "wp (set1 (first + i) b) (\<lambda>_. ?I (Suc i)) t"
      by (rule wp_mono [OF set1_in [OF f]]) (use inv in \<open>auto simp: less_Suc_eq\<close>)
    with no show ?thesis by (simp add: wp_rules)
  qed
  show ?thesis
    unfolding set_range_def
    by (rule wp_for_range [where I = ?I]) (use step in auto)
qed

lemma set_range_out:
  assumes "first \<le> capacity" and "capacity < first + count" and "first + count < 2 ^ 64"
  shows "fst (set_range set1 first count b s) = Panic"
proof -
  define n where "n = capacity - first"
  have n: "first + n = capacity" "n < count" using assms by (auto simp: n_def)
  have "wp (set_range set1 first n b) (\<lambda>_ _. True) s"
    by (rule wp_mono [OF set_range_in]) (use n in auto)
  then obtain t where t: "for_each [0..<n] (\<lambda>i. bnd (usize_add first i) (\<lambda>f. set1 f b)) s = (Ret (), t)"
    by (auto simp: set_range_def dest: wpD)
  have "[0..<count] = [0..<n] @ n # [Suc n..<count]"
    using n(2) by (metis le_add_diff_inverse less_imp_le_nat upt_add_eq_append upt_conv_Cons zero_le)
  moreover have "usize_add first n = (ret capacity :: ('m, usize) prog)"
    using n capacity_usize by (simp add: usize_add_def)
  ultimately show ?thesis
    using t by (simp add: set_range_def for_each_append bnd_Ret bnd_Panic set1_out)
qed

end

text \<open>Bit lemmas for one line of the map.\<close>

lemma bit_or_exp_iff: "bit (w OR 2 ^ k) j \<longleftrightarrow> j = k \<or> bit w j" if "k < 64" for w :: u64
  using that by (auto simp: bit_simps)

lemma bit_clear_exp_iff: "bit (w AND NOT (2 ^ k)) j \<longleftrightarrow> j \<noteq> k \<and> bit w j" for w :: u64
  by (auto simp: bit_simps dest: bit_imp_le_length)

lemma line_in_range: "f div BITS_PER_MAP_LINE < MAP_LINE_COUNT \<longleftrightarrow> f < FRAME_COUNT"
  by (simp add: mm_consts div_less_iff_less_mult)

lemma same_slot: "g div BITS_PER_MAP_LINE = f div BITS_PER_MAP_LINE \<Longrightarrow>
    (g mod BITS_PER_MAP_LINE = f mod BITS_PER_MAP_LINE \<longleftrightarrow> g = f)"
  by (metis div_mod_decomp)

lemma allocated_set_bit:
  assumes "f < FRAME_COUNT"
  shows "wp (set_bit_mm f b) (\<lambda>_ t. allocated t = (if b then insert f (allocated m) else allocated m - {f})
    \<and> (mm_begin t, mm_end t) = (mm_begin m, mm_end m)) m"
proof -
  have k: "x mod BITS_PER_MAP_LINE < 64" for x by (simp add: BITS_PER_MAP_LINE_def)
  show ?thesis
    using assms same_slot [of _ f]
    by (auto simp: set_bit_mm_def line_in_range wp_rules allocated_def Let_def fun_upd_def
        bit_or_exp_iff [OF k] bit_clear_exp_iff split: if_splits)
qed

lemma get_bit_eq: "f < FRAME_COUNT \<Longrightarrow> get_bit_mm f m = (Ret (f \<in> allocated m), m)"
  by (simp add: get_bit_mm_def line_in_range allocated_def Let_def bnd_def get_def ret_def
      and_exp_eq_0_iff_not_bit)

interpretation bm: frame_set set_bit_mm get_bit_mm allocated "\<lambda>m. (mm_begin m, mm_end m)" FRAME_COUNT
proof
  show "FRAME_COUNT < 2 ^ 64" by (simp add: mm_consts)
next
  fix f b and s :: BitmapMemoryManager
  assume "FRAME_COUNT \<le> f"
  then show "set_bit_mm f b s = (Panic, s)" and "get_bit_mm f s = (Panic, s)"
    by (simp_all add: set_bit_mm_def get_bit_mm_def line_in_range Let_def panic_def)
qed (rule allocated_set_bit get_bit_eq; assumption)+

section \<open>Initialisation from the UEFI memory map\<close>

abbreviation desc_start :: "('t, 'z) MemoryDescriptor_scheme \<Rightarrow> usize" where
  "desc_start d \<equiv> unat (phys_start d)"

definition desc_stop :: "('t, 'z) MemoryDescriptor_scheme \<Rightarrow> usize" where
  "desc_stop d = desc_start d + unat (page_count d) * UEFI_PAGE_SIZE"

text \<open>
  A memory map in ascending order of disjoint, page-aligned descriptors within the 128 GiB the
  bitmap covers.
\<close>

fun wf_map :: "usize \<Rightarrow> 't MemoryDescriptor list \<Rightarrow> bool" where
  "wf_map lo [] \<longleftrightarrow> True"
| "wf_map lo (d # ds) \<longleftrightarrow> lo \<le> desc_start d \<and> UEFI_PAGE_SIZE dvd desc_start d
     \<and> desc_stop d \<le> MAX_PHYSICAL_MEMORY_BYTES \<and> wf_map (desc_stop d) ds"

text \<open>The frames that lie in a descriptor whose type the kernel may use.\<close>

definition available_frames :: "'t memory_types \<Rightarrow> 't MemoryDescriptor list \<Rightarrow> usize set" where
  "available_frames mt ds = {f. \<exists>d \<in> set ds. is_available mt (desc_ty d)
     \<and> desc_start d \<le> f * BYTES_PER_FRAME \<and> f * BYTES_PER_FRAME < desc_stop d}"

text \<open>Where the last available descriptor ends: the value of \<open>last_available_end\<close> after the loop.\<close>

fun last_end :: "'t memory_types \<Rightarrow> 't MemoryDescriptor list \<Rightarrow> usize \<Rightarrow> usize" where
  "last_end mt [] l = l"
| "last_end mt (d # ds) l = last_end mt ds (if is_available mt (desc_ty d) then desc_stop d else l)"

definition desc_frames :: "'t MemoryDescriptor \<Rightarrow> usize set" where
  "desc_frames d = {desc_start d div BYTES_PER_FRAME ..< desc_stop d div BYTES_PER_FRAME}"

lemma frame_in_desc_iff:
  "desc_start d \<le> f * BYTES_PER_FRAME \<and> f * BYTES_PER_FRAME < desc_stop d \<longleftrightarrow> f \<in> desc_frames d"
  if "UEFI_PAGE_SIZE dvd desc_start d"
  using that by (auto simp: desc_frames_def desc_stop_def mm_consts elim!: dvdE)

lemma available_frames_Nil [simp]: "available_frames mt [] = {}"
  by (simp add: available_frames_def)

lemma available_frames_Cons:
  "UEFI_PAGE_SIZE dvd desc_start d \<Longrightarrow> available_frames mt (d # ds) =
    (if is_available mt (desc_ty d) then desc_frames d else {}) \<union> available_frames mt ds"
  by (auto simp: available_frames_def frame_in_desc_iff [symmetric])

lemma desc_stop_aligned: "UEFI_PAGE_SIZE dvd desc_start d \<Longrightarrow> UEFI_PAGE_SIZE dvd desc_stop d"
  by (simp add: desc_stop_def)

lemma desc_stop_ge: "desc_start d \<le> desc_stop d"
  by (simp add: desc_stop_def)

lemma available_frames_above:
  "wf_map lo ds \<Longrightarrow> f \<in> available_frames mt ds \<Longrightarrow> lo div BYTES_PER_FRAME \<le> f"
proof (induction ds arbitrary: lo)
  case Nil
  then show ?case by simp
next
  case (Cons d ds)
  have "lo div BYTES_PER_FRAME \<le> desc_start d div BYTES_PER_FRAME"
    and "desc_start d div BYTES_PER_FRAME \<le> desc_stop d div BYTES_PER_FRAME"
    using Cons.prems(1) desc_stop_ge [of d] by (auto intro: div_le_mono)
  moreover have "desc_stop d div BYTES_PER_FRAME \<le> f" if "f \<in> available_frames mt ds"
    using Cons.IH [of "desc_stop d"] Cons.prems(1) that by simp
  ultimately show ?case
    using Cons.prems by (auto simp: available_frames_Cons desc_frames_def split: if_splits)
qed

lemma last_end_bounds:
  "wf_map lo ds \<Longrightarrow> l \<le> lo \<Longrightarrow> l \<le> MAX_PHYSICAL_MEMORY_BYTES \<Longrightarrow>
    l \<le> last_end mt ds l \<and> last_end mt ds l \<le> MAX_PHYSICAL_MEMORY_BYTES"
proof (induction ds arbitrary: lo l)
  case (Cons d ds)
  then show ?case
    using Cons.IH [of "desc_stop d" l] Cons.IH [of "desc_stop d" "desc_stop d"] desc_stop_ge [of d]
    by auto
qed simp

lemma available_frames_below:
  "wf_map lo ds \<Longrightarrow> l \<le> lo \<Longrightarrow> f \<in> available_frames mt ds \<Longrightarrow> f < last_end mt ds l div BYTES_PER_FRAME"
proof (induction ds arbitrary: lo l)
  case (Cons d ds)
  have "l \<le> desc_stop d" using Cons.prems(1,2) desc_stop_ge [of d] by simp
  moreover have "desc_stop d div BYTES_PER_FRAME \<le> last_end mt ds (desc_stop d) div BYTES_PER_FRAME"
    using Cons.prems(1) last_end_bounds [of "desc_stop d" ds "desc_stop d" mt] by (simp add: div_le_mono)
  ultimately show ?case
    using Cons.IH [of "desc_stop d"] Cons.prems
    by (auto simp: available_frames_Cons desc_frames_def split: if_splits)
qed simp

lemma mark_upto:
  assumes "first + count = stop" and "stop \<le> FRAME_COUNT"
  shows "wp (mark_allocated first count) (\<lambda>_ t. allocated t = allocated m \<union> {first..<stop}) m"
  unfolding mark_allocated_def using assms by (intro wp_mono [OF bm.set_range_in]) auto

lemma frames_between:
  assumes "l \<le> s" and "UEFI_PAGE_SIZE dvd l"
  shows "l div BYTES_PER_FRAME + (s - l) div BYTES_PER_FRAME = s div BYTES_PER_FRAME"
  using assms by (auto simp: mm_consts elim!: dvdE)

lemma frames_of_desc:
  assumes "UEFI_PAGE_SIZE dvd desc_start d"
  shows "desc_start d div BYTES_PER_FRAME + unat (page_count d) * UEFI_PAGE_SIZE div BYTES_PER_FRAME
    = desc_stop d div BYTES_PER_FRAME"
  using assms by (auto simp: desc_stop_def mm_consts elim!: dvdE)

lemma below_frame_count: "x \<le> MAX_PHYSICAL_MEMORY_BYTES \<Longrightarrow> x div BYTES_PER_FRAME \<le> FRAME_COUNT"
  by (simp add: mm_consts div_le_mono)

lemma mark_gap:
  assumes "l \<le> s" and "s \<le> MAX_PHYSICAL_MEMORY_BYTES" and "UEFI_PAGE_SIZE dvd l"
  shows "wp (if l < s then bnd (usize_sub s l) (\<lambda>gap.
        mark_allocated (l div BYTES_PER_FRAME) (gap div BYTES_PER_FRAME)) else ret ())
      (\<lambda>_ t. allocated t = allocated m \<union> {l div BYTES_PER_FRAME ..< s div BYTES_PER_FRAME}) m"
  using assms mark_upto [OF frames_between [OF assms(1,3)] below_frame_count [OF assms(2)], of m]
  by (auto simp: wp_rules)

text \<open>
  One iteration of the loop: the hole before the descriptor is marked, the descriptor itself is
  marked unless it is available, and \<open>last_available_end\<close> moves to its end if it is.
\<close>

lemma init_step_correct:
  assumes "l \<le> desc_start d" and "UEFI_PAGE_SIZE dvd l" and "UEFI_PAGE_SIZE dvd desc_start d"
    and stop: "desc_stop d \<le> MAX_PHYSICAL_MEMORY_BYTES"
  shows "wp (init_step mt d l) (\<lambda>r t. r = (if is_available mt (desc_ty d) then desc_stop d else l)
    \<and> allocated t = allocated m \<union> {l div BYTES_PER_FRAME ..< desc_start d div BYTES_PER_FRAME}
        \<union> (if is_available mt (desc_ty d) then {} else desc_frames d)) m"
    (is "wp _ ?Q m")
proof -
  have start: "desc_start d \<le> MAX_PHYSICAL_MEMORY_BYTES"
    using stop desc_stop_ge [of d] by simp
  have ranges: "unat (page_count d) * UEFI_PAGE_SIZE < 2 ^ 64"
      "desc_start d + unat (page_count d) * UEFI_PAGE_SIZE < 2 ^ 64"
    using stop by (simp_all add: desc_stop_def mm_consts)
  have entry: "wp (if is_available mt (desc_ty d) then ret (desc_stop d)
      else bnd (usize_mul (unat (page_count d)) UEFI_PAGE_SIZE) (\<lambda>bytes.
        bnd (mark_allocated (desc_start d div BYTES_PER_FRAME) (bytes div BYTES_PER_FRAME))
          (\<lambda>_. ret l))) ?Q t"
    if "allocated t = allocated m \<union> {l div BYTES_PER_FRAME ..< desc_start d div BYTES_PER_FRAME}" for t
    using that ranges(1) wp_mono [OF mark_upto [OF frames_of_desc [OF assms(3)] below_frame_count [OF stop], of t]]
    by (simp add: wp_rules desc_frames_def)
  have "wp (if l < desc_start d then bnd (usize_sub (desc_start d) l) (\<lambda>gap.
        mark_allocated (l div BYTES_PER_FRAME) (gap div BYTES_PER_FRAME)) else ret ())
      (\<lambda>_. wp (if is_available mt (desc_ty d) then ret (desc_stop d)
        else bnd (usize_mul (unat (page_count d)) UEFI_PAGE_SIZE) (\<lambda>bytes.
          bnd (mark_allocated (desc_start d div BYTES_PER_FRAME) (bytes div BYTES_PER_FRAME))
            (\<lambda>_. ret l))) ?Q) m"
    by (rule wp_mono [OF mark_gap [OF assms(1) start assms(2)]]) (rule entry)
  then show ?thesis
    using ranges by (auto simp: init_step_def wp_rules desc_stop_def split: if_splits)
qed

lemma init_loop_correct:
  assumes "wf_map lo ds" and "l \<le> lo" and "UEFI_PAGE_SIZE dvd l"
  shows "wp (init_loop mt ds l) (\<lambda>r t. r = last_end mt ds l \<and>
    (\<forall>f < r div BYTES_PER_FRAME. f \<in> allocated t \<longleftrightarrow>
      f \<in> allocated m \<or> l div BYTES_PER_FRAME \<le> f \<and> f \<notin> available_frames mt ds)) m"
  using assms
proof (induction ds arbitrary: lo l m)
  case Nil
  then show ?case by (simp add: wp_ret)
next
  case (Cons d ds)
  let ?l = "if is_available mt (desc_ty d) then desc_stop d else l"
  have wf: "l \<le> desc_start d" "UEFI_PAGE_SIZE dvd desc_start d"
      "desc_stop d \<le> MAX_PHYSICAL_MEMORY_BYTES" "wf_map (desc_stop d) ds"
    using Cons.prems(1,2) by auto
  have order: "l div BYTES_PER_FRAME \<le> desc_start d div BYTES_PER_FRAME"
      "desc_start d div BYTES_PER_FRAME \<le> desc_stop d div BYTES_PER_FRAME"
    using wf(1) desc_stop_ge [of d] by (auto intro: div_le_mono)
  have l: "?l \<le> desc_stop d" "UEFI_PAGE_SIZE dvd ?l"
    using wf(1,2) desc_stop_ge [of d] Cons.prems(3) by (auto intro: desc_stop_aligned)
  have above: "desc_stop d div BYTES_PER_FRAME \<le> f" if "f \<in> available_frames mt ds" for f
    using available_frames_above [OF wf(4) that] .
  show ?case
  proof (simp only: init_loop.simps wp_bnd, rule wp_mono [OF init_step_correct [OF wf(1) Cons.prems(3) wf(2,3)]])
    fix r t
    assume "r = ?l \<and> allocated t = allocated m \<union> {l div BYTES_PER_FRAME ..< desc_start d div BYTES_PER_FRAME}
        \<union> (if is_available mt (desc_ty d) then {} else desc_frames d)"
    then have r: "r = ?l" and t: "allocated t = allocated m
        \<union> {l div BYTES_PER_FRAME ..< desc_start d div BYTES_PER_FRAME}
        \<union> (if is_available mt (desc_ty d) then {} else desc_frames d)" by simp_all
    have "f \<in> allocated t \<or> ?l div BYTES_PER_FRAME \<le> f \<and> f \<notin> available_frames mt ds \<longleftrightarrow>
        f \<in> allocated m \<or> l div BYTES_PER_FRAME \<le> f \<and> f \<notin> available_frames mt (d # ds)" for f
      using order above [of f] unfolding t available_frames_Cons [OF wf(2)] desc_frames_def
      by (cases "is_available mt (desc_ty d)") (auto simp: not_le)
    then show "wp (init_loop mt ds r) (\<lambda>r u. r = last_end mt (d # ds) l \<and>
        (\<forall>f < r div BYTES_PER_FRAME. f \<in> allocated u \<longleftrightarrow>
          f \<in> allocated m \<or> l div BYTES_PER_FRAME \<le> f \<and> f \<notin> available_frames mt (d # ds))) t"
      unfolding r by (intro wp_mono [OF Cons.IH [OF wf(4) l]]) simp
  qed
qed

lemma allocated_new [simp]: "allocated BitmapMemoryManager_new = {}"
  by (simp add: allocated_def BitmapMemoryManager_new_def)

lemma allocated_memory_range [simp]: "allocated (m\<lparr>mm_begin := b, mm_end := e\<rparr>) = allocated m"
  by (simp add: allocated_def)

lemma memory_init_result:
  assumes "wf_map 0 memory_map"
  shows "wp (BitmapMemoryManager_init mt memory_map) (\<lambda>_ m.
      mm_begin m = 1 \<and> mm_end m \<le> FRAME_COUNT \<and>
      {f. f < mm_end m \<and> f \<notin> allocated m} = available_frames mt memory_map)
    BitmapMemoryManager_new"
proof -
  let ?e = "last_end mt memory_map 0 div BYTES_PER_FRAME"
  have below: "f < ?e" if "f \<in> available_frames mt memory_map" for f
    using available_frames_below [OF assms _ that] by simp
  have "?e \<le> FRAME_COUNT"
    using last_end_bounds [OF assms, of 0 mt] by (simp add: mm_consts div_le_mono)
  with below have "r = last_end mt memory_map 0 \<and> (\<forall>f < r div BYTES_PER_FRAME. f \<in> allocated t \<longleftrightarrow>
        f \<in> allocated BitmapMemoryManager_new \<or>
        0 div BYTES_PER_FRAME \<le> f \<and> f \<notin> available_frames mt memory_map) \<Longrightarrow>
      wp (set_memory_range 1 (r div BYTES_PER_FRAME)) (\<lambda>_ m. mm_begin m = 1 \<and> mm_end m \<le> FRAME_COUNT \<and>
        {f. f < mm_end m \<and> f \<notin> allocated m} = available_frames mt memory_map) t" for r t
    by (auto simp: set_memory_range_def wp_update)
  then show ?thesis
    unfolding BitmapMemoryManager_init_def wp_bnd
    by (intro wp_mono [OF init_loop_correct [OF assms]]) simp_all
qed

text \<open>
  C5. From a fresh manager and a well-formed UEFI memory map (ascending, disjoint, page-aligned,
  within 128 GiB), \<open>init\<close> returns, sets the managed range to frame 1 up to the end of the last
  available descriptor, and leaves free inside it exactly the frames of available descriptors:
  holes in the map and descriptors of other types are all marked allocated.
\<close>

theorem init_frees_exactly_available:
  assumes "wf_map 0 memory_map"
  shows "wp (BitmapMemoryManager_init mt memory_map) (\<lambda>_ m.
      mm_begin m = 1 \<and> mm_end m \<le> FRAME_COUNT \<and>
      {f. f < mm_end m \<and> f \<notin> allocated m} = available_frames mt memory_map)
    BitmapMemoryManager_new"
  using assms by (rule memory_init_result)

definition uefi_types :: "nat memory_types" where
  "uefi_types = \<lparr>BOOT_SERVICES_CODE = 3, BOOT_SERVICES_DATA = 4, CONVENTIONAL = 7\<rparr>"

definition small_map :: "nat MemoryDescriptor list" where
  "small_map = [\<lparr>desc_ty = 7, phys_start = 0, page_count = 3\<rparr>,
     \<lparr>desc_ty = 0, phys_start = 0x3000, page_count = 2\<rparr>,
     \<lparr>desc_ty = 4, phys_start = 0x8000, page_count = 2\<rparr>]"

lemma small_map_wf: "wf_map 0 small_map"
  by (simp add: small_map_def desc_stop_def mm_consts)

theorem init_frees_exactly_available_witness:
  "wf_map 0 small_map \<and>
   wp (BitmapMemoryManager_init uefi_types small_map) (\<lambda>_ m.
      mm_begin m = 1 \<and> mm_end m \<le> FRAME_COUNT \<and>
      {f. f < mm_end m \<and> f \<notin> allocated m} = available_frames uefi_types small_map)
    BitmapMemoryManager_new"
  using init_frees_exactly_available [OF small_map_wf, of uefi_types] small_map_wf by blast

text \<open>
  The bitmap covers 128 GiB and no more: marking beyond it panics. A descriptor the kernel may not
  use that ends beyond 128 GiB (a PCIe window of the firmware, for instance) is such a range.
\<close>

definition ends :: "('s, 'a) prog \<Rightarrow> bool" where
  "ends m \<longleftrightarrow> (\<forall>s. fst (m s) \<noteq> Diverge)"

lemma ends_rules:
  "ends (ret x)" "ends panic" "ends (update g)"
  "ends m \<Longrightarrow> ends n \<Longrightarrow> ends (if b then m else n)"
  by (simp_all add: ends_def ret_def panic_def update_def)

lemma ends_bnd: "ends m \<Longrightarrow> (\<And>x. ends (f x)) \<Longrightarrow> ends (bnd m f)"
  unfolding ends_def bnd_def by (auto split: prod.split outcome.split) (metis fst_conv)

lemma ends_for_each: "(\<And>i. ends (body i)) \<Longrightarrow> ends (for_each is body)"
  by (induction "is") (simp_all add: ends_rules ends_bnd)

lemma mark_allocated_ends: "ends (mark_allocated first count)"
  unfolding mark_allocated_def set_range_def set_bit_mm_def usize_add_def Let_def by (intro ends_rules ends_bnd ends_for_each)

lemma init_step_ends: "ends (init_step mt d l)"
  unfolding init_step_def usize_mul_def usize_add_def usize_sub_def by (intro ends_rules ends_bnd mark_allocated_ends)

lemma mark_allocated_beyond:
  assumes "0 < count" and "FRAME_COUNT < first + count" and "first + count < 2 ^ 64"
  shows "fst (mark_allocated first count m) = Panic"
proof (cases "first \<le> FRAME_COUNT")
  case True
  then show ?thesis unfolding mark_allocated_def using bm.set_range_out assms(2,3) by blast
next
  case False
  have "[0..<count] = 0 # [1..<count]" using assms(1) by (simp add: upt_rec)
  moreover have "set_bit_mm first True m = (Panic, m)" using False by (intro bm.set1_out) simp
  ultimately show ?thesis
    using assms(3) by (simp add: mark_allocated_def set_range_def usize_add_def bnd_def ret_def del: upt_Suc)
qed

text \<open>The step for such a descriptor panics, whatever the steps before it have done.\<close>

lemma init_step_beyond:
  assumes "0 < page_count d" and "UEFI_PAGE_SIZE dvd desc_start d" and "MAX_PHYSICAL_MEMORY_BYTES < desc_stop d"
    and "\<not> is_available mt (desc_ty d)"
  shows "fst (init_step mt d l m) = Panic"
proof (cases "desc_stop d < 2 ^ 64")
  case True
  let ?pages = "unat (page_count d) * UEFI_PAGE_SIZE"
  let ?gap = "if l < desc_start d then bnd (usize_sub (desc_start d) l) (\<lambda>gap.
        mark_allocated (l div BYTES_PER_FRAME) (gap div BYTES_PER_FRAME)) else ret ()"
  have "UEFI_PAGE_SIZE dvd desc_stop d" using assms(2) by (rule desc_stop_aligned)
  then have beyond: "FRAME_COUNT < desc_stop d div BYTES_PER_FRAME"
    using assms(3) by (auto simp: mm_consts elim!: dvdE)
  have "fst (mark_allocated (desc_start d div BYTES_PER_FRAME) (?pages div BYTES_PER_FRAME) t) = Panic" for t
  proof (rule mark_allocated_beyond)
    show "0 < ?pages div BYTES_PER_FRAME" using assms(1) by (simp add: mm_consts unat_gt_0 word_gt_0)
    show "FRAME_COUNT < desc_start d div BYTES_PER_FRAME + ?pages div BYTES_PER_FRAME"
      using beyond by (simp add: frames_of_desc [OF assms(2)])
    show "desc_start d div BYTES_PER_FRAME + ?pages div BYTES_PER_FRAME < 2 ^ 64"
      unfolding frames_of_desc [OF assms(2)] using True div_le_dividend [of "desc_stop d" BYTES_PER_FRAME] by linarith
  qed
  then have mark: "mark_allocated (desc_start d div BYTES_PER_FRAME) (?pages div BYTES_PER_FRAME) t =
      (Panic, snd (mark_allocated (desc_start d div BYTES_PER_FRAME) (?pages div BYTES_PER_FRAME) t))" for t
    by (simp add: prod_eq_iff)
  have bytes: "?pages < 2 ^ 64" "desc_start d + ?pages < 2 ^ 64" using True by (simp_all add: desc_stop_def)
  have "ends ?gap" unfolding usize_sub_def by (intro ends_rules ends_bnd mark_allocated_ends)
  then have "fst (?gap m) \<noteq> Diverge" by (simp add: ends_def)
  then consider t where "?gap m = (Ret (), t)" | t where "?gap m = (Panic, t)"
    by (cases "?gap m"; cases "fst (?gap m)") auto
  then show ?thesis
    using assms(4) bytes
    by cases (simp_all add: init_step_def usize_mul_def usize_add_def bnd_Ret [where m = "?gap"] bnd_Panic [where m = "?gap"] bnd_Panic [OF mark])
next
  case False
  then show ?thesis
    by (simp add: init_step_def usize_mul_def usize_add_def desc_stop_def bnd_def ret_def panic_def)
qed

text \<open>
  C19. \<open>init\<close> panics on every memory map, in any order and with any other entries, that has a non-empty page-aligned
  descriptor of an unavailable type which ends beyond the 128 GiB of the bitmap, wherever that descriptor starts.
\<close>

theorem init_panics_beyond_bitmap:
  assumes "d \<in> set memory_map" and "\<not> is_available mt (desc_ty d)" and "0 < page_count d"
    and "UEFI_PAGE_SIZE dvd desc_start d" and "MAX_PHYSICAL_MEMORY_BYTES < desc_stop d"
  shows "fst (BitmapMemoryManager_init mt memory_map m) = Panic"
proof -
  have "fst (init_loop mt memory_map l m) = Panic" for l
    using assms(1)
  proof (induction memory_map arbitrary: l m)
    case (Cons e es)
    show ?case
    proof (cases "init_step mt e l m")
      case (Pair r t)
      show ?thesis
      proof (cases r)
        case (Ret l')
        with Pair init_step_beyond [OF assms(3,4,5,2), of l m] Cons show ?thesis by (auto simp: bnd_def)
      qed (use Pair init_step_ends [of mt e l] in \<open>auto simp: bnd_def ends_def dest: spec [of _ m]\<close>)
    qed
  qed simp
  then show ?thesis
    by (cases "init_loop mt memory_map 0 m") (metis BitmapMemoryManager_init_def bnd_Panic fst_conv)
qed

definition pcie_window :: "nat MemoryDescriptor" where
  "pcie_window = \<lparr>desc_ty = 0, phys_start = 0x4000000000, page_count = 0x10000\<rparr>"

theorem init_panics_beyond_bitmap_witness:
  "fst (BitmapMemoryManager_init uefi_types (small_map @ [pcie_window]) BitmapMemoryManager_new) = Panic"
  by (rule init_panics_beyond_bitmap [of pcie_window])
    (simp_all add: pcie_window_def uefi_types_def is_available_def desc_stop_def mm_consts)

section \<open>Marking, freeing and allocating\<close>

text \<open>
  C18. \<open>mark_allocated\<close> and \<open>free\<close> refine the set operations: on a range within the bitmap they
  return, the frames marked allocated become the union with, or the difference from, exactly that
  range, and the managed range \<open>begin .. end\<close> is untouched.
\<close>

theorem range_operations_refine_sets:
  assumes "first + count \<le> FRAME_COUNT"
  shows "wp (mark_allocated first count) (\<lambda>_ t. allocated t = allocated m \<union> {first..<first + count}
      \<and> mm_begin t = mm_begin m \<and> mm_end t = mm_end m) m
    \<and> wp (free first count) (\<lambda>_ t. allocated t = allocated m - {first..<first + count}
      \<and> mm_begin t = mm_begin m \<and> mm_end t = mm_end m) m"
  unfolding mark_allocated_def free_def
  using bm.set_range_in [OF assms, of True m] bm.set_range_in [OF assms, of False m] by simp

theorem range_operations_refine_sets_witness:
  "wp (mark_allocated 62 4) (\<lambda>_ t. allocated t = allocated BitmapMemoryManager_new \<union> {62..<62 + 4}
      \<and> mm_begin t = mm_begin BitmapMemoryManager_new \<and> mm_end t = mm_end BitmapMemoryManager_new)
      BitmapMemoryManager_new
    \<and> wp (free 62 4) (\<lambda>_ t. allocated t = allocated BitmapMemoryManager_new - {62..<62 + 4}
      \<and> mm_begin t = mm_begin BitmapMemoryManager_new \<and> mm_end t = mm_end BitmapMemoryManager_new)
      BitmapMemoryManager_new"
  by (rule range_operations_refine_sets) (simp add: mm_consts)

lemma alloc_scan_Suc:
  assumes "mm_end m \<le> FRAME_COUNT" and "start < 2 ^ 64"
  shows "alloc_scan (Suc k) start 0 m = (Ret (mm_end m \<le> start), m)"
proof (induction k)
  case 0
  then show ?case
    using assms by (simp add: bnd_def get_def ret_def usize_add_def get_bit_eq)
next
  case (Suc k)
  have "f < FRAME_COUNT" if "\<not> mm_end m \<le> f" for f using that assms by simp
  then show ?case
    using assms Suc by (auto simp: bnd_def get_def ret_def usize_add_def get_bit_eq)
qed

lemma alloc_loop_Suc:
  assumes "mm_end m \<le> FRAME_COUNT" and "start < 2 ^ 64"
  shows "alloc_loop (Suc n) start m = (Ret None, m)"
  using assms(2)
proof (induction "mm_end m - start" arbitrary: start rule: less_induct)
  case less
  have "start + 1 < 2 ^ 64" if "start < mm_end m"
    using that assms(1) bm.capacity_usize by linarith
  then show ?case
    using less alloc_scan_Suc [OF assms(1) less.prems, of n]
    by (cases "mm_end m \<le> start")
      (simp_all del: alloc_scan.simps add: alloc_loop.simps [of "Suc n" start] Let_def not_le)
qed

text \<open>
  C17. \<open>alloc\<close> never allocates a frame. For every bitmap, once the managed range lies within it, a
  request for one or more frames returns \<open>None\<close> and changes nothing, however many consecutive
  frames are free; a request for no frame returns the first managed frame. The cause is \<open>let i = 0\<close>:
  the inner loop never advances \<open>i\<close>, so \<open>i == number_of_frame\<close> holds for zero frames only.
\<close>

theorem alloc_never_allocates:
  assumes "mm_end m \<le> FRAME_COUNT" and "mm_begin m < 2 ^ 64"
  shows "alloc number_of_frame m = (Ret (if number_of_frame = 0 then Some (mm_begin m) else None), m)"
proof (cases number_of_frame)
  case 0
  then show ?thesis
    by (simp add: alloc_def bnd_def get_def alloc_loop.simps [of 0] Let_def ret_def
        mark_allocated_def set_range_def)
next
  case (Suc n)
  then show ?thesis
    using alloc_loop_Suc [OF assms] by (simp add: alloc_def bnd_def get_def)
qed

theorem alloc_never_allocates_witness:
  "allocated BitmapMemoryManager_new = {} \<and>
   alloc 1 BitmapMemoryManager_new = (Ret (if (1::nat) = 0 then Some (mm_begin BitmapMemoryManager_new) else None),
     BitmapMemoryManager_new)"
proof
  show "alloc 1 BitmapMemoryManager_new = (Ret (if (1::nat) = 0 then Some (mm_begin BitmapMemoryManager_new)
      else None), BitmapMemoryManager_new)"
    by (rule alloc_never_allocates) (simp_all add: BitmapMemoryManager_new_def)
qed simp

end
