(* ===== verification/Gdt.thy ===== *)
theory Gdt
  imports Prelude
begin

unbundle bit_operations_syntax

text \<open>
  The global descriptor table: \<open>kernel/src/gdt.rs\<close>. A \<open>SegmentDescriptor\<close> is the 64-bit word the
  source wraps; each setter clears its field with a mask and ors the new value in, without masking
  that value. The state holds the static table, the register that \<open>lgdt\<close> loads and the segment
  registers. \<open>SegmentSelector::new\<close> and \<open>Ring0\<close> of the \<open>x86_64\<close> crate are parameters.

  The lemmas read a descriptor the way the processor does (\<open>seg_base\<close>, \<open>seg_limit\<close>, \<open>seg_type\<close> and
  single bits) and show what the setters leave in each field.
\<close>

type_synonym SegmentDescriptor = u64

datatype DescriptorType =
    Upper8Bytes | LDT | TSSAvailable | TSSBusy | CallGate | InterruptGate | TrapGate
  | ReadWrite | ExecuteRead

fun DescriptorType_get :: "DescriptorType \<Rightarrow> u8" where
  "DescriptorType_get Upper8Bytes = 0"
| "DescriptorType_get LDT = 2"
| "DescriptorType_get TSSAvailable = 9"
| "DescriptorType_get TSSBusy = 11"
| "DescriptorType_get CallGate = 12"
| "DescriptorType_get InterruptGate = 14"
| "DescriptorType_get TrapGate = 15"
| "DescriptorType_get ReadWrite = 2"
| "DescriptorType_get ExecuteRead = 10"

section \<open>Field setters\<close>

definition set_limit_low :: "u16 \<Rightarrow> SegmentDescriptor \<Rightarrow> SegmentDescriptor" where
  "set_limit_low value d = (d AND NOT 0xffff) OR ucast value"

definition set_base_low :: "u16 \<Rightarrow> SegmentDescriptor \<Rightarrow> SegmentDescriptor" where
  "set_base_low value d = (d AND NOT (push_bit 16 0xffff)) OR push_bit 16 (ucast value)"

definition set_base_middle :: "u8 \<Rightarrow> SegmentDescriptor \<Rightarrow> SegmentDescriptor" where
  "set_base_middle value d = (d AND NOT (push_bit 32 0xff)) OR push_bit 32 (ucast value)"

definition set_descriptor_type :: "DescriptorType \<Rightarrow> SegmentDescriptor \<Rightarrow> SegmentDescriptor" where
  "set_descriptor_type value d =
     (d AND NOT (push_bit 40 0xf)) OR push_bit 40 (ucast (DescriptorType_get value))"

definition set_system_segment :: "bool \<Rightarrow> SegmentDescriptor \<Rightarrow> SegmentDescriptor" where
  "set_system_segment value d =
     (d AND NOT (push_bit 44 1)) OR (if value then push_bit 44 1 else push_bit 44 0)"

definition set_descriptor_privilege_level :: "u8 \<Rightarrow> SegmentDescriptor \<Rightarrow> SegmentDescriptor" where
  "set_descriptor_privilege_level value d =
     (d AND NOT (push_bit 45 3)) OR push_bit 45 (ucast value)"

definition set_present :: "bool \<Rightarrow> SegmentDescriptor \<Rightarrow> SegmentDescriptor" where
  "set_present value d =
     (d AND NOT (push_bit 47 1)) OR (if value then push_bit 47 1 else push_bit 47 0)"

definition set_limit_high :: "u8 \<Rightarrow> SegmentDescriptor \<Rightarrow> SegmentDescriptor" where
  "set_limit_high value d = (d AND NOT (push_bit 48 0xf)) OR push_bit 48 (ucast value)"

definition set_available :: "bool \<Rightarrow> SegmentDescriptor \<Rightarrow> SegmentDescriptor" where
  "set_available value d =
     (d AND NOT (push_bit 52 1)) OR (if value then push_bit 52 1 else push_bit 52 0)"

definition set_long_mode :: "bool \<Rightarrow> SegmentDescriptor \<Rightarrow> SegmentDescriptor" where
  "set_long_mode value d =
     (d AND NOT (push_bit 53 1)) OR (if value then push_bit 53 1 else push_bit 53 0)"

definition set_default_operation_size :: "bool \<Rightarrow> SegmentDescriptor \<Rightarrow> SegmentDescriptor" where
  "set_default_operation_size value d =
     (d AND NOT (push_bit 54 1)) OR (if value then push_bit 54 1 else push_bit 54 0)"

definition granularity :: "bool \<Rightarrow> SegmentDescriptor \<Rightarrow> SegmentDescriptor" where
  "granularity value d =
     (d AND NOT (push_bit 55 1)) OR (if value then push_bit 55 1 else push_bit 55 0)"

definition set_base_high :: "u8 \<Rightarrow> SegmentDescriptor \<Rightarrow> SegmentDescriptor" where
  "set_base_high value d = (d AND NOT (push_bit 56 0xff)) OR push_bit 56 (ucast value)"

section \<open>Segments\<close>

definition set_code_segment ::
    "DescriptorType \<Rightarrow> u8 \<Rightarrow> u32 \<Rightarrow> u32 \<Rightarrow> SegmentDescriptor \<Rightarrow> SegmentDescriptor" where
  "set_code_segment descriptor_type descriptor_privilege_level base limit d =
     (let d = 0;
          d = set_base_low (ucast (base AND 0xffff)) d;
          d = set_base_middle (ucast (drop_bit 16 base AND 0xff)) d;
          d = set_base_high (ucast (drop_bit 24 base AND 0xff)) d;
          d = set_limit_low (ucast (limit AND 0xffff)) d;
          d = set_limit_high (ucast (drop_bit 16 limit AND 0xff)) d;
          d = set_descriptor_type descriptor_type d;
          d = set_system_segment True d;
          d = set_descriptor_privilege_level descriptor_privilege_level d;
          d = set_present True d;
          d = set_available False d;
          d = set_long_mode True d;
          d = set_default_operation_size False d
      in granularity True d)"

definition set_data_segment ::
    "DescriptorType \<Rightarrow> u8 \<Rightarrow> u32 \<Rightarrow> u32 \<Rightarrow> SegmentDescriptor \<Rightarrow> SegmentDescriptor" where
  "set_data_segment descriptor_type descriptor_privilege_level base limit d =
     (let d = set_code_segment descriptor_type descriptor_privilege_level base limit d;
          d = set_long_mode True d
      in set_default_operation_size True d)"

section \<open>Loading the table\<close>

record 'sel gdt_cpu =
  GDT :: "SegmentDescriptor list"
  gdtr_limit :: u16
  gdtr_offset :: u64
  reg_DS :: 'sel
  reg_ES :: 'sel
  reg_FS :: 'sel
  reg_GS :: 'sel
  reg_CS :: 'sel
  reg_SS :: 'sel

text \<open>\<open>static GDT: Mutex<[SegmentDescriptor; 3]>\<close>, each entry \<open>SegmentDescriptor::new()\<close>.\<close>

definition SegmentDescriptor_new :: SegmentDescriptor where
  "SegmentDescriptor_new = 0"

definition GDT_initial :: "SegmentDescriptor list" where
  "GDT_initial = replicate 3 SegmentDescriptor_new"

definition load_gdt :: "u16 \<Rightarrow> u64 \<Rightarrow> ('sel gdt_cpu, unit) prog" where
  "load_gdt limit offset = update (\<lambda>c. c\<lparr>gdtr_limit := limit, gdtr_offset := offset\<rparr>)"

definition set_descriptor :: "usize \<Rightarrow> (SegmentDescriptor \<Rightarrow> SegmentDescriptor) \<Rightarrow> ('sel gdt_cpu, unit) prog" where
  "set_descriptor i f = bnd get (\<lambda>c. if i < length (GDT c)
     then update (\<lambda>c. c\<lparr>GDT := (GDT c)[i := f (GDT c ! i)]\<rparr>) else panic)"

definition gdt_init :: "(u16 \<Rightarrow> 'ring \<Rightarrow> 'sel) \<Rightarrow> 'ring \<Rightarrow> u64 \<Rightarrow> ('sel gdt_cpu, unit) prog" where
  "gdt_init SegmentSelector_new Ring0 gdt_ptr =
     bnd (set_descriptor 0 (\<lambda>_. 0)) (\<lambda>_.
     bnd (set_descriptor 1 (set_code_segment ExecuteRead 0 0 0xfffff)) (\<lambda>_.
     bnd (set_descriptor 2 (set_data_segment ReadWrite 0 0 0xfffff)) (\<lambda>_.
     bnd (load_gdt (3 * 8 - 1) gdt_ptr) (\<lambda>_.
     bnd (update (\<lambda>c. c\<lparr>reg_DS := SegmentSelector_new 0 Ring0\<rparr>)) (\<lambda>_.
     bnd (update (\<lambda>c. c\<lparr>reg_ES := SegmentSelector_new 0 Ring0\<rparr>)) (\<lambda>_.
     bnd (update (\<lambda>c. c\<lparr>reg_FS := SegmentSelector_new 0 Ring0\<rparr>)) (\<lambda>_.
     bnd (update (\<lambda>c. c\<lparr>reg_GS := SegmentSelector_new 0 Ring0\<rparr>)) (\<lambda>_.
     bnd (update (\<lambda>c. c\<lparr>reg_CS := SegmentSelector_new 1 Ring0\<rparr>)) (\<lambda>_.
     update (\<lambda>c. c\<lparr>reg_SS := SegmentSelector_new 2 Ring0\<rparr>))))))))))"

section \<open>Reading a descriptor\<close>

definition seg_base :: "SegmentDescriptor \<Rightarrow> u32" where
  "seg_base d = (ucast (drop_bit 16 d) AND 0xffffff) OR push_bit 24 (ucast (drop_bit 56 d))"

definition seg_limit :: "SegmentDescriptor \<Rightarrow> u32" where
  "seg_limit d = (ucast d AND 0xffff) OR push_bit 16 (ucast (drop_bit 48 d) AND 0xf)"

definition seg_type :: "SegmentDescriptor \<Rightarrow> u8" where
  "seg_type d = ucast (drop_bit 40 d) AND 0xf"

definition seg_dpl :: "SegmentDescriptor \<Rightarrow> u8" where
  "seg_dpl d = ucast (drop_bit 45 d) AND 3"

text \<open>Every setter is an instance of one operation: replace \<open>w\<close> bits from bit \<open>lo\<close> on.\<close>

definition put_field :: "nat \<Rightarrow> nat \<Rightarrow> u64 \<Rightarrow> u64 \<Rightarrow> u64" where
  "put_field lo w v d = (d AND NOT (push_bit lo (mask w))) OR push_bit lo v"

lemma bit_put_field:
  "bit (put_field lo w v d) n \<longleftrightarrow>
     n < 64 \<and> (lo \<le> n \<and> bit v (n - lo) \<or> bit d n \<and> \<not> (lo \<le> n \<and> n < lo + w))"
  by (auto simp: put_field_def bit_simps dest: bit_imp_le_length)

lemma masks_u64:
  "(1 :: u64) = mask 1" "(3 :: u64) = mask 2" "(0xf :: u64) = mask 4" "(0xff :: u64) = mask 8"
  "(0xffff :: u64) = mask 16"
  by (simp_all add: mask_eq_exp_minus_1)

lemma put_field_flag: "put_field k 1 (of_bool b) d = (d AND NOT (push_bit k 1)) OR (if b then push_bit k 1 else push_bit k 0)"
  by (simp add: put_field_def mask_eq_exp_minus_1)

lemma set_as_put_field:
  "set_limit_low v16 d = put_field 0 16 (ucast v16) d"
  "set_base_low v16 d = put_field 16 16 (ucast v16) d"
  "set_base_middle v8 d = put_field 32 8 (ucast v8) d"
  "set_base_high v8 d = put_field 56 8 (ucast v8) d"
  "set_limit_high v8 d = put_field 48 4 (ucast v8) d"
  "set_descriptor_type ty d = put_field 40 4 (ucast (DescriptorType_get ty)) d"
  "set_descriptor_privilege_level v8 d = put_field 45 2 (ucast v8) d"
  "set_system_segment b d = put_field 44 1 (of_bool b) d"
  "set_present b d = put_field 47 1 (of_bool b) d"
  "set_available b d = put_field 52 1 (of_bool b) d"
  "set_long_mode b d = put_field 53 1 (of_bool b) d"
  "set_default_operation_size b d = put_field 54 1 (of_bool b) d"
  "granularity b d = put_field 55 1 (of_bool b) d"
  unfolding put_field_flag
  by (simp_all add: put_field_def mask_eq_exp_minus_1 set_limit_low_def set_base_low_def set_base_middle_def
      set_base_high_def set_limit_high_def set_descriptor_type_def set_descriptor_privilege_level_def
      set_system_segment_def set_present_def set_available_def set_long_mode_def
      set_default_operation_size_def granularity_def)

lemma bit_DescriptorType_get: "bit (DescriptorType_get ty) k \<Longrightarrow> k < 4"
  by (cases ty) (auto simp: bit_simps numeral_eq_Suc less_Suc_eq split: if_splits dest: bit_imp_le_length)

lemma bit_set_code_segment:
  assumes "dpl < 4"
  shows "bit (set_code_segment ty dpl base limit d) n \<longleftrightarrow>
     (if n < 16 then bit limit n
      else if n < 40 then bit base (n - 16)
      else if n < 44 then bit (DescriptorType_get ty) (n - 40)
      else if n = 44 then True
      else if n < 47 then bit dpl (n - 45)
      else if n = 47 then True
      else if n < 52 then bit limit (n - 32)
      else if n < 56 then n = 53 \<or> n = 55
      else n < 64 \<and> bit base (n - 32))"
proof -
  have dpl: "2 \<le> k \<Longrightarrow> \<not> bit dpl k" for k
    using assms bit_less_exp [of dpl 2 k] by auto
  have ty: "4 \<le> k \<Longrightarrow> \<not> bit (DescriptorType_get ty) k" for k
    using bit_DescriptorType_get [of ty k] by auto
  note eval = set_code_segment_def Let_def set_as_put_field bit_put_field masks_u32 bit_simps dpl ty
  show ?thesis
  proof (cases "n < 45")
    case True
    then consider "n < 16" | "16 \<le> n" "n < 32" | "32 \<le> n" "n < 40" | "40 \<le> n" "n < 44" | "n = 44"
      by linarith
    then show ?thesis
      by cases (auto simp: eval)
  next
    case False
    show ?thesis
    proof (cases "n < 53")
      case True
      with False consider "45 \<le> n" "n < 47" | "n = 47" | "48 \<le> n" "n < 52" | "n = 52" by linarith
      then show ?thesis by cases (auto simp: eval)
    next
      case False
      then consider "n = 53" | "n = 54" | "n = 55" | "56 \<le> n" "n < 64" | "64 \<le> n" by linarith
      then show ?thesis by cases (auto simp: eval)
    qed
  qed
qed

lemma bit_set_data_segment:
  "bit (set_data_segment ty dpl base limit d) n \<longleftrightarrow> n = 53 \<or> n = 54 \<or> bit (set_code_segment ty dpl base limit d) n"
  by (auto simp: set_data_segment_def Let_def set_as_put_field bit_put_field bit_simps
      dest: bit_imp_le_length)

definition seg_fields :: "SegmentDescriptor \<Rightarrow> u32 \<times> u32 \<times> u8 \<times> u8" where
  "seg_fields d = (seg_base d, seg_limit d, seg_type d, seg_dpl d)"

definition seg_flags :: "SegmentDescriptor \<Rightarrow> bool list" where
  "seg_flags d = map (bit d) [44, 47, 52, 53, 54, 55]"

lemma seg_fieldsI:
  assumes "\<And>n. n < 16 \<Longrightarrow> bit d n = bit limit n"
    and "\<And>n. 16 \<le> n \<Longrightarrow> n < 40 \<Longrightarrow> bit d n = bit base (n - 16)"
    and "\<And>n. 56 \<le> n \<Longrightarrow> n < 64 \<Longrightarrow> bit d n = bit base (n - 32)"
    and "\<And>n. 48 \<le> n \<Longrightarrow> n < 52 \<Longrightarrow> bit d n = bit limit (n - 32)"
    and "\<And>n. 40 \<le> n \<Longrightarrow> n < 44 \<Longrightarrow> bit d n = bit ty (n - 40)"
    and "\<And>n. 45 \<le> n \<Longrightarrow> n < 47 \<Longrightarrow> bit d n = bit dpl (n - 45)"
    and "ty < 16" and "dpl < 4"
  shows "seg_fields d = (base, limit AND 0xfffff, ty, dpl)"
proof -
  have masks: "(3 :: u8) = mask 2" "(0xf :: u8) = mask 4" by (simp_all add: mask_eq_exp_minus_1)
  have "seg_base d = base"
  proof (rule bit_word_eqI)
    fix n
    assume "n < LENGTH(32)"
    then show "bit (seg_base d) n = bit base n"
      by (cases "n < 24") (auto simp: seg_base_def masks_u32 bit_simps assms(2,3) not_less)
  qed
  moreover have "seg_limit d = limit AND 0xfffff"
  proof (rule bit_word_eqI)
    fix n
    assume "n < LENGTH(32)"
    then show "bit (seg_limit d) n = bit (limit AND 0xfffff) n"
      by (cases "n < 16") (auto simp: seg_limit_def masks_u32 bit_simps assms(1,4) not_less)
  qed
  moreover have "seg_type d = ty"
    using bit_less_exp [of ty 4] assms(7)
    by (intro bit_word_eqI) (auto simp: seg_type_def masks bit_simps assms(5))
  moreover have "seg_dpl d = dpl"
    using bit_less_exp [of dpl 2] assms(8)
    by (intro bit_word_eqI) (auto simp: seg_dpl_def masks bit_simps assms(6))
  ultimately show ?thesis by (simp add: seg_fields_def)
qed

lemma DescriptorType_get_less: "DescriptorType_get ty < 16"
  by (cases ty) simp_all

text \<open>
  C20. For a privilege level of 0 to 3, the descriptor that \<open>set_code_segment\<close> and
  \<open>set_data_segment\<close> build decodes back to what was asked for: the 32-bit base, the low 20 bits of
  the limit, the type and the privilege level; the system, present, long-mode and granularity bits
  are set and the available bit is clear, whatever the high bits of the limit are; the operand-size
  bit is set in a data segment and clear in a code segment.
\<close>

theorem segment_descriptors_decode:
  assumes "dpl < 4"
  shows "seg_fields (set_code_segment ty dpl base limit d) = (base, limit AND 0xfffff, DescriptorType_get ty, dpl)
    \<and> seg_flags (set_code_segment ty dpl base limit d) = [True, True, False, True, False, True]
    \<and> seg_fields (set_data_segment ty dpl base limit d) = (base, limit AND 0xfffff, DescriptorType_get ty, dpl)
    \<and> seg_flags (set_data_segment ty dpl base limit d) = [True, True, False, True, True, True]"
  using assms
  by (intro conjI seg_fieldsI)
    (simp_all add: bit_set_code_segment bit_set_data_segment seg_flags_def DescriptorType_get_less)

theorem segment_descriptors_decode_witness:
  "seg_fields (set_code_segment ExecuteRead 3 0x12345678 0xabcdef 0)
      = (0x12345678, 0xabcdef AND 0xfffff, DescriptorType_get ExecuteRead, 3)
    \<and> seg_flags (set_code_segment ExecuteRead 3 0x12345678 0xabcdef 0) = [True, True, False, True, False, True]
    \<and> seg_fields (set_data_segment ExecuteRead 3 0x12345678 0xabcdef 0)
      = (0x12345678, 0xabcdef AND 0xfffff, DescriptorType_get ExecuteRead, 3)
    \<and> seg_flags (set_data_segment ExecuteRead 3 0x12345678 0xabcdef 0) = [True, True, False, True, True, True]"
  by (rule segment_descriptors_decode) simp

lemma kernel_code_segment: "set_code_segment ExecuteRead 0 0 0xfffff d = 0x00AF9A000000FFFF"
  by (simp add: set_code_segment_def Let_def set_limit_low_def set_base_low_def set_base_middle_def
      set_base_high_def set_limit_high_def set_descriptor_type_def set_descriptor_privilege_level_def
      set_system_segment_def set_present_def set_available_def set_long_mode_def
      set_default_operation_size_def granularity_def)

lemma kernel_data_segment: "set_data_segment ReadWrite 0 0 0xfffff d = 0x00EF92000000FFFF"
  by (simp add: set_data_segment_def set_code_segment_def Let_def set_limit_low_def set_base_low_def
      set_base_middle_def set_base_high_def set_limit_high_def set_descriptor_type_def
      set_descriptor_privilege_level_def set_system_segment_def set_present_def set_available_def
      set_long_mode_def set_default_operation_size_def granularity_def)

lemma gdt_init_runs:
  assumes "length (GDT c) = 3"
  shows "gdt_init sel ring0 ptr c = (Ret (), c\<lparr>GDT := [0, 0x00AF9A000000FFFF, 0x00EF92000000FFFF],
    gdtr_limit := 23, gdtr_offset := ptr, reg_DS := sel 0 ring0, reg_ES := sel 0 ring0,
    reg_FS := sel 0 ring0, reg_GS := sel 0 ring0, reg_CS := sel 1 ring0, reg_SS := sel 2 ring0\<rparr>)"
proof -
  obtain a b e where "GDT c = [a, b, e]"
    using assms by (auto simp: numeral_eq_Suc length_Suc_conv)
  then show ?thesis
    by (simp add: gdt_init_def set_descriptor_def load_gdt_def bnd_def get_def update_def
        kernel_code_segment kernel_data_segment numeral_2_eq_2)
qed

text \<open>
  Started on the static three-entry table, \<open>gdt::init\<close> returns with a null descriptor, the
  flat 64-bit ring-0 code segment and the flat ring-0 data segment in it, a table limit of 23 (its
  last byte), the table's address loaded, \<open>CS\<close> on entry 1, \<open>SS\<close> on entry 2 and the other segment
  registers on the null entry.
\<close>

theorem gdt_init_result:
  assumes "length (GDT c) = 3"
  shows "gdt_init sel ring0 ptr c = (Ret (), c\<lparr>GDT := [0, 0x00AF9A000000FFFF, 0x00EF92000000FFFF],
    gdtr_limit := 23, gdtr_offset := ptr, reg_DS := sel 0 ring0, reg_ES := sel 0 ring0,
    reg_FS := sel 0 ring0, reg_GS := sel 0 ring0, reg_CS := sel 1 ring0, reg_SS := sel 2 ring0\<rparr>)"
  using assms by (rule gdt_init_runs)

definition boot_cpu :: "u16 gdt_cpu" where
  "boot_cpu = \<lparr>GDT = GDT_initial, gdtr_limit = 0, gdtr_offset = 0, reg_DS = 0x30, reg_ES = 0x30,
     reg_FS = 0x30, reg_GS = 0x30, reg_CS = 0x38, reg_SS = 0x30\<rparr>"

theorem gdt_init_result_witness:
  "gdt_init (\<lambda>i r. push_bit 3 i OR r) 0 0x10020000 boot_cpu = (Ret (), boot_cpu\<lparr>
    GDT := [0, 0x00AF9A000000FFFF, 0x00EF92000000FFFF],
    gdtr_limit := 23, gdtr_offset := 0x10020000, reg_DS := push_bit 3 0 OR 0, reg_ES := push_bit 3 0 OR 0,
    reg_FS := push_bit 3 0 OR 0, reg_GS := push_bit 3 0 OR 0, reg_CS := push_bit 3 1 OR 0,
    reg_SS := push_bit 3 2 OR 0\<rparr>)"
  by (rule gdt_init_result) (simp add: boot_cpu_def GDT_initial_def)

end
