(* ===== verification/Paging.thy ===== *)
theory Paging
  imports Prelude
begin

unbundle bit_operations_syntax

text \<open>
  The kernel's page tables: \<open>kernel/src/paging.rs\<close>. The three statics are arrays, modelled as
  functions of the index with the array's length written out at each store; where the linker puts
  them is the record \<open>table_addrs\<close>. The processor's 4-level walk (\<open>translate\<close>) is the abstract
  specification: it reads the tables from physical memory, follows the present, page-size and
  write bits, and the main theorem says which map \<open>init\<close> builds.
\<close>

definition PAGE_SIZE_4K :: usize where "PAGE_SIZE_4K = 1024 * 4"
definition PAGE_SIZE_2M :: usize where "PAGE_SIZE_2M = 1024 * 1024 * 2"
definition PAGE_SIZE_1G :: usize where "PAGE_SIZE_1G = 1024 * 1024 * 1024 * 1"
definition NUMBER_OF_PAGE_DIR :: usize where "NUMBER_OF_PAGE_DIR = 64"

record paging =
  PAGE_MAP_LEVEL4_TABLE :: "usize \<Rightarrow> u64"
  PAGE_DIR_PTR_TABLE :: "usize \<Rightarrow> u64"
  PAGE_DIR :: "usize \<Rightarrow> usize \<Rightarrow> u64"
  cr3 :: u64

record table_addrs =
  pml4_addr :: u64
  pdpt_addr :: u64
  pd_addr :: u64

definition PageMapLevel4Table_new :: "usize \<Rightarrow> u64" where
  "PageMapLevel4Table_new = (\<lambda>_. 0)"

definition PageDirectoryPointerTable_new :: "usize \<Rightarrow> u64" where
  "PageDirectoryPointerTable_new = (\<lambda>_. 0)"

definition PageDirectory_new :: "usize \<Rightarrow> usize \<Rightarrow> u64" where
  "PageDirectory_new = (\<lambda>_ _. 0)"

definition page_dir_len :: usize where
  "page_dir_len = NUMBER_OF_PAGE_DIR"

definition len_inner :: usize where
  "len_inner = 512"

definition store_pml4 :: "usize \<Rightarrow> u64 \<Rightarrow> (paging, unit) prog" where
  "store_pml4 i v = (if i < 512 then
     update (\<lambda>s. s\<lparr>PAGE_MAP_LEVEL4_TABLE := (PAGE_MAP_LEVEL4_TABLE s)(i := v)\<rparr>) else panic)"

definition store_pdpt :: "usize \<Rightarrow> u64 \<Rightarrow> (paging, unit) prog" where
  "store_pdpt i v = (if i < 512 then
     update (\<lambda>s. s\<lparr>PAGE_DIR_PTR_TABLE := (PAGE_DIR_PTR_TABLE s)(i := v)\<rparr>) else panic)"

definition store_pd :: "usize \<Rightarrow> usize \<Rightarrow> u64 \<Rightarrow> (paging, unit) prog" where
  "store_pd i j v = (if i < NUMBER_OF_PAGE_DIR \<and> j < 512 then
     update (\<lambda>s. s\<lparr>PAGE_DIR := (PAGE_DIR s)(i := (PAGE_DIR s i)(j := v))\<rparr>) else panic)"

text \<open>\<open>page_dir[i].as_ptr()\<close>: the directories are consecutive arrays of 512 eight-byte entries.\<close>

definition page_dir_ptr :: "table_addrs \<Rightarrow> usize \<Rightarrow> u64" where
  "page_dir_ptr l i = pd_addr l + of_nat (i * (512 * 8))"

definition paging_init :: "table_addrs \<Rightarrow> (paging, unit) prog" where
  "paging_init l =
     bnd (store_pml4 0 (pdpt_addr l OR 0x003)) (\<lambda>_.
     bnd (for_each [0..<page_dir_len] (\<lambda>i.
            bnd (store_pdpt i (page_dir_ptr l i OR 0x003)) (\<lambda>_.
            for_each [0..<len_inner] (\<lambda>j.
              bnd (usize_mul i PAGE_SIZE_1G) (\<lambda>a.
              bnd (usize_mul j PAGE_SIZE_2M) (\<lambda>b.
              bnd (usize_add a b) (\<lambda>ab.
              store_pd i j (of_nat ab OR 0x083)))))))) (\<lambda>_.
     update (\<lambda>s. s\<lparr>cr3 := pml4_addr l\<rparr>)))"

text \<open>The statics before \<open>init\<close>: all tables zero.\<close>

definition paging_statics :: "u64 \<Rightarrow> paging" where
  "paging_statics old_cr3 = \<lparr>PAGE_MAP_LEVEL4_TABLE = PageMapLevel4Table_new,
     PAGE_DIR_PTR_TABLE = PageDirectoryPointerTable_new, PAGE_DIR = PageDirectory_new, cr3 = old_cr3\<rparr>"

section \<open>What the loops build\<close>

definition pd_entry :: "usize \<Rightarrow> usize \<Rightarrow> u64" where
  "pd_entry i j = of_nat (i * PAGE_SIZE_1G + j * PAGE_SIZE_2M) OR 0x083"

lemmas paging_consts = PAGE_SIZE_1G_def PAGE_SIZE_2M_def PAGE_SIZE_4K_def NUMBER_OF_PAGE_DIR_def
  page_dir_len_def len_inner_def

definition filled :: "table_addrs \<Rightarrow> usize \<Rightarrow> paging \<Rightarrow> paging \<Rightarrow> bool" where
  "filled l k s t \<longleftrightarrow> PAGE_MAP_LEVEL4_TABLE t = PAGE_MAP_LEVEL4_TABLE s
     \<and> PAGE_DIR_PTR_TABLE t = (\<lambda>i. if i < k then page_dir_ptr l i OR 0x003 else PAGE_DIR_PTR_TABLE s i)
     \<and> PAGE_DIR t = (\<lambda>i j. if i < k \<and> j < 512 then pd_entry i j else PAGE_DIR s i j)"

lemma fill_row:
  assumes "i < 64"
  shows "wp (for_each [0..<512] (\<lambda>j.
      bnd (usize_mul i PAGE_SIZE_1G) (\<lambda>a.
      bnd (usize_mul j PAGE_SIZE_2M) (\<lambda>b.
      bnd (usize_add a b) (\<lambda>ab. store_pd i j (of_nat ab OR 0x083))))))
    (\<lambda>_ t. t = s\<lparr>PAGE_DIR := (PAGE_DIR s)(i := (\<lambda>j. if j < 512 then pd_entry i j else PAGE_DIR s i j))\<rparr>) s"
proof -
  let ?row = "\<lambda>k. s\<lparr>PAGE_DIR := (PAGE_DIR s)(i := (\<lambda>j. if j < k then pd_entry i j else PAGE_DIR s i j))\<rparr>"
  have "wp (for_each [0..<512] (\<lambda>j.
      bnd (usize_mul i PAGE_SIZE_1G) (\<lambda>a.
      bnd (usize_mul j PAGE_SIZE_2M) (\<lambda>b.
      bnd (usize_add a b) (\<lambda>ab. store_pd i j (of_nat ab OR 0x083)))))) (\<lambda>_ t. t = ?row 512) s"
  proof (rule wp_for_range [where I = "\<lambda>k t. t = ?row k"])
    fix j t
    assume j: "j < 512" and t: "t = ?row j"
    have fits: "i * PAGE_SIZE_1G < 2 ^ 64" "j * PAGE_SIZE_2M < 2 ^ 64"
        "i * PAGE_SIZE_1G + j * PAGE_SIZE_2M < 2 ^ 64"
      using assms j by (simp_all add: paging_consts)
    have "?row j\<lparr>PAGE_DIR := (PAGE_DIR (?row j))(i := (PAGE_DIR (?row j) i)(j := pd_entry i j))\<rparr> = ?row (Suc j)"
      by (auto simp: fun_eq_iff less_Suc_eq)
    then show "wp (bnd (usize_mul i PAGE_SIZE_1G) (\<lambda>a. bnd (usize_mul j PAGE_SIZE_2M) (\<lambda>b.
        bnd (usize_add a b) (\<lambda>ab. store_pd i j (of_nat ab OR 0x083))))) (\<lambda>_ t. t = ?row (Suc j)) t"
      using fits assms j t by (simp add: wp_rules store_pd_def NUMBER_OF_PAGE_DIR_def pd_entry_def)
  qed simp_all
  then show ?thesis by simp
qed

lemma fill_tables:
  "wp (for_each [0..<page_dir_len] (\<lambda>i.
      bnd (store_pdpt i (page_dir_ptr l i OR 0x003)) (\<lambda>_.
      for_each [0..<len_inner] (\<lambda>j.
        bnd (usize_mul i PAGE_SIZE_1G) (\<lambda>a.
        bnd (usize_mul j PAGE_SIZE_2M) (\<lambda>b.
        bnd (usize_add a b) (\<lambda>ab. store_pd i j (of_nat ab OR 0x083))))))))
    (\<lambda>_. filled l page_dir_len s) s"
proof (rule wp_for_range [where I = "\<lambda>k. filled l k s"])
  fix i t
  assume "i < page_dir_len" and t: "filled l i s t"
  then have i: "i < 64" by (simp add: paging_consts)
  let ?t = "t\<lparr>PAGE_DIR_PTR_TABLE := (PAGE_DIR_PTR_TABLE t)(i := page_dir_ptr l i OR 3)\<rparr>"
  have "filled l (Suc i) s (?t\<lparr>PAGE_DIR := (PAGE_DIR ?t)(i := (\<lambda>j. if j < 512 then pd_entry i j else PAGE_DIR ?t i j))\<rparr>)"
    using t by (auto simp: filled_def fun_eq_iff less_Suc_eq)
  then show "wp (bnd (store_pdpt i (page_dir_ptr l i OR 0x003)) (\<lambda>_.
      for_each [0..<len_inner] (\<lambda>j.
        bnd (usize_mul i PAGE_SIZE_1G) (\<lambda>a.
        bnd (usize_mul j PAGE_SIZE_2M) (\<lambda>b.
        bnd (usize_add a b) (\<lambda>ab. store_pd i j (of_nat ab OR 0x083))))))) (\<lambda>_. filled l (Suc i) s) t"
    using i by (simp add: wp_bnd store_pdpt_def wp_update len_inner_def wp_mono [OF fill_row])
qed (simp_all add: filled_def)

lemma paging_init_tables:
  "wp (paging_init l) (\<lambda>_ t. filled l 64 (s\<lparr>PAGE_MAP_LEVEL4_TABLE :=
      (PAGE_MAP_LEVEL4_TABLE s)(0 := pdpt_addr l OR 0x003)\<rparr>) t \<and> cr3 t = pml4_addr l) s"
  unfolding paging_init_def wp_bnd store_pml4_def
  by (simp add: wp_update, rule wp_mono [OF fill_tables]) (simp add: filled_def paging_consts)

section \<open>The processor's walk\<close>

definition entry_table :: "u64 \<Rightarrow> usize" where
  "entry_table e = unat (e AND NOT (mask 12) AND mask 52)"

definition entry_page :: "nat \<Rightarrow> u64 \<Rightarrow> u64 \<Rightarrow> u64" where
  "entry_page w e va = (e AND NOT (mask w) AND mask 52) OR (va AND mask w)"

definition canonical :: "u64 \<Rightarrow> bool" where
  "canonical va \<longleftrightarrow> signed_take_bit 47 va = va"

text \<open>
  4-level translation over a physical memory of eight-byte entries: \<open>None\<close> is a fault, \<open>Some (pa, w)\<close>
  a physical address with its write permission.
\<close>

definition translate :: "(usize \<Rightarrow> u64) \<Rightarrow> u64 \<Rightarrow> u64 \<Rightarrow> (u64 \<times> bool) option" where
  "translate rd root va =
     (let v = unat va;
          e4 = rd (entry_table root + 8 * (v div 2 ^ 39 mod 512)) in
      if \<not> canonical va \<or> \<not> bit e4 0 then None else
      let e3 = rd (entry_table e4 + 8 * (v div 2 ^ 30 mod 512)); w3 = (bit e4 1 \<and> bit e3 1) in
      if \<not> bit e3 0 then None else if bit e3 7 then Some (entry_page 30 e3 va, w3) else
      let e2 = rd (entry_table e3 + 8 * (v div 2 ^ 21 mod 512)); w2 = (w3 \<and> bit e2 1) in
      if \<not> bit e2 0 then None else if bit e2 7 then Some (entry_page 21 e2 va, w2) else
      let e1 = rd (entry_table e2 + 8 * (v div 2 ^ 12 mod 512)); w1 = (w2 \<and> bit e1 1) in
      if \<not> bit e1 0 then None else Some (entry_page 12 e1 va, w1))"

text \<open>Physical memory with the three statics at their addresses; \<open>other\<close> is the rest of memory.\<close>

definition table_memory :: "table_addrs \<Rightarrow> (usize \<Rightarrow> u64) \<Rightarrow> paging \<Rightarrow> usize \<Rightarrow> u64" where
  "table_memory l other s a =
     (let p4 = unat (pml4_addr l); p3 = unat (pdpt_addr l); p2 = unat (pd_addr l) in
      if p4 \<le> a \<and> a < p4 + 4096 then PAGE_MAP_LEVEL4_TABLE s ((a - p4) div 8)
      else if p3 \<le> a \<and> a < p3 + 4096 then PAGE_DIR_PTR_TABLE s ((a - p3) div 8)
      else if p2 \<le> a \<and> a < p2 + 64 * 4096 then PAGE_DIR s ((a - p2) div 8 div 512) ((a - p2) div 8 mod 512)
      else other a)"

text \<open>
  What the attribute \<open>#[repr(align(0x1000))]\<close> and distinct statics give: page-aligned tables in
  the 52-bit physical address space that do not overlap.
\<close>

definition wf_addrs :: "table_addrs \<Rightarrow> bool" where
  "wf_addrs l \<longleftrightarrow> (let p4 = unat (pml4_addr l); p3 = unat (pdpt_addr l); p2 = unat (pd_addr l) in
     4096 dvd p4 \<and> 4096 dvd p3 \<and> 4096 dvd p2
     \<and> p4 + 4096 \<le> 2 ^ 52 \<and> p3 + 4096 \<le> 2 ^ 52 \<and> p2 + 64 * 4096 \<le> 2 ^ 52
     \<and> (p4 + 4096 \<le> p3 \<or> p3 + 4096 \<le> p4)
     \<and> (p4 + 4096 \<le> p2 \<or> p2 + 64 * 4096 \<le> p4)
     \<and> (p3 + 4096 \<le> p2 \<or> p2 + 64 * 4096 \<le> p3))"

lemma aligned_bits:
  fixes w :: u64
  assumes "4096 dvd unat w" and "bit w n"
  shows "12 \<le> n"
proof (rule ccontr)
  assume "\<not> 12 \<le> n"
  have "w AND mask 12 = 0"
    using assms(1) and_mask_dvd_nat [of 12 w] by simp
  then have "\<not> bit (w AND mask 12) n" by simp
  with assms(2) \<open>\<not> 12 \<le> n\<close> show False by (simp add: bit_simps)
qed

lemma entry_table_flags:
  assumes "4096 dvd unat a" and "unat a < 2 ^ 52"
  shows "entry_table (a OR 3) = unat a"
proof -
  have three: "(3 :: u64) = mask 2" by (simp add: mask_eq_exp_minus_1)
  have "(a OR 3) AND NOT (mask 12) AND mask 52 = a"
    using aligned_bits [OF assms(1)] bit_unat_less [OF assms(2)]
    by (intro bit_word_eqI) (auto simp: three bit_simps not_less)
  then show ?thesis by (simp add: entry_table_def)
qed

lemma entry_table_plain:
  assumes "4096 dvd unat a" and "unat a < 2 ^ 52"
  shows "entry_table a = unat a"
proof -
  have "a AND NOT (mask 12) AND mask 52 = a"
    using aligned_bits [OF assms(1)] bit_unat_less [OF assms(2)]
    by (intro bit_word_eqI) (auto simp: bit_simps not_less)
  then show ?thesis by (simp add: entry_table_def)
qed

lemma unat_page_dir_ptr:
  assumes "wf_addrs l" and "i < 64"
  shows "unat (page_dir_ptr l i) = unat (pd_addr l) + i * 4096"
proof -
  have "unat (pd_addr l) + i * 4096 < 2 ^ 64"
    using assms by (auto simp: wf_addrs_def Let_def)
  moreover have "unat (of_nat (i * 4096) :: u64) = i * 4096"
    unfolding unat_of_nat using assms(2) by simp
  ultimately show ?thesis
    by (simp add: page_dir_ptr_def unat_add_lem [THEN iffD1])
qed

lemma read_tables:
  assumes "wf_addrs l"
  shows "k < 512 \<Longrightarrow> table_memory l other s (unat (pml4_addr l) + 8 * k) = PAGE_MAP_LEVEL4_TABLE s k"
    and "k < 512 \<Longrightarrow> table_memory l other s (unat (pdpt_addr l) + 8 * k) = PAGE_DIR_PTR_TABLE s k"
    and "i < 64 \<Longrightarrow> k < 512 \<Longrightarrow>
      table_memory l other s (unat (pd_addr l) + i * 4096 + 8 * k) = PAGE_DIR s i k"
proof -
  show "table_memory l other s (unat (pml4_addr l) + 8 * k) = PAGE_MAP_LEVEL4_TABLE s k" if "k < 512"
    using that by (simp add: table_memory_def Let_def)
  show "table_memory l other s (unat (pdpt_addr l) + 8 * k) = PAGE_DIR_PTR_TABLE s k" if "k < 512"
    using that assms by (auto simp: table_memory_def wf_addrs_def Let_def)
  show "table_memory l other s (unat (pd_addr l) + i * 4096 + 8 * k) = PAGE_DIR s i k" if "i < 64" "k < 512"
  proof -
    have "(i * 4096 + 8 * k) div 8 = i * 512 + k" by simp
    then show ?thesis
      using that assms by (auto simp: table_memory_def wf_addrs_def Let_def)
  qed
qed

lemma table_flags: "bit (a OR 3) 0" "bit (a OR 3) (Suc 0)" for a :: u64
  by (simp_all add: bit_or_iff bit_0 even_or_iff)

lemma page_flags: "bit (pd_entry i j) 0" "bit (pd_entry i j) (Suc 0)" "bit (pd_entry i j) 7"
  by (simp_all add: pd_entry_def bit_or_iff bit_0 even_or_iff)

lemma not_page_size: "4096 dvd unat a \<Longrightarrow> \<not> bit (a OR 3) 7" for a :: u64
  using aligned_bits [of a 7] by (auto simp: bit_or_iff)

text \<open>A 2 MiB entry built for the directory slot of an address maps the address to itself.\<close>

lemma entry_page_identity:
  fixes va :: u64
  assumes "unat va < 2 ^ 36"
  shows "entry_page 21 (pd_entry (unat va div 2 ^ 30) (unat va div 2 ^ 21 mod 512)) va = va"
proof -
  have "unat va div 2 ^ 30 * PAGE_SIZE_1G + unat va div 2 ^ 21 mod 512 * PAGE_SIZE_2M
      = unat va div 2 ^ 21 * 2 ^ 21"
    using mult_div_mod_eq [of 512 "unat va div 2 ^ 21"]
    by (simp add: paging_consts div_mult2_eq [symmetric])
  then have "pd_entry (unat va div 2 ^ 30) (unat va div 2 ^ 21 mod 512)
      = of_nat (push_bit 21 (drop_bit 21 (unat va))) OR 0x83"
    by (simp add: pd_entry_def push_bit_eq_mult drop_bit_eq_div)
  also have "of_nat (push_bit 21 (drop_bit 21 (unat va))) = push_bit 21 (drop_bit 21 va)"
    by (simp add: push_bit_of_nat [symmetric] unat_drop_bit_eq [symmetric])
  finally have e: "pd_entry (unat va div 2 ^ 30) (unat va div 2 ^ 21 mod 512)
      = push_bit 21 (drop_bit 21 va) OR 0x83" .
  have flags: "bit (0x83 :: u64) n \<Longrightarrow> n < 21" for n
    using bit_less_exp [of "0x83 :: u64" 21 n] by simp
  show ?thesis
    unfolding entry_page_def e using bit_unat_less [OF assms] flags
    by (intro bit_word_eqI) (fastforce simp: bit_simps not_less)
qed

lemma canonical_low:
  assumes "unat va < 2 ^ 36"
  shows "canonical va"
proof -
  have "\<not> bit va n" if "36 \<le> n" for n
    using bit_unat_less [OF assms, of n] that by auto
  then show ?thesis
    by (auto simp: canonical_def bit_signed_take_bit_iff min_def intro!: bit_word_eqI split: if_splits)
qed

lemma canonical_first_entry:
  assumes "canonical va" and "unat va div 2 ^ 39 mod 512 = 0"
  shows "unat va < 2 ^ 39"
proof -
  have "unat (take_bit 9 (drop_bit 39 va)) = take_bit 9 (drop_bit 39 (unat va))"
    by (simp only: unsigned_take_bit_eq unat_drop_bit_eq)
  also have "\<dots> = 0"
    using assms(2) by (simp add: take_bit_eq_mod drop_bit_eq_div)
  finally have "take_bit 9 (drop_bit 39 va) = 0" by (simp only: unat_0_iff)
  then have "\<not> bit (take_bit 9 (drop_bit 39 va)) k" for k by simp
  then have low: "\<not> bit va (39 + k)" if "k < 9" for k
    using that by (simp add: bit_simps)
  have "\<not> bit va n" if "39 \<le> n" for n
  proof (cases "n < 48")
    case True
    then show ?thesis using low [of "n - 39"] that by simp
  next
    case False
    then have "bit (signed_take_bit 47 va) n \<Longrightarrow> bit va 47"
      by (simp add: bit_signed_take_bit_iff min_def split: if_splits)
    then show ?thesis using low [of 8] assms(1) by (auto simp: canonical_def)
  qed
  then have "va AND mask 39 = va"
    by (intro bit_word_eqI) (auto simp: bit_simps not_less[symmetric])
  then have "int (unat va) < int (2 ^ 39)" by (simp add: mask_eq_iff)
  then show ?thesis by (simp only: of_nat_less_iff)
qed

lemma paging_identity:
  assumes "wf_addrs l"
  shows "wp (paging_init l) (\<lambda>_ t. \<forall>va. translate (table_memory l other t) (cr3 t) va =
      (if unat va < 64 * PAGE_SIZE_1G then Some (va, True) else None)) (paging_statics c)"
proof (rule wp_mono [OF paging_init_tables], intro allI)
  fix t :: paging and va :: u64
  assume t: "filled l 64 (paging_statics c\<lparr>PAGE_MAP_LEVEL4_TABLE :=
      (PAGE_MAP_LEVEL4_TABLE (paging_statics c))(0 := pdpt_addr l OR 0x003)\<rparr>) t \<and> cr3 t = pml4_addr l"
  let ?v = "unat va"
  have tables: "PAGE_MAP_LEVEL4_TABLE t k = (if k = 0 then pdpt_addr l OR 3 else 0)"
      "PAGE_DIR_PTR_TABLE t k = (if k < 64 then page_dir_ptr l k OR 3 else 0)"
      "PAGE_DIR t k j = (if k < 64 \<and> j < 512 then pd_entry k j else 0)" for k j
    using t by (auto simp: filled_def paging_statics_def PageMapLevel4Table_new_def
        PageDirectoryPointerTable_new_def PageDirectory_new_def)
  have aligned: "4096 dvd unat (pml4_addr l)" "4096 dvd unat (pdpt_addr l)"
      "unat (pml4_addr l) < 2 ^ 52" "unat (pdpt_addr l) < 2 ^ 52"
    using assms by (auto simp: wf_addrs_def Let_def)
  have root: "entry_table (cr3 t) = unat (pml4_addr l)"
    using t entry_table_plain [OF aligned(1,3)] by simp
  have second: "entry_table (pdpt_addr l OR 3) = unat (pdpt_addr l)"
    by (rule entry_table_flags [OF aligned(2,4)])
  show "translate (table_memory l other t) (cr3 t) va =
      (if ?v < 64 * PAGE_SIZE_1G then Some (va, True) else None)"
  proof (cases "?v < 2 ^ 36")
    case True
    let ?i = "?v div 2 ^ 30"
    have i: "?i < 64" "?i mod 512 = ?i" "?v div 2 ^ 39 = 0" using True by auto
    have dir: "unat (page_dir_ptr l ?i) = unat (pd_addr l) + ?i * 4096"
      by (rule unat_page_dir_ptr [OF assms i(1)])
    have dir_aligned: "4096 dvd unat (page_dir_ptr l ?i)" "unat (page_dir_ptr l ?i) < 2 ^ 52"
      using assms i(1) unfolding dir by (auto simp: wf_addrs_def Let_def)
    show ?thesis
      using True i canonical_low [OF True] read_tables [OF assms] dir entry_table_flags [OF dir_aligned]
        not_page_size [OF dir_aligned(1)] entry_page_identity [OF True]
      by (simp add: translate_def Let_def root second tables table_flags page_flags PAGE_SIZE_1G_def)
  next
    case False
    show ?thesis
    proof (cases "canonical va \<and> ?v div 2 ^ 39 mod 512 = 0")
      case True
      then have "?v < 2 ^ 39" by (intro canonical_first_entry) auto
      then have i: "?v div 2 ^ 30 mod 512 = ?v div 2 ^ 30" "64 \<le> ?v div 2 ^ 30" "?v div 2 ^ 30 < 512"
        using False by auto
      then show ?thesis
        using False True read_tables [OF assms]
        by (simp add: translate_def Let_def root second tables table_flags PAGE_SIZE_1G_def)
    next
      case no_entry: False
      then show ?thesis
        using False read_tables [OF assms]
        by (auto simp: translate_def Let_def root tables PAGE_SIZE_1G_def)
    qed
  qed
qed

text \<open>
  C7. \<open>paging::init\<close>, started on the zeroed statics placed by the linker, returns and builds the
  identity map of the first 64 GiB: through the new \<open>cr3\<close> every virtual address below 64 GiB
  translates to the equal physical address with write permission, and every other address faults.
\<close>

theorem paging_init_identity_map:
  assumes "wf_addrs l"
  shows "wp (paging_init l) (\<lambda>_ t. \<forall>va. translate (table_memory l other t) (cr3 t) va =
      (if unat va < 64 * PAGE_SIZE_1G then Some (va, True) else None)) (paging_statics c)"
  using assms by (rule paging_identity)

definition kernel_tables :: table_addrs where
  "kernel_tables = \<lparr>pml4_addr = 0x10100000, pdpt_addr = 0x10101000, pd_addr = 0x10102000\<rparr>"

theorem paging_init_identity_map_witness:
  "wf_addrs kernel_tables \<and>
   wp (paging_init kernel_tables) (\<lambda>_ t. \<forall>va. translate (table_memory kernel_tables (\<lambda>_. 0) t) (cr3 t) va =
      (if unat va < 64 * PAGE_SIZE_1G then Some (va, True) else None)) (paging_statics 0)"
proof -
  have wf: "wf_addrs kernel_tables" by (simp add: wf_addrs_def kernel_tables_def Let_def)
  then show ?thesis using paging_init_identity_map [OF wf] by blast
qed

end
