(* ===== verification/Port_Io.thy ===== *)
theory Port_Io
  imports Prelude
begin

text \<open>
  Port I/O. The hardware behind the ports, and the \<open>x86_64\<close> crate's \<open>Port\<close> types that execute the
  \<open>in\<close> and \<open>out\<close> instructions, are a parameter: \<open>io_hw\<close> says what an access answers and how it changes
  the rest of the machine \<open>'d\<close>, about which nothing is assumed. \<open>klog\<close> is the kernel's \<open>kprintln!\<close>,
  which acts on the rest of the machine and may itself panic. The state records every access, newest
  first, so that the properties of a driver can speak about the order of its accesses.
\<close>

datatype io_event = In u16 u8 | Out u16 u8

record 'd io_hw =
  inb :: "u16 \<Rightarrow> 'd \<Rightarrow> u8 \<times> 'd"
  outb :: "u16 \<Rightarrow> u8 \<Rightarrow> 'd \<Rightarrow> 'd"
  klog :: "string \<Rightarrow> 'd \<Rightarrow> unit outcome \<times> 'd"

record 'd io_state =
  dev :: 'd
  trace :: "io_event list"

definition port_read :: "'d io_hw \<Rightarrow> u16 \<Rightarrow> ('d io_state, u8) prog" where
  "port_read hw p s = (let (v, d) = inb hw p (dev s)
     in (Ret v, s\<lparr>dev := d, trace := In p v # trace s\<rparr>))"

definition port_write :: "'d io_hw \<Rightarrow> u16 \<Rightarrow> u8 \<Rightarrow> ('d io_state, unit) prog" where
  "port_write hw p v s = (Ret (), s\<lparr>dev := outb hw p v (dev s), trace := Out p v # trace s\<rparr>)"

definition kprintln :: "'d io_hw \<Rightarrow> string \<Rightarrow> ('d io_state, unit) prog" where
  "kprintln hw msg = zoom dev (\<lambda>d s. s\<lparr>dev := d\<rparr>) (klog hw msg)"

text \<open>The upper-case hexadecimal digits of a number, as \<open>{:X}\<close> prints them.\<close>

function upper_hex :: "nat \<Rightarrow> string" where
  "upper_hex n = (let d = ''0123456789ABCDEF'' ! (n mod 16) in if n < 16 then [d] else upper_hex (n div 16) @ [d])"
  by auto
termination by (relation "measure id") auto

declare upper_hex.simps [simp del]

text \<open>The decimal digits of a number, as \<open>{}\<close> prints them.\<close>

function decimal :: "nat \<Rightarrow> string" where
  "decimal n = (let d = ''0123456789'' ! (n mod 10) in if n < 10 then [d] else decimal (n div 10) @ [d])"
  by auto
termination by (relation "measure id") auto

declare decimal.simps [simp del]

section \<open>Partial correctness\<close>

text \<open>
  \<open>wlp m Q s\<close>: if the program returns from \<open>s\<close>, value and state satisfy \<open>Q\<close>. Over unknown hardware a
  driver may panic at any step; what holds when it returns is stated with \<open>wlp\<close>, what holds however
  it ends with \<open>preserves\<close>.
\<close>

definition wlp :: "('s, 'a) prog \<Rightarrow> ('a \<Rightarrow> 's \<Rightarrow> bool) \<Rightarrow> 's \<Rightarrow> bool" where
  "wlp m Q s \<longleftrightarrow> (case m s of (Ret x, t) \<Rightarrow> Q x t | _ \<Rightarrow> True)"

named_theorems wlp_rules \<open>partial-correctness rules\<close>

lemma wlpI: "(\<And>x t. m s = (Ret x, t) \<Longrightarrow> Q x t) \<Longrightarrow> wlp m Q s"
  by (auto simp: wlp_def split: prod.split outcome.split)

lemma wlpD: "wlp m Q s \<Longrightarrow> m s = (Ret x, t) \<Longrightarrow> Q x t"
  by (simp add: wlp_def)

lemma wlp_mono: "wlp m Q s \<Longrightarrow> (\<And>x t. Q x t \<Longrightarrow> R x t) \<Longrightarrow> wlp m R s"
  by (auto simp: wlp_def split: prod.splits outcome.splits)

lemma wlp_ret [wlp_rules]: "wlp (ret x) Q = Q x"
  by (rule ext) (simp add: wlp_def ret_def)

lemma wlp_panic [wlp_rules]: "wlp panic Q = (\<lambda>_. True)"
  by (rule ext) (simp add: wlp_def panic_def)

lemma wlp_bnd [wlp_rules]: "wlp (bnd m f) Q = wlp m (\<lambda>x. wlp (f x) Q)"
  by (rule ext) (simp add: wlp_def bnd_def split: prod.split outcome.split)

lemma wlp_bndE [wlp_rules]:
  "wlp (bndE m f) Q = wlp m (\<lambda>r. case r of Inl e \<Rightarrow> Q (Inl e) | Inr x \<Rightarrow> wlp (f x) Q)"
  by (rule ext)
    (simp add: bndE_def wlp_def bnd_def ret_def split: prod.split outcome.split sum.split)

lemma wlp_unwrap [wlp_rules]:
  "wlp (unwrap m) Q = wlp m (\<lambda>r. case r of Inl e \<Rightarrow> (\<lambda>_. True) | Inr x \<Rightarrow> Q x)"
  by (rule ext)
    (simp add: unwrap_def wlp_def bnd_def ret_def panic_def split: prod.split outcome.split sum.split)

lemma wlp_map_err [wlp_rules]:
  "wlp (map_err g m) Q = wlp m (\<lambda>r. Q (case r of Inl e \<Rightarrow> Inl (g e) | Inr x \<Rightarrow> Inr x))"
  by (rule ext) (simp add: map_err_def wlp_def bnd_def ret_def split: prod.split outcome.split)

lemma wlp_if [wlp_rules]: "wlp (if b then m else n) Q = (if b then wlp m Q else wlp n Q)"
  by simp

text \<open>Reading a returning run backwards, step by step.\<close>

lemma bnd_Ret_iff: "bnd m f s = (Ret y, u) \<longleftrightarrow> (\<exists>x t. m s = (Ret x, t) \<and> f x t = (Ret y, u))"
  by (auto simp: bnd_def split: prod.splits outcome.splits)

lemma unwrap_Ret_iff: "unwrap m s = (Ret x, t) \<longleftrightarrow> m s = (Ret (Ok x), t)"
proof
  assume "unwrap m s = (Ret x, t)"
  then obtain r u where "m s = (Ret r, u)" "(case r of Inl _ \<Rightarrow> panic | Inr x \<Rightarrow> ret x) u = (Ret x, t)"
    by (auto simp: unwrap_def bnd_Ret_iff)
  then show "m s = (Ret (Ok x), t)"
    by (cases r) (simp_all add: ret_def panic_def)
qed (simp add: unwrap_def bnd_def ret_def)

lemma ret_Ret_iff: "ret x s = (Ret y, t) \<longleftrightarrow> x = y \<and> s = t"
  by (simp add: ret_def)

lemmas returned_iffs = bnd_Ret_iff unwrap_Ret_iff ret_Ret_iff

section \<open>Two machines with the same ports\<close>

text \<open>A message the console prints on one line: ASCII, no line feed, at most 149 characters.\<close>

definition plain :: "string \<Rightarrow> bool" where
  "plain msg \<longleftrightarrow> list_all (\<lambda>c. (of_char c :: nat) < 128 \<and> c \<noteq> CHR 0x0A) msg \<and> length msg \<le> 149"

definition same_io :: "('d \<Rightarrow> 'e \<Rightarrow> bool) \<Rightarrow> 'd io_state \<Rightarrow> 'e io_state \<Rightarrow> bool" where
  "same_io R s t \<longleftrightarrow> R (dev s) (dev t) \<and> trace s = trace t"

text \<open>
  The contract under which a driver cannot tell two machines apart: from related states the ports answer the same and
  leave related states, and so does printing a plain message.
\<close>

locale same_ports =
  fixes hw :: "'d io_hw" and hw' :: "'e io_hw" and R :: "'d \<Rightarrow> 'e \<Rightarrow> bool"
  assumes same_inb: "R d e \<Longrightarrow> fst (inb hw p d) = fst (inb hw' p e) \<and> R (snd (inb hw p d)) (snd (inb hw' p e))"
    and same_outb: "R d e \<Longrightarrow> R (outb hw p v d) (outb hw' p v e)"
    and same_klog: "plain msg \<Longrightarrow> R d e \<Longrightarrow>
      fst (klog hw msg d) = fst (klog hw' msg e) \<and> R (snd (klog hw msg d)) (snd (klog hw' msg e))"
begin

lemma sim_port_read: "sim (same_io R) (port_read hw p) (port_read hw' p)"
  using same_inb by (auto intro!: simI simp: same_io_def port_read_def split_beta Let_def)

lemma sim_port_write: "sim (same_io R) (port_write hw p v) (port_write hw' p v)"
  using same_outb by (auto intro!: simI simp: same_io_def port_write_def)

lemma sim_kprintln: "plain msg \<Longrightarrow> sim (same_io R) (kprintln hw msg) (kprintln hw' msg)"
  using same_klog by (auto intro!: simI simp: same_io_def kprintln_def zoom_def split_beta)

lemmas sim_ports = sim_rules sim_port_read sim_port_write

end

end
