(* ===== verification/Ps2_Controller.thy ===== *)
theory Ps2_Controller
  imports Port_Io
begin

unbundle bit_operations_syntax

text \<open>
  The PS/2 controller driver: \<open>kernel/src/ps2/controller.rs\<close>. A \<open>Controller\<close> holds port numbers and
  the polling bound; its methods are programs over the port-access state of \<open>Port_Io\<close>. The two polling
  loops are one recursion on the polls that are left.

  The lemmas show, for any hardware, how often the ports are polled, that the data port is only
  touched right after a status byte that allows it, and the bit laws of the configuration byte.
\<close>

datatype ControllerError = Timeout | TestFailed

record Controller =
  data_port :: u16
  status_port :: u16
  command_port :: u16
  loop_timeout :: usize

definition Controller_new :: Controller where
  "Controller_new = \<lparr>data_port = 0x60, status_port = 0x64, command_port = 0x64, loop_timeout = 1000\<rparr>"

datatype ControllerCommand =
    ReadControllerConfigByte
  | WriteControllerConfigByte
  | DisableSecondPort
  | EnableSecondPort
  | TestSecondPort
  | TestController
  | TestFirstPort
  | DisableFirstPort
  | EnableFirstPort
  | WriteSecondPortOutputBuffer
  | WriteSecondPortInputBuffer

fun ControllerCommand_as_u8 :: "ControllerCommand \<Rightarrow> u8" where
  "ControllerCommand_as_u8 ReadControllerConfigByte = 0x20"
| "ControllerCommand_as_u8 WriteControllerConfigByte = 0x60"
| "ControllerCommand_as_u8 DisableSecondPort = 0xa7"
| "ControllerCommand_as_u8 EnableSecondPort = 0xa8"
| "ControllerCommand_as_u8 TestSecondPort = 0xa9"
| "ControllerCommand_as_u8 TestController = 0xaa"
| "ControllerCommand_as_u8 TestFirstPort = 0xab"
| "ControllerCommand_as_u8 DisableFirstPort = 0xad"
| "ControllerCommand_as_u8 EnableFirstPort = 0xae"
| "ControllerCommand_as_u8 WriteSecondPortOutputBuffer = 0xd3"
| "ControllerCommand_as_u8 WriteSecondPortInputBuffer = 0xd4"

section \<open>Status and configuration bytes\<close>

text \<open>\<open>ControllerConfigByte\<close> and \<open>ControllerStatus\<close> wrap a byte.\<close>

type_synonym ControllerConfigByte = u8
type_synonym ControllerStatus = u8

definition ControllerConfigByte_get :: "ControllerConfigByte \<Rightarrow> u8" where "ControllerConfigByte_get self = self"

definition ControllerConfigByte_from_u8 :: "u8 \<Rightarrow> ControllerConfigByte" where "ControllerConfigByte_from_u8 value = value"

definition ControllerStatus_get :: "ControllerStatus \<Rightarrow> u8" where "ControllerStatus_get self = self"

definition ControllerStatus_from_u8 :: "u8 \<Rightarrow> ControllerStatus" where "ControllerStatus_from_u8 value = value"

lemmas wrapped_bytes [simp] = ControllerConfigByte_get_def ControllerConfigByte_from_u8_def ControllerStatus_get_def
  ControllerStatus_from_u8_def

definition ControllerStatus_get_bit :: "u8 \<Rightarrow> nat \<Rightarrow> bool" where
  "ControllerStatus_get_bit self b \<longleftrightarrow> self AND push_bit b 1 \<noteq> 0"

definition is_output_full :: "u8 \<Rightarrow> bool" where
  "is_output_full self = ControllerStatus_get_bit self 0"

definition is_input_full :: "u8 \<Rightarrow> bool" where
  "is_input_full self = ControllerStatus_get_bit self 1"

definition ControllerConfigByte_get_bit :: "u8 \<Rightarrow> nat \<Rightarrow> bool" where
  "ControllerConfigByte_get_bit self b \<longleftrightarrow> self AND push_bit b 1 \<noteq> 0"

definition ControllerConfigByte_set_bit :: "nat \<Rightarrow> bool \<Rightarrow> u8 \<Rightarrow> u8" where
  "ControllerConfigByte_set_bit b value self =
     (if value then self OR push_bit b 1 else self AND NOT (push_bit b 1))"

definition get_first_port_interrupt :: "u8 \<Rightarrow> bool" where
  "get_first_port_interrupt self = ControllerConfigByte_get_bit self 0"

definition set_first_port_interrupt :: "bool \<Rightarrow> u8 \<Rightarrow> u8" where
  "set_first_port_interrupt value self = ControllerConfigByte_set_bit 0 value self"

definition get_second_port_interrupt :: "u8 \<Rightarrow> bool" where
  "get_second_port_interrupt self = ControllerConfigByte_get_bit self 1"

definition set_second_port_interrupt :: "bool \<Rightarrow> u8 \<Rightarrow> u8" where
  "set_second_port_interrupt value self = ControllerConfigByte_set_bit 1 value self"

definition get_first_port_clock :: "u8 \<Rightarrow> bool" where
  "get_first_port_clock self = ControllerConfigByte_get_bit self 4"

definition set_first_port_clock :: "bool \<Rightarrow> u8 \<Rightarrow> u8" where
  "set_first_port_clock value self = ControllerConfigByte_set_bit 4 value self"

definition get_second_port_clock :: "u8 \<Rightarrow> bool" where
  "get_second_port_clock self = ControllerConfigByte_get_bit self 5"

definition set_second_port_clock :: "bool \<Rightarrow> u8 \<Rightarrow> u8" where
  "set_second_port_clock value self = ControllerConfigByte_set_bit 5 value self"

definition get_first_port_translation :: "u8 \<Rightarrow> bool" where
  "get_first_port_translation self = ControllerConfigByte_get_bit self 6"

definition set_first_port_translation :: "bool \<Rightarrow> u8 \<Rightarrow> u8" where
  "set_first_port_translation value self = ControllerConfigByte_set_bit 6 value self"

section \<open>Controller operations\<close>

definition Controller_write_command :: "'d io_hw \<Rightarrow> Controller \<Rightarrow> ControllerCommand \<Rightarrow> ('d io_state, unit) prog" where
  "Controller_write_command hw c command = port_write hw (command_port c) (ControllerCommand_as_u8 command)"

definition read_status :: "'d io_hw \<Rightarrow> Controller \<Rightarrow> ('d io_state, u8) prog" where
  "read_status hw c = bnd (port_read hw (status_port c)) (\<lambda>v. ret (ControllerStatus_from_u8 v))"

lemma read_status_eq: "read_status hw c = port_read hw (status_port c)"
  by (simp add: read_status_def)

text \<open>
  The loop \<open>while count < self.loop_timeout { if ready(status) return Ok(()); count += 1 }\<close>, followed
  by \<open>Err(Timeout)\<close>; the argument is \<open>loop_timeout - count\<close>.
\<close>

fun poll :: "'d io_hw \<Rightarrow> Controller \<Rightarrow> (u8 \<Rightarrow> bool) \<Rightarrow> nat \<Rightarrow> ('d io_state, ControllerError + unit) prog" where
  "poll hw c ready 0 = ret (Err Timeout)"
| "poll hw c ready (Suc n) =
     bnd (read_status hw c) (\<lambda>st. if ready st then ret (Ok ()) else poll hw c ready n)"

definition wait_for_read :: "'d io_hw \<Rightarrow> Controller \<Rightarrow> ('d io_state, ControllerError + unit) prog" where
  "wait_for_read hw c = poll hw c is_output_full (loop_timeout c)"

definition wait_for_write :: "'d io_hw \<Rightarrow> Controller \<Rightarrow> ('d io_state, ControllerError + unit) prog" where
  "wait_for_write hw c = poll hw c (\<lambda>st. \<not> is_input_full st) (loop_timeout c)"

definition Controller_write_data :: "'d io_hw \<Rightarrow> Controller \<Rightarrow> u8 \<Rightarrow> ('d io_state, ControllerError + unit) prog" where
  "Controller_write_data hw c data =
     bndE (wait_for_write hw c) (\<lambda>_.
     bnd (port_write hw (data_port c) data) (\<lambda>_. ret (Ok ())))"

definition Controller_read_data :: "'d io_hw \<Rightarrow> Controller \<Rightarrow> ('d io_state, ControllerError + u8) prog" where
  "Controller_read_data hw c =
     bndE (wait_for_read hw c) (\<lambda>_.
     bnd (port_read hw (data_port c)) (\<lambda>v. ret (Ok v)))"

text \<open>
  The loop of \<open>flush_data_port\<close>: the status is read before \<open>count < self.loop_timeout\<close> is tested; the
  argument is \<open>loop_timeout - count\<close>.
\<close>

fun flush_loop :: "'d io_hw \<Rightarrow> Controller \<Rightarrow> nat \<Rightarrow> ('d io_state, unit) prog" where
  "flush_loop hw c 0 = bnd (read_status hw c) (\<lambda>_. ret ())"
| "flush_loop hw c (Suc n) =
     bnd (read_status hw c) (\<lambda>st.
     if is_output_full st then bnd (Controller_read_data hw c) (\<lambda>_. flush_loop hw c n)
     else ret ())"

definition flush_data_port :: "'d io_hw \<Rightarrow> Controller \<Rightarrow> ('d io_state, unit) prog" where
  "flush_data_port hw c = flush_loop hw c (loop_timeout c)"

definition write_to_second_port_ouput_buffer ::
    "'d io_hw \<Rightarrow> Controller \<Rightarrow> u8 \<Rightarrow> ('d io_state, ControllerError + unit) prog" where
  "write_to_second_port_ouput_buffer hw c data =
     bnd (Controller_write_command hw c WriteSecondPortOutputBuffer) (\<lambda>_.
     bndE (Controller_write_data hw c data) (\<lambda>_. ret (Ok ())))"

definition write_to_second_port_input_buffer ::
    "'d io_hw \<Rightarrow> Controller \<Rightarrow> u8 \<Rightarrow> ('d io_state, ControllerError + unit) prog" where
  "write_to_second_port_input_buffer hw c data =
     bnd (Controller_write_command hw c WriteSecondPortInputBuffer) (\<lambda>_.
     bndE (Controller_write_data hw c data) (\<lambda>_. ret (Ok ())))"

definition disable_first_port :: "'d io_hw \<Rightarrow> Controller \<Rightarrow> ('d io_state, unit) prog" where
  "disable_first_port hw c = Controller_write_command hw c DisableFirstPort"

definition disable_second_port :: "'d io_hw \<Rightarrow> Controller \<Rightarrow> ('d io_state, unit) prog" where
  "disable_second_port hw c = Controller_write_command hw c DisableSecondPort"

definition enable_first_port :: "'d io_hw \<Rightarrow> Controller \<Rightarrow> ('d io_state, unit) prog" where
  "enable_first_port hw c = Controller_write_command hw c EnableFirstPort"

definition enable_second_port :: "'d io_hw \<Rightarrow> Controller \<Rightarrow> ('d io_state, unit) prog" where
  "enable_second_port hw c = Controller_write_command hw c EnableSecondPort"

definition read_config_byte :: "'d io_hw \<Rightarrow> Controller \<Rightarrow> ('d io_state, ControllerError + u8) prog" where
  "read_config_byte hw c =
     bnd (Controller_write_command hw c ReadControllerConfigByte) (\<lambda>_.
     bndE (Controller_read_data hw c) (\<lambda>v. ret (Ok (ControllerConfigByte_from_u8 v))))"

definition write_config_byte :: "'d io_hw \<Rightarrow> Controller \<Rightarrow> u8 \<Rightarrow> ('d io_state, ControllerError + unit) prog" where
  "write_config_byte hw c config_byte =
     bnd (Controller_write_command hw c WriteControllerConfigByte) (\<lambda>_.
     bndE (Controller_write_data hw c (ControllerConfigByte_get config_byte)) (\<lambda>_. ret (Ok ())))"

definition test_controller :: "'d io_hw \<Rightarrow> Controller \<Rightarrow> ('d io_state, ControllerError + unit) prog" where
  "test_controller hw c =
     bnd (Controller_write_command hw c TestController) (\<lambda>_.
     bndE (Controller_read_data hw c) (\<lambda>response.
     if response = 0x55 then ret (Ok ()) else ret (Err TestFailed)))"

definition test_first_port :: "'d io_hw \<Rightarrow> Controller \<Rightarrow> ('d io_state, ControllerError + unit) prog" where
  "test_first_port hw c =
     bnd (Controller_write_command hw c TestFirstPort) (\<lambda>_.
     bndE (Controller_read_data hw c) (\<lambda>response.
     if response = 0x00 then ret (Ok ()) else ret (Err TestFailed)))"

definition test_second_port :: "'d io_hw \<Rightarrow> Controller \<Rightarrow> ('d io_state, ControllerError + unit) prog" where
  "test_second_port hw c =
     bnd (Controller_write_command hw c TestSecondPort) (\<lambda>_.
     bndE (Controller_read_data hw c) (\<lambda>response.
     if response = 0x00 then ret (Ok ()) else ret (Err TestFailed)))"

section \<open>Polling\<close>

lemma ControllerStatus_get_bit_iff: "ControllerStatus_get_bit w k \<longleftrightarrow> bit w k"
  by (simp add: ControllerStatus_get_bit_def and_exp_eq_0_iff_not_bit)

lemma ControllerConfigByte_get_bit_iff: "ControllerConfigByte_get_bit w k \<longleftrightarrow> bit w k"
  by (simp add: ControllerConfigByte_get_bit_def and_exp_eq_0_iff_not_bit)

lemma is_output_full_iff: "is_output_full st \<longleftrightarrow> bit st 0"
  by (simp only: is_output_full_def ControllerStatus_get_bit_iff)

lemma is_input_full_iff: "is_input_full st \<longleftrightarrow> bit st 1"
  by (simp only: is_input_full_def ControllerStatus_get_bit_iff)

text \<open>The next \<open>n\<close> status bytes the hardware would answer, and the machine after reading them.\<close>

fun statuses :: "'d io_hw \<Rightarrow> Controller \<Rightarrow> 'd \<Rightarrow> nat \<Rightarrow> u8 list" where
  "statuses hw c d 0 = []"
| "statuses hw c d (Suc n) = (let (v, d') = inb hw (status_port c) d in v # statuses hw c d' n)"

definition status_events :: "Controller \<Rightarrow> u8 list \<Rightarrow> io_event list" where
  "status_events c sts = rev (map (In (status_port c)) sts)"

lemma status_events_Cons: "status_events c (v # vs) = status_events c vs @ [In (status_port c) v]"
  by (simp add: status_events_def)

definition polled :: "(u8 \<Rightarrow> bool) \<Rightarrow> u8 list \<Rightarrow> u8 list" where
  "polled ready sts = (let w = takeWhile (\<lambda>st. \<not> ready st) sts in w @ take 1 (drop (length w) sts))"

lemma polled_Nil [simp]: "polled ready [] = []"
  by (simp add: polled_def)

lemma polled_Cons [simp]: "polled ready (v # vs) = (if ready v then [v] else v # polled ready vs)"
  by (simp add: polled_def Let_def)

lemma length_statuses [simp]: "length (statuses hw c d n) = n"
  by (induction n arbitrary: d) (simp_all split: prod.split)

lemma length_polled: "length (polled ready sts) \<le> length sts"
  by (induction sts) simp_all

text \<open>Every access of the controller returns: the polls are bounded and an access of a port does not fail.\<close>

lemma returns_port [returns_rules]: "returns (port_read hw p)" "returns (port_write hw p v)"
  by (simp_all add: returns_def port_read_def port_write_def split: prod.split)

lemma returns_poll [returns_rules]: "returns (poll hw c ready n)"
  by (induction n) (auto simp: read_status_eq intro!: returns_rules)

lemma returns_read_data [returns_rules]: "returns (Controller_read_data hw c)"
  unfolding Controller_read_data_def wait_for_read_def by (intro returns_rules)

lemma returns_flush_data_port [returns_rules]: "returns (flush_data_port hw c)"
proof -
  have "returns (flush_loop hw c n)" for n
    by (induction n) (auto simp: read_status_eq intro!: returns_rules)
  then show ?thesis by (simp add: flush_data_port_def)
qed

lemma poll_result:
  "\<exists>d. poll hw c ready n s =
    (Ret (if \<exists>st \<in> set (statuses hw c (dev s) n). ready st then Ok () else Err Timeout),
     s\<lparr>dev := d, trace := status_events c (polled ready (statuses hw c (dev s) n)) @ trace s\<rparr>)"
proof (induction n arbitrary: s)
  case 0
  show ?case by (intro exI [of _ "dev s"]) (simp add: ret_def status_events_def)
next
  case (Suc n)
  obtain v d where v: "inb hw (status_port c) (dev s) = (v, d)" by (cases "inb hw (status_port c) (dev s)")
  let ?s = "s\<lparr>dev := d, trace := In (status_port c) v # trace s\<rparr>"
  have read: "read_status hw c s = (Ret v, ?s)"
    by (simp add: read_status_eq port_read_def v)
  show ?case
  proof (cases "ready v")
    case True
    then show ?thesis
      by (intro exI [of _ d]) (simp add: bnd_def read ret_def v status_events_def)
  next
    case False
    with Suc.IH [of ?s] show ?thesis
      by (auto simp: bnd_def read v status_events_Cons)
  qed
qed

text \<open>
  Polling is exact and bounded on any hardware: \<open>wait_for_read\<close> and \<open>wait_for_write\<close> always
  return; they return \<open>Ok\<close> exactly if one of the next \<open>loop_timeout\<close> status bytes shows a full output
  buffer, respectively an empty input buffer, and \<open>Timeout\<close> otherwise; and the accesses they make are
  those status reads up to and including the first good one, at most \<open>loop_timeout\<close> of them.
\<close>

theorem waiting_is_bounded:
  "(\<exists>d. wait_for_read hw c s =
      (Ret (if \<exists>st \<in> set (statuses hw c (dev s) (loop_timeout c)). bit st 0 then Ok () else Err Timeout),
       s\<lparr>dev := d, trace := status_events c
          (polled (\<lambda>st. bit st 0) (statuses hw c (dev s) (loop_timeout c))) @ trace s\<rparr>))
   \<and> (\<exists>d. wait_for_write hw c s =
      (Ret (if \<exists>st \<in> set (statuses hw c (dev s) (loop_timeout c)). \<not> bit st 1 then Ok () else Err Timeout),
       s\<lparr>dev := d, trace := status_events c
          (polled (\<lambda>st. \<not> bit st 1) (statuses hw c (dev s) (loop_timeout c))) @ trace s\<rparr>))
   \<and> length (polled ready (statuses hw c (dev s) (loop_timeout c))) \<le> loop_timeout c"
  unfolding wait_for_read_def wait_for_write_def is_output_full_iff is_input_full_iff
  using poll_result [of hw c is_output_full "loop_timeout c" s, unfolded is_output_full_iff]
    poll_result [of hw c "\<lambda>st. \<not> is_input_full st" "loop_timeout c" s, unfolded is_input_full_iff]
    length_polled [of ready "statuses hw c (dev s) (loop_timeout c)"]
  by (simp add: is_output_full_iff [abs_def])


section \<open>Discipline of the data port\<close>

text \<open>
  On a trace, newest first: every byte taken from the data port comes right after a status byte
  with the output-buffer bit set, and every byte put into it right after a status byte with the
  input-buffer bit clear.
\<close>

fun disciplined :: "Controller \<Rightarrow> io_event list \<Rightarrow> bool" where
  "disciplined c [] \<longleftrightarrow> True"
| "disciplined c (In p v # es) \<longleftrightarrow> disciplined c es \<and> (p = data_port c \<longrightarrow>
     (case es of In q st # _ \<Rightarrow> q = status_port c \<and> bit st 0 | _ \<Rightarrow> False))"
| "disciplined c (Out p v # es) \<longleftrightarrow> disciplined c es \<and> (p = data_port c \<longrightarrow>
     (case es of In q st # _ \<Rightarrow> q = status_port c \<and> \<not> bit st 1 | _ \<Rightarrow> False))"

text \<open>What a driver did, without its status polls.\<close>

definition visible :: "Controller \<Rightarrow> 'd io_state \<Rightarrow> io_event list" where
  "visible c s = filter (\<lambda>e. case e of In p _ \<Rightarrow> p \<noteq> status_port c | Out _ _ \<Rightarrow> True) (trace s)"

lemma polled_last:
  "\<exists>st \<in> set sts. ready st \<Longrightarrow> polled ready sts \<noteq> [] \<and> ready (last (polled ready sts))"
  by (induction sts) auto

lemma status_events_last: "xs \<noteq> [] \<Longrightarrow> \<exists>es. status_events c xs = In (status_port c) (last xs) # es"
  by (cases xs rule: rev_cases) (simp_all add: status_events_def)

text \<open>
  The contract of the port numbers: the data port is neither the status nor the command port. It is
  all that the discipline needs; \<open>Controller::new\<close> provides it.
\<close>

locale distinct_ports =
  fixes c :: Controller
  assumes data_status: "data_port c \<noteq> status_port c"
    and data_command: "data_port c \<noteq> command_port c"
begin

lemma disciplined_status_events: "disciplined c tr \<Longrightarrow> disciplined c (status_events c xs @ tr)"
proof -
  assume tr: "disciplined c tr"
  have "disciplined c (map (In (status_port c)) ys @ tr)" for ys
    using tr data_status by (induction ys) auto
  from this [of "rev xs"] show ?thesis by (simp add: status_events_def rev_map)
qed

lemma visible_status_events [simp]:
  "visible c (s\<lparr>dev := d, trace := status_events c xs @ trace s\<rparr>) = visible c s"
  by (simp add: visible_def status_events_def filter_empty_conv)

text \<open>Polling ends with a good status byte on top of the trace, or with a timeout.\<close>

lemma poll_cases:
  obtains (ready) st t es where "poll hw c ready n s = (Ret (Ok ()), t)" "ready st"
      "trace t = In (status_port c) st # es" "visible c t = visible c s"
      "disciplined c (trace s) \<Longrightarrow> disciplined c (trace t)"
    | (timeout) t where "poll hw c ready n s = (Ret (Err Timeout), t)" "visible c t = visible c s"
      "disciplined c (trace s) \<Longrightarrow> disciplined c (trace t)"
proof -
  let ?sts = "statuses hw c (dev s) n"
  obtain d where p: "poll hw c ready n s = (Ret (if \<exists>st \<in> set ?sts. ready st then Ok () else Err Timeout),
      s\<lparr>dev := d, trace := status_events c (polled ready ?sts) @ trace s\<rparr>)"
    using poll_result [of hw c ready n s] by (elim exE)
  show ?thesis
  proof (cases "\<exists>st \<in> set ?sts. ready st")
    case True
    then obtain es where "status_events c (polled ready ?sts) = In (status_port c) (last (polled ready ?sts)) # es"
      using polled_last [of ?sts ready] status_events_last by blast
    then have top: "trace (s\<lparr>dev := d, trace := status_events c (polled ready ?sts) @ trace s\<rparr>)
        = In (status_port c) (last (polled ready ?sts)) # es @ trace s"
      by simp
    have good: "ready (last (polled ready ?sts))"
      using True polled_last [of ?sts ready] by simp
    show ?thesis
      by (rule that(1) [OF p [unfolded if_P [OF True]] good top])
        (use disciplined_status_events in simp_all)
  next
    case False
    then show ?thesis
      using that(2) [OF p [unfolded if_not_P [OF False]]]
        disciplined_status_events [of "trace s" "polled ready ?sts"] by simp
  qed
qed

lemma preserves_read_data: "preserves (\<lambda>s. disciplined c (trace s)) (Controller_read_data hw c)"
proof (rule preservesI)
  fix s :: "'a io_state"
  assume "disciplined c (trace s)"
  then show "disciplined c (trace (snd (Controller_read_data hw c s)))"
    by (cases rule: poll_cases [of hw is_output_full "loop_timeout c" s])
      (auto simp: Controller_read_data_def wait_for_read_def bndE_def bnd_def ret_def port_read_def
        is_output_full_iff split: prod.split)
qed

lemma preserves_write_data: "preserves (\<lambda>s. disciplined c (trace s)) (Controller_write_data hw c v)"
proof (rule preservesI)
  fix s :: "'a io_state"
  assume "disciplined c (trace s)"
  then show "disciplined c (trace (snd (Controller_write_data hw c v s)))"
    by (cases rule: poll_cases [of hw "\<lambda>st. \<not> is_input_full st" "loop_timeout c" s])
      (auto simp: Controller_write_data_def wait_for_write_def bndE_def bnd_def ret_def port_write_def
        is_input_full_iff)
qed

lemma preserves_write_command:
  "preserves (\<lambda>s. disciplined c (trace s)) (Controller_write_command hw c command)"
  using data_command by (auto intro!: preservesI simp: Controller_write_command_def port_write_def)

lemma preserves_read_status: "preserves (\<lambda>s. disciplined c (trace s)) (read_status hw c)"
  using data_status by (auto intro!: preservesI simp: read_status_eq port_read_def split: prod.split)

lemmas preserves_accesses = preserves_read_data preserves_write_data preserves_write_command
  preserves_read_status

lemma preserves_flush: "preserves (\<lambda>s. disciplined c (trace s)) (flush_loop hw c n)"
  by (induction n) (simp_all add: preserves_rules preserves_accesses)

lemma wlp_read_data:
  assumes "\<And>v t. visible c t = In (data_port c) v # visible c s \<Longrightarrow> Q (Ok v) t"
    and "\<And>t. visible c t = visible c s \<Longrightarrow> Q (Err Timeout) t"
  shows "wlp (Controller_read_data hw c) Q s"
proof (cases rule: poll_cases [of hw is_output_full "loop_timeout c" s])
  case (ready st t es)
  obtain v d where v: "inb hw (data_port c) (dev t) = (v, d)" by (cases "inb hw (data_port c) (dev t)")
  then show ?thesis
    using ready assms(1) [of "t\<lparr>dev := d, trace := In (data_port c) v # trace t\<rparr>" v] data_status
    by (simp add: wlp_def Controller_read_data_def wait_for_read_def bndE_def bnd_def ret_def
        port_read_def visible_def)
next
  case (timeout t)
  then show ?thesis
    using assms(2) [of t]
    by (simp add: wlp_def Controller_read_data_def wait_for_read_def bndE_def bnd_def ret_def)
qed

lemma wlp_write_data:
  assumes "\<And>t. visible c t = Out (data_port c) v # visible c s \<Longrightarrow> Q (Ok ()) t"
    and "\<And>t. visible c t = visible c s \<Longrightarrow> Q (Err Timeout) t"
  shows "wlp (Controller_write_data hw c v) Q s"
proof (cases rule: poll_cases [of hw "\<lambda>st. \<not> is_input_full st" "loop_timeout c" s])
  case (ready st t es)
  then show ?thesis
    using assms(1) [of "t\<lparr>dev := outb hw (data_port c) v (dev t), trace := Out (data_port c) v # trace t\<rparr>"]
    by (simp add: wlp_def Controller_write_data_def wait_for_write_def bndE_def bnd_def ret_def
        port_write_def visible_def)
next
  case (timeout t)
  then show ?thesis
    using assms(2) [of t]
    by (simp add: wlp_def Controller_write_data_def wait_for_write_def bndE_def bnd_def ret_def)
qed

lemma wlp_write_command:
  assumes "\<And>t. visible c t = Out (command_port c) (ControllerCommand_as_u8 command) # visible c s \<Longrightarrow> Q () t"
  shows "wlp (Controller_write_command hw c command) Q s"
  using assms [of "s\<lparr>dev := outb hw (command_port c) (ControllerCommand_as_u8 command) (dev s),
      trace := Out (command_port c) (ControllerCommand_as_u8 command) # trace s\<rparr>"]
  by (simp add: wlp_def Controller_write_command_def port_write_def visible_def)

end

interpretation ctl: distinct_ports Controller_new
  by unfold_locales (simp_all add: Controller_new_def)

section \<open>The controller on two machines\<close>

context same_ports
begin

lemma sim_poll: "sim (same_io R) (poll hw c ready n) (poll hw' c ready n)"
  by (induction n) (auto simp: read_status_eq intro!: sim_ports)

lemma sim_read_data: "sim (same_io R) (Controller_read_data hw c) (Controller_read_data hw' c)"
  unfolding Controller_read_data_def wait_for_read_def by (intro sim_ports sim_poll)

lemma sim_write_data: "sim (same_io R) (Controller_write_data hw c v) (Controller_write_data hw' c v)"
  unfolding Controller_write_data_def wait_for_write_def by (intro sim_ports sim_poll)

lemma sim_write_command: "sim (same_io R) (Controller_write_command hw c v) (Controller_write_command hw' c v)"
  unfolding Controller_write_command_def by (rule sim_port_write)

lemma sim_flush: "sim (same_io R) (flush_data_port hw c) (flush_data_port hw' c)"
proof -
  have "sim (same_io R) (flush_loop hw c n) (flush_loop hw' c n)" for n
    by (induction n) (auto simp: read_status_eq intro!: sim_ports sim_read_data)
  then show ?thesis by (simp add: flush_data_port_def)
qed

lemmas sim_controller = sim_ports sim_read_data sim_write_data sim_write_command sim_flush

end

end
