(* ===== verification/Ps2_Devices.thy ===== *)
theory Ps2_Devices
  imports Ps2_Controller
begin

text \<open>
  The PS/2 keyboard and mouse: \<open>kernel/src/ps2/keyboard.rs\<close> and \<open>kernel/src/ps2/mouse.rs\<close>. Both
  devices are views of the controller and add the command protocol: a command byte is answered by
  one of the \<open>Response\<close> codes, any other byte panics in \<open>Response::from_u8\<close>.
\<close>

datatype Response =
    InternalBufferOverrun
  | SelfTestPassed
  | ResponseToEcho
  | Acknowledged
  | SelfTestFailed1
  | SelfTestFailed2
  | Resend
  | KeyDetectionErrorOrInteralBufferOverrun

fun Response_as_u8 :: "Response \<Rightarrow> u8" where
  "Response_as_u8 InternalBufferOverrun = 0x00"
| "Response_as_u8 SelfTestPassed = 0xaa"
| "Response_as_u8 ResponseToEcho = 0xee"
| "Response_as_u8 Acknowledged = 0xfa"
| "Response_as_u8 SelfTestFailed1 = 0xfc"
| "Response_as_u8 SelfTestFailed2 = 0xfd"
| "Response_as_u8 Resend = 0xfe"
| "Response_as_u8 KeyDetectionErrorOrInteralBufferOverrun = 0xff"

definition Response_from_u8 :: "u8 \<Rightarrow> ('s, Response) prog" where
  "Response_from_u8 code =
     (if code = Response_as_u8 InternalBufferOverrun then ret InternalBufferOverrun
      else if code = Response_as_u8 SelfTestPassed then ret SelfTestPassed
      else if code = Response_as_u8 ResponseToEcho then ret ResponseToEcho
      else if code = Response_as_u8 Acknowledged then ret Acknowledged
      else if code = Response_as_u8 SelfTestFailed1 then ret SelfTestFailed1
      else if code = Response_as_u8 SelfTestFailed2 then ret SelfTestFailed2
      else if code = Response_as_u8 Resend then ret Resend
      else if code = Response_as_u8 KeyDetectionErrorOrInteralBufferOverrun
        then ret KeyDetectionErrorOrInteralBufferOverrun
      else panic)"

text \<open>\<open>ps2::controller()\<close>.\<close>

definition ps2_controller :: Controller where
  "ps2_controller = Controller_new"

declare ps2_controller_def [simp]

section \<open>Keyboard\<close>

datatype KeyboardError =
    KeyboardControllerError ControllerError
  | KeyboardCommandNotAcknowledged Response
  | KeyboardSelfTestFailed
  | KeyboardInvalidResponse

definition KeyboardError_from :: "ControllerError \<Rightarrow> KeyboardError" where
  "KeyboardError_from err = KeyboardControllerError err"

datatype KeyboardCommand = KeyboardResetAndSelfTest

fun KeyboardCommand_as_u8 :: "KeyboardCommand \<Rightarrow> u8" where
  "KeyboardCommand_as_u8 KeyboardResetAndSelfTest = 0xff"

text \<open>A \<open>Keyboard\<close> is a mutable borrow of the controller: \<open>Keyboard::new\<close>, \<open>Controller::keyboard\<close>.\<close>

type_synonym Keyboard = Controller

definition Keyboard_new :: "Controller \<Rightarrow> Keyboard" where "Keyboard_new controller = controller"

definition Controller_keyboard :: "Controller \<Rightarrow> Keyboard" where "Controller_keyboard self = Keyboard_new self"

definition Keyboard_read_response ::
    "'d io_hw \<Rightarrow> Controller \<Rightarrow> ('d io_state, KeyboardError + Response) prog" where
  "Keyboard_read_response hw c =
     bndE (map_err KeyboardError_from (Controller_read_data hw c)) (\<lambda>response.
     bnd (Response_from_u8 response) (\<lambda>r. ret (Ok r)))"

definition Keyboard_write_command ::
    "'d io_hw \<Rightarrow> Controller \<Rightarrow> KeyboardCommand \<Rightarrow> u8 option \<Rightarrow> ('d io_state, KeyboardError + unit) prog" where
  "Keyboard_write_command hw c command data =
     bndE (map_err KeyboardError_from (Controller_write_data hw c (KeyboardCommand_as_u8 command))) (\<lambda>_.
     bndE (Keyboard_read_response hw c) (\<lambda>response.
     if response \<noteq> Acknowledged then ret (Err (KeyboardCommandNotAcknowledged response))
     else
       (case data of
          None \<Rightarrow> ret (Ok ())
        | Some data \<Rightarrow>
            bndE (map_err KeyboardError_from (Controller_write_data hw c data)) (\<lambda>_.
            bndE (Keyboard_read_response hw c) (\<lambda>response.
            if response \<noteq> Acknowledged then ret (Err (KeyboardCommandNotAcknowledged response))
            else ret (Ok ()))))))"

definition Keyboard_reset_and_self_test ::
    "'d io_hw \<Rightarrow> Controller \<Rightarrow> ('d io_state, KeyboardError + unit) prog" where
  "Keyboard_reset_and_self_test hw c =
     bndE (Keyboard_write_command hw c KeyboardResetAndSelfTest None) (\<lambda>_.
     bndE (Keyboard_read_response hw c) (\<lambda>response.
     case response of
       SelfTestPassed \<Rightarrow> ret (Ok ())
     | SelfTestFailed1 \<Rightarrow> ret (Err KeyboardSelfTestFailed)
     | SelfTestFailed2 \<Rightarrow> ret (Err KeyboardSelfTestFailed)
     | _ \<Rightarrow> ret (Err KeyboardInvalidResponse)))"

definition Keyboard_read_data ::
    "'d io_hw \<Rightarrow> Controller \<Rightarrow> ('d io_state, KeyboardError + u8) prog" where
  "Keyboard_read_data hw c =
     bndE (map_err KeyboardError_from (Controller_read_data hw c)) (\<lambda>v. ret (Ok v))"

section \<open>Mouse\<close>

datatype MouseError =
    MouseControllerError ControllerError
  | MouseCommandNotAcknowledged Response
  | MouseInvalidResponse
  | MouseSelfTestFailed

definition MouseError_from :: "ControllerError \<Rightarrow> MouseError" where
  "MouseError_from err = MouseControllerError err"

datatype MouseCommand = EnableDataReporting | MouseResetAndSelfTest

fun MouseCommand_as_u8 :: "MouseCommand \<Rightarrow> u8" where
  "MouseCommand_as_u8 EnableDataReporting = 0xf4"
| "MouseCommand_as_u8 MouseResetAndSelfTest = 0xff"

type_synonym Mouse = Controller

definition Mouse_new :: "Controller \<Rightarrow> Mouse" where "Mouse_new controller = controller"

definition Controller_mouse :: "Controller \<Rightarrow> Mouse" where "Controller_mouse self = Mouse_new self"

lemmas device_views [simp] = Keyboard_new_def Controller_keyboard_def Mouse_new_def Controller_mouse_def

definition Mouse_read_response ::
    "'d io_hw \<Rightarrow> Controller \<Rightarrow> ('d io_state, MouseError + Response) prog" where
  "Mouse_read_response hw c =
     bndE (map_err MouseError_from (Controller_read_data hw c)) (\<lambda>response.
     bnd (Response_from_u8 response) (\<lambda>r. ret (Ok r)))"

definition Mouse_read_data :: "'d io_hw \<Rightarrow> Controller \<Rightarrow> ('d io_state, MouseError + u8) prog" where
  "Mouse_read_data hw c =
     bndE (map_err MouseError_from (Controller_read_data hw c)) (\<lambda>data. ret (Ok data))"

definition Mouse_write_command ::
    "'d io_hw \<Rightarrow> Controller \<Rightarrow> MouseCommand \<Rightarrow> u8 option \<Rightarrow> ('d io_state, MouseError + unit) prog" where
  "Mouse_write_command hw c command data =
     bndE (map_err MouseError_from
       (write_to_second_port_input_buffer hw c (MouseCommand_as_u8 command))) (\<lambda>_.
     bndE (Mouse_read_response hw c) (\<lambda>response.
     if response \<noteq> Acknowledged then ret (Err (MouseCommandNotAcknowledged response))
     else
       (case data of
          None \<Rightarrow> ret (Ok ())
        | Some data \<Rightarrow>
            bndE (map_err MouseError_from (write_to_second_port_input_buffer hw c data)) (\<lambda>_.
            bndE (Mouse_read_response hw c) (\<lambda>response.
            if response \<noteq> Acknowledged then ret (Err (MouseCommandNotAcknowledged response))
            else ret (Ok ()))))))"

definition enable_data_reporting :: "'d io_hw \<Rightarrow> Controller \<Rightarrow> ('d io_state, MouseError + unit) prog" where
  "enable_data_reporting hw c =
     bndE (Mouse_write_command hw c EnableDataReporting None) (\<lambda>_. ret (Ok ()))"

definition Mouse_reset_and_self_test ::
    "'d io_hw \<Rightarrow> Controller \<Rightarrow> ('d io_state, MouseError + u8) prog" where
  "Mouse_reset_and_self_test hw c =
     bndE (Mouse_write_command hw c MouseResetAndSelfTest None) (\<lambda>_.
     bndE (Mouse_read_response hw c) (\<lambda>test_result.
     case test_result of
       SelfTestPassed \<Rightarrow> bndE (Mouse_read_data hw c) (\<lambda>id. ret (Ok id))
     | SelfTestFailed1 \<Rightarrow> ret (Err MouseSelfTestFailed)
     | SelfTestFailed2 \<Rightarrow> ret (Err MouseSelfTestFailed)
     | _ \<Rightarrow> ret (Err MouseInvalidResponse)))"

section \<open>Response codes\<close>

lemma Response_from_as: "Response_from_u8 (Response_as_u8 r) = ret r"
  by (cases r) (simp_all add: Response_from_u8_def)

text \<open>
  \<open>Response::from_u8\<close> inverts \<open>as_u8\<close>: it returns \<open>r\<close> exactly on the code of \<open>r\<close>, and panics
  exactly on the bytes that are no response code (a scan code, for instance).
\<close>

theorem response_codes_roundtrip:
  "(Response_from_u8 code s = (Ret r, s) \<longleftrightarrow> code = Response_as_u8 r)
   \<and> (Response_from_u8 code s = (Panic, s) \<longleftrightarrow> code \<notin> range Response_as_u8)"
proof -
  have decoded: "Response_from_u8 code s = (Ret r, s) \<Longrightarrow> code = Response_as_u8 r" for r
    by (auto simp: Response_from_u8_def ret_def panic_def split: if_splits)
  have undecoded: "Response_from_u8 code s = (Panic, s) \<or> (\<exists>r. Response_from_u8 code s = (Ret r, s))"
    by (simp add: Response_from_u8_def ret_def panic_def)
  show ?thesis
    using decoded undecoded by (auto simp: Response_from_as ret_def)
qed

section \<open>What the drivers did\<close>

context distinct_ports
begin

lemma preserves_Response_from_u8: "preserves P (Response_from_u8 code)"
  by (simp add: Response_from_u8_def preserves_rules)

lemma preserves_second_port:
  "preserves (\<lambda>s. disciplined c (trace s)) (write_to_second_port_input_buffer hw c v)"
  by (simp add: write_to_second_port_input_buffer_def preserves_rules preserves_accesses)

lemma preserves_keyboard:
  "preserves (\<lambda>s. disciplined c (trace s)) (Keyboard_reset_and_self_test hw c)"
  by (simp add: Keyboard_reset_and_self_test_def Keyboard_write_command_def Keyboard_read_response_def
      preserves_rules preserves_accesses preserves_Response_from_u8 split: Response.split)

lemma preserves_mouse:
  "preserves (\<lambda>s. disciplined c (trace s)) (Mouse_reset_and_self_test hw c)"
  "preserves (\<lambda>s. disciplined c (trace s)) (enable_data_reporting hw c)"
  by (simp_all add: Mouse_reset_and_self_test_def enable_data_reporting_def Mouse_write_command_def
      Mouse_read_response_def Mouse_read_data_def preserves_rules preserves_accesses
      preserves_second_port preserves_Response_from_u8 split: Response.split)

lemma wlp_Response_from_u8:
  "(\<And>r. code = Response_as_u8 r \<Longrightarrow> Q r s) \<Longrightarrow> wlp (Response_from_u8 code) Q s"
  by (simp add: Response_from_u8_def wlp_rules)

lemmas wlp_accesses = wlp_read_data wlp_write_data wlp_write_command wlp_Response_from_u8

text \<open>
  When a device operation succeeds, exactly its bytes were exchanged (newest first): the keyboard
  reset sent \<open>0xFF\<close> and got \<open>0xFA\<close> and \<open>0xAA\<close>; the mouse commands are sent through \<open>0xD4\<close>.
\<close>

lemma keyboard_reset_exchange:
  "wlp (Keyboard_reset_and_self_test hw c) (\<lambda>r t. r = Ok () \<longrightarrow> visible c t =
     In (data_port c) 0xaa # In (data_port c) 0xfa # Out (data_port c) 0xff # visible c s) s"
  unfolding Keyboard_reset_and_self_test_def Keyboard_write_command_def Keyboard_read_response_def
  by (auto simp: wlp_rules intro!: wlp_accesses split: Response.split)

lemma mouse_reset_exchange:
  "wlp (Mouse_reset_and_self_test hw c) (\<lambda>r t. \<forall>id. r = Ok id \<longrightarrow> visible c t =
     In (data_port c) id # In (data_port c) 0xaa # In (data_port c) 0xfa # Out (data_port c) 0xff
       # Out (command_port c) 0xd4 # visible c s) s"
  unfolding Mouse_reset_and_self_test_def Mouse_write_command_def Mouse_read_response_def
    Mouse_read_data_def write_to_second_port_input_buffer_def
  by (auto simp: wlp_rules intro!: wlp_accesses split: Response.split)

lemma mouse_enable_exchange:
  "wlp (enable_data_reporting hw c) (\<lambda>r t. r = Ok () \<longrightarrow> visible c t =
     In (data_port c) 0xfa # Out (data_port c) 0xf4 # Out (command_port c) 0xd4 # visible c s) s"
  unfolding enable_data_reporting_def Mouse_write_command_def Mouse_read_response_def
    write_to_second_port_input_buffer_def
  by (auto simp: wlp_rules intro!: wlp_accesses)

end

section \<open>The devices on two machines\<close>

lemma sim_Response_from_u8 [sim_rules]: "sim R (Response_from_u8 v) (Response_from_u8 v)"
  by (simp add: Response_from_u8_def sim_ret sim_panic)

context same_ports
begin

lemma sim_responses:
  "sim (same_io R) (Keyboard_read_response hw c) (Keyboard_read_response hw' c)"
  "sim (same_io R) (Mouse_read_response hw c) (Mouse_read_response hw' c)"
  "sim (same_io R) (Keyboard_read_data hw c) (Keyboard_read_data hw' c)"
  "sim (same_io R) (Mouse_read_data hw c) (Mouse_read_data hw' c)"
  unfolding Keyboard_read_response_def Mouse_read_response_def Keyboard_read_data_def Mouse_read_data_def
  by (intro sim_controller sim_Response_from_u8)+

lemma sim_commands:
  "sim (same_io R) (Keyboard_write_command hw c kc a) (Keyboard_write_command hw' c kc a)"
  "sim (same_io R) (Mouse_write_command hw c mc a) (Mouse_write_command hw' c mc a)"
  unfolding Keyboard_write_command_def Mouse_write_command_def write_to_second_port_input_buffer_def
  by (intro sim_controller sim_responses)+

lemma sim_devices:
  "sim (same_io R) (Keyboard_reset_and_self_test hw c) (Keyboard_reset_and_self_test hw' c)"
  "sim (same_io R) (Mouse_reset_and_self_test hw c) (Mouse_reset_and_self_test hw' c)"
  "sim (same_io R) (enable_data_reporting hw c) (enable_data_reporting hw' c)"
  unfolding Keyboard_reset_and_self_test_def Mouse_reset_and_self_test_def enable_data_reporting_def
  by (intro sim_bndE sim_commands sim_responses sim_ret; simp add: sim_ret sim_bndE sim_responses split: Response.split)+

end

end
