(* ===== verification/Ps2_Init.thy ===== *)
theory Ps2_Init
  imports Ps2_Devices
begin

unbundle bit_operations_syntax

text \<open>
  Bringing up PS/2: \<open>kernel/src/ps2/mod.rs\<close>. \<open>ps2_init\<close> follows the numbered steps of the source; each
  \<open>expect\<close> and \<open>unwrap_or_else(panic)\<close> is an \<open>unwrap\<close>. The hardware is arbitrary. \<open>transcript\<close> is
  the specification: the accesses (status polls aside) of a run that returns, as a function of what
  the hardware answered.
\<close>

text \<open>Step 5: the configuration byte with IRQ, translation and clock-disable of port 1 cleared.\<close>

definition first_port_config :: "u8 \<Rightarrow> u8" where
  "first_port_config config_byte =
     set_first_port_clock False (set_first_port_translation False (set_first_port_interrupt False config_byte))"

text \<open>Step 7, when the second port exists.\<close>

definition second_port_config :: "u8 \<Rightarrow> u8" where
  "second_port_config config_byte = set_second_port_clock False (set_second_port_interrupt False config_byte)"

definition detect_second_port :: "'d io_hw \<Rightarrow> Controller \<Rightarrow> ('d io_state, bool) prog" where
  "detect_second_port hw controller =
     bnd (enable_second_port hw controller) (\<lambda>_.
     bnd (unwrap (read_config_byte hw controller)) (\<lambda>config_byte.
     if \<not> get_second_port_clock config_byte then
       bnd (kprintln hw ''second port is supported.'') (\<lambda>_.
       bnd (disable_second_port hw controller) (\<lambda>_.
       bnd (unwrap (write_config_byte hw controller (second_port_config config_byte))) (\<lambda>_.
       ret True)))
     else ret False))"

definition is_ok :: "('s, 'e + 'a) prog \<Rightarrow> ('s, bool) prog" where
  "is_ok m = bnd m (\<lambda>r. ret (case r of Inl _ \<Rightarrow> False | Inr _ \<Rightarrow> True))"

text \<open>Step 9: enabling what works, with the interrupts of the working ports.\<close>

definition enable_ports :: "'d io_hw \<Rightarrow> Controller \<Rightarrow> bool \<Rightarrow> bool \<Rightarrow> ('d io_state, unit) prog" where
  "enable_ports hw controller first_port_works second_port_works =
     bnd (unwrap (read_config_byte hw controller)) (\<lambda>config_byte.
     bnd (if first_port_works then
            bnd (enable_first_port hw controller) (\<lambda>_. ret (set_first_port_interrupt True config_byte))
          else ret config_byte) (\<lambda>config_byte.
     bnd (if second_port_works then
            bnd (enable_second_port hw controller) (\<lambda>_. ret (set_second_port_interrupt True config_byte))
          else ret config_byte) (\<lambda>config_byte.
     unwrap (write_config_byte hw controller config_byte))))"

definition ps2_init :: "'d io_hw \<Rightarrow> ('d io_state, unit) prog" where
  "ps2_init hw =
     (let controller = Controller_new in
      bnd (disable_first_port hw controller) (\<lambda>_.
      bnd (disable_second_port hw controller) (\<lambda>_.
      bnd (flush_data_port hw controller) (\<lambda>_.
      bnd (unwrap (read_config_byte hw controller)) (\<lambda>config_byte.
      let config_byte = first_port_config config_byte in
      bnd (unwrap (write_config_byte hw controller config_byte)) (\<lambda>_.
      bnd (unwrap (test_controller hw controller)) (\<lambda>_.
      bnd (unwrap (write_config_byte hw controller config_byte)) (\<lambda>_.
      bnd (detect_second_port hw controller) (\<lambda>has_second_port.
      bnd (is_ok (test_first_port hw controller)) (\<lambda>first_port_works.
      bnd (if has_second_port then is_ok (test_second_port hw controller) else ret False) (\<lambda>second_port_works.
      bnd (enable_ports hw controller first_port_works second_port_works) (\<lambda>_.
      bnd (unwrap (Keyboard_reset_and_self_test hw (Controller_keyboard controller))) (\<lambda>_.
      bnd (unwrap (Mouse_reset_and_self_test hw (Controller_mouse controller))) (\<lambda>_.
      if second_port_works then
        bnd (unwrap (enable_data_reporting hw (Controller_mouse controller))) (\<lambda>_. ret ())
      else ret ()))))))))))))))"

lemma config_bits:
  "first_port_config v = v AND 0xae" "second_port_config v = v AND 0xdd"
  "set_first_port_interrupt True v = v OR 1" "set_second_port_interrupt True v = v OR 2"
  "get_second_port_clock v = bit v 5"
proof -
  have masks: "(0xae :: u8) = - 82" "(0xdd :: u8) = - 35"
    by simp_all
  show "first_port_config v = v AND 0xae" "second_port_config v = v AND 0xdd"
    unfolding masks by (simp_all add: first_port_config_def second_port_config_def set_first_port_clock_def
      set_first_port_translation_def set_first_port_interrupt_def set_second_port_clock_def
      set_second_port_interrupt_def ControllerConfigByte_set_bit_def ac_simps)
qed (simp_all add: set_first_port_interrupt_def set_second_port_interrupt_def
      ControllerConfigByte_set_bit_def get_second_port_clock_def ControllerConfigByte_get_bit_iff)

section \<open>Discipline\<close>

context distinct_ports
begin

lemma preserves_klog: "preserves (\<lambda>s. disciplined c (trace s)) (kprintln hw msg)"
  by (auto intro!: preservesI simp: kprintln_def zoom_def split: prod.split)

lemmas preserves_steps = preserves_rules preserves_accesses preserves_flush preserves_klog
  preserves_keyboard preserves_mouse

lemma preserves_config_bytes:
  "preserves (\<lambda>s. disciplined c (trace s)) (read_config_byte hw c)"
  "preserves (\<lambda>s. disciplined c (trace s)) (write_config_byte hw c v)"
  "preserves (\<lambda>s. disciplined c (trace s)) (test_controller hw c)"
  "preserves (\<lambda>s. disciplined c (trace s)) (is_ok (test_first_port hw c))"
  "preserves (\<lambda>s. disciplined c (trace s)) (is_ok (test_second_port hw c))"
  by (simp_all add: read_config_byte_def write_config_byte_def test_controller_def is_ok_def
      test_first_port_def test_second_port_def preserves_steps)

lemma preserves_detect:
  "preserves (\<lambda>s. disciplined c (trace s)) (detect_second_port hw c)"
  "preserves (\<lambda>s. disciplined c (trace s)) (enable_ports hw c b1 b2)"
  by (simp_all add: detect_second_port_def enable_ports_def enable_first_port_def enable_second_port_def
      disable_second_port_def preserves_steps preserves_config_bytes)

end

text \<open>
  C21. Whatever the hardware answers, and however \<open>ps2::init\<close> ends (return or panic), it obeys the
  data-port protocol: started after a disciplined history, every read of port \<open>0x60\<close> it has made came
  right after a status byte with the output buffer full, and every write to port \<open>0x60\<close> right after
  a status byte with the input buffer empty.
\<close>

theorem ps2_init_data_port_discipline:
  assumes "disciplined Controller_new (trace s)"
  shows "disciplined Controller_new (trace (snd (ps2_init hw s)))"
proof -
  have "preserves (\<lambda>s. disciplined Controller_new (trace s)) (ps2_init hw)"
    by (simp add: ps2_init_def Let_def disable_first_port_def disable_second_port_def flush_data_port_def
        ctl.preserves_steps ctl.preserves_config_bytes ctl.preserves_detect)
  then show ?thesis using assms by (rule preservesD)
qed

section \<open>Transcript\<close>

text \<open>Answers of the interface tests: one byte, or none when the controller stays silent.\<close>

definition answered :: "u8 option \<Rightarrow> io_event list" where
  "answered a = (case a of None \<Rightarrow> [] | Some v \<Rightarrow> [In 0x60 v])"

lemma rev_answered [simp]: "rev (answered a) = answered a"
  by (simp add: answered_def split: option.split)

text \<open>
  The accesses of a run that returns, oldest first: \<open>junk\<close> was flushed, \<open>cfg1\<close>, \<open>cfg2\<close>, \<open>cfg3\<close> are
  the configuration bytes read in steps 5, 7 and 9, \<open>a1\<close> and \<open>a2\<close> the answers of the two interface
  tests, and \<open>ident\<close> the byte that identifies the mouse.
\<close>

definition transcript :: "u8 list \<Rightarrow> u8 \<Rightarrow> u8 \<Rightarrow> u8 option \<Rightarrow> u8 option \<Rightarrow> u8 \<Rightarrow> u8 \<Rightarrow> io_event list" where
  "transcript junk cfg1 cfg2 a1 a2 cfg3 ident =
     (let second = \<not> bit cfg2 5; ok1 = (a1 = Some 0); ok2 = (second \<and> a2 = Some 0);
          cfg4 = (if ok1 then cfg3 OR 1 else cfg3); cfg5 = (if ok2 then cfg4 OR 2 else cfg4) in
      [Out 0x64 0xad, Out 0x64 0xa7] @ map (In 0x60) junk
      @ [Out 0x64 0x20, In 0x60 cfg1,
         Out 0x64 0x60, Out 0x60 (cfg1 AND 0xae),
         Out 0x64 0xaa, In 0x60 0x55,
         Out 0x64 0x60, Out 0x60 (cfg1 AND 0xae),
         Out 0x64 0xa8, Out 0x64 0x20, In 0x60 cfg2]
      @ (if second then [Out 0x64 0xa7, Out 0x64 0x60, Out 0x60 (cfg2 AND 0xdd)] else [])
      @ Out 0x64 0xab # answered a1
      @ (if second then Out 0x64 0xa9 # answered a2 else [])
      @ [Out 0x64 0x20, In 0x60 cfg3]
      @ (if ok1 then [Out 0x64 0xae] else []) @ (if ok2 then [Out 0x64 0xa8] else [])
      @ [Out 0x64 0x60, Out 0x60 cfg5]
      @ [Out 0x60 0xff, In 0x60 0xfa, In 0x60 0xaa]
      @ [Out 0x64 0xd4, Out 0x60 0xff, In 0x60 0xfa, In 0x60 0xaa, In 0x60 ident]
      @ (if ok2 then [Out 0x64 0xd4, Out 0x60 0xf4, In 0x60 0xfa] else []))"

context distinct_ports
begin

lemma read_config_exchange:
  assumes "read_config_byte hw c s = (Ret (Ok v), t)"
  shows "visible c t = In (data_port c) v # Out (command_port c) 0x20 # visible c s"
proof -
  have "wlp (read_config_byte hw c) (\<lambda>r t. \<forall>v. r = Ok v \<longrightarrow>
      visible c t = In (data_port c) v # Out (command_port c) 0x20 # visible c s) s"
    unfolding read_config_byte_def by (auto simp: wlp_rules intro!: wlp_accesses)
  from wlpD [OF this assms] show ?thesis by simp
qed

lemma write_config_exchange:
  assumes "write_config_byte hw c v s = (Ret (Ok r), t)"
  shows "visible c t = Out (data_port c) v # Out (command_port c) 0x60 # visible c s"
proof -
  have "wlp (write_config_byte hw c v) (\<lambda>r t. r = Ok () \<longrightarrow>
      visible c t = Out (data_port c) v # Out (command_port c) 0x60 # visible c s) s"
    unfolding write_config_byte_def by (auto simp: wlp_rules intro!: wlp_accesses)
  from wlpD [OF this assms] show ?thesis by simp
qed

lemma test_controller_exchange:
  assumes "test_controller hw c s = (Ret (Ok r), t)"
  shows "visible c t = In (data_port c) 0x55 # Out (command_port c) 0xaa # visible c s"
proof -
  have "wlp (test_controller hw c) (\<lambda>r t. r = Ok () \<longrightarrow>
      visible c t = In (data_port c) 0x55 # Out (command_port c) 0xaa # visible c s) s"
    unfolding test_controller_def by (auto simp: wlp_rules intro!: wlp_accesses)
  from wlpD [OF this assms] show ?thesis by simp
qed

lemma test_port_exchange:
  assumes "is_ok (bnd (Controller_write_command hw c command) (\<lambda>_.
      bndE (Controller_read_data hw c) (\<lambda>response.
      if response = 0x00 then ret (Ok ()) else ret (Err TestFailed)))) s = (Ret ok, t)"
  obtains a where "ok \<longleftrightarrow> a = Some 0"
    "visible c t = (case a of None \<Rightarrow> [] | Some v \<Rightarrow> [In (data_port c) v])
      @ Out (command_port c) (ControllerCommand_as_u8 command) # visible c s"
proof -
  let ?read = "bndE (Controller_read_data hw c) (\<lambda>response.
      if response = 0x00 then ret (Ok ()) else ret (Err TestFailed))"
  let ?post = "\<lambda>ok t. \<exists>a. (ok \<longleftrightarrow> a = Some 0) \<and>
      visible c t = (case a of None \<Rightarrow> [] | Some v \<Rightarrow> [In (data_port c) v])
        @ Out (command_port c) (ControllerCommand_as_u8 command) # visible c s"
  have "wlp (is_ok ?read) ?post u"
    if "visible c u = Out (command_port c) (ControllerCommand_as_u8 command) # visible c s" for u
    unfolding is_ok_def wlp_bnd wlp_bndE
  proof (rule wlp_read_data)
    fix v t assume "visible c t = In (data_port c) v # visible c u"
    then have "?post (v = 0) t" by (intro exI [of _ "Some v"]) (simp add: that)
    then show "(case Ok v of Inl e \<Rightarrow> wlp (ret (case Inl e of Inl _ \<Rightarrow> False | Inr _ \<Rightarrow> True)) ?post
        | Inr x \<Rightarrow> wlp (if x = 0 then ret (Ok ()) else ret (Err TestFailed))
            (\<lambda>x. wlp (ret (case x of Inl _ \<Rightarrow> False | Inr _ \<Rightarrow> True)) ?post)) t"
      by (cases "v = 0") (simp_all add: wlp_ret)
  next
    fix t assume "visible c t = visible c u"
    then have "?post False t" by (intro exI [of _ None]) (simp add: that)
    then show "(case Err Timeout of Inl e \<Rightarrow> wlp (ret (case Inl e of Inl _ \<Rightarrow> False | Inr _ \<Rightarrow> True)) ?post
        | Inr x \<Rightarrow> wlp (if x = 0 then ret (Ok ()) else ret (Err TestFailed))
            (\<lambda>x. wlp (ret (case x of Inl _ \<Rightarrow> False | Inr _ \<Rightarrow> True)) ?post)) t"
      by (simp add: wlp_ret)
  qed
  then have "wlp (is_ok (bnd (Controller_write_command hw c command) (\<lambda>_. ?read))) ?post s"
    by (simp add: is_ok_def wlp_bnd) (rule wlp_write_command, simp)
  from wlpD [OF this assms] show ?thesis using that by blast
qed

lemma command_exchange:
  "Controller_write_command hw c command s = (Ret r, t) \<Longrightarrow>
    visible c t = Out (command_port c) (ControllerCommand_as_u8 command) # visible c s"
  by (auto simp: Controller_write_command_def port_write_def visible_def)

lemma klog_exchange: "kprintln hw msg s = (Ret r, t) \<Longrightarrow> visible c t = visible c s"
  by (auto simp: kprintln_def zoom_def visible_def split: prod.splits)

lemma flush_exchange:
  "wlp (flush_loop hw c n) (\<lambda>_ t. \<exists>junk. visible c t = map (In (data_port c)) junk @ visible c s) s"
proof (induction n arbitrary: s)
  case 0
  have "visible c (s\<lparr>dev := d, trace := In (status_port c) v # trace s\<rparr>) = visible c s" for d v
    by (simp add: visible_def)
  then show ?case
    by (auto simp: wlp_rules read_status_eq port_read_def wlp_def split: prod.split
        intro: exI [of _ "[]"])
next
  case (Suc n)
  have more: "wlp (flush_loop hw c n) (\<lambda>_ t. \<exists>junk. visible c t = map (In (data_port c)) junk @ visible c s) u"
    if "visible c u = map (In (data_port c)) vs @ visible c s" for u vs
    by (rule wlp_mono [OF Suc.IH]) (metis append.assoc map_append that)
  have "wlp (Controller_read_data hw c) (\<lambda>_. wlp (flush_loop hw c n)
      (\<lambda>_ t. \<exists>junk. visible c t = map (In (data_port c)) junk @ visible c s)) u"
    if u: "visible c u = visible c s" for u
    using more [of _ "[_]"] more [of _ "[]"] u by (intro wlp_read_data) auto
  moreover have "visible c (s\<lparr>dev := d, trace := In (status_port c) v # trace s\<rparr>) = visible c s" for d v
    by (simp add: visible_def)
  ultimately show ?case
    by (auto simp: wlp_bnd wlp_if wlp_ret read_status_eq wlp_def [of "port_read _ _"] port_read_def
        split: prod.split intro: exI [of _ "[]"])
qed

lemma flush_data_port_exchange:
  assumes "flush_data_port hw c s = (Ret r, t)"
  obtains junk where "visible c t = map (In (data_port c)) junk @ visible c s"
  using wlpD [OF flush_exchange, of hw "loop_timeout c" s r t] assms that
  by (auto simp: flush_data_port_def)

lemma Keyboard_reset_exchange:
  "Keyboard_reset_and_self_test hw c s = (Ret (Ok r), t) \<Longrightarrow> visible c t =
     In (data_port c) 0xaa # In (data_port c) 0xfa # Out (data_port c) 0xff # visible c s"
  using wlpD [OF keyboard_reset_exchange, of hw s "Ok r" t] by simp

lemma Mouse_reset_exchange:
  "Mouse_reset_and_self_test hw c s = (Ret (Ok ident), t) \<Longrightarrow> visible c t =
     In (data_port c) ident # In (data_port c) 0xaa # In (data_port c) 0xfa # Out (data_port c) 0xff
       # Out (command_port c) 0xd4 # visible c s"
  using wlpD [OF mouse_reset_exchange, of hw s "Ok ident" t] by simp

lemma Mouse_enable_exchange:
  "enable_data_reporting hw c s = (Ret (Ok r), t) \<Longrightarrow> visible c t =
     In (data_port c) 0xfa # Out (data_port c) 0xf4 # Out (command_port c) 0xd4 # visible c s"
  using wlpD [OF mouse_enable_exchange, of hw s "Ok r" t] by simp

lemmas exchanges = read_config_exchange write_config_exchange test_controller_exchange command_exchange
  klog_exchange Keyboard_reset_exchange Mouse_reset_exchange Mouse_enable_exchange

lemma first_port_test_exchange:
  assumes "is_ok (test_first_port hw c) s = (Ret ok, t)"
  obtains a where "ok \<longleftrightarrow> a = Some 0"
    "visible c t = (case a of None \<Rightarrow> [] | Some v \<Rightarrow> [In (data_port c) v])
      @ Out (command_port c) 0xab # visible c s"
  using test_port_exchange [OF assms [unfolded test_first_port_def]] by (metis ControllerCommand_as_u8.simps(7))

lemma second_port_test_exchange:
  assumes "(if has then is_ok (test_second_port hw c) else ret False) s = (Ret ok, t)"
  obtains a where "ok \<longleftrightarrow> has \<and> a = Some 0"
    "visible c t = (if has then (case a of None \<Rightarrow> [] | Some v \<Rightarrow> [In (data_port c) v])
      @ [Out (command_port c) 0xa9] else []) @ visible c s"
proof (cases has)
  case True
  with assms have "is_ok (test_second_port hw c) s = (Ret ok, t)" by simp
  from test_port_exchange [OF this [unfolded test_second_port_def]] True that show ?thesis by auto
next
  case False
  with assms have "\<not> ok" "t = s" by (simp_all add: ret_def)
  with False that show ?thesis by auto
qed

lemma detect_exchange:
  assumes "detect_second_port hw c s = (Ret has, t)"
  obtains cfg where "has \<longleftrightarrow> \<not> bit cfg 5"
    "visible c t = (if has then [Out (data_port c) (cfg AND 0xdd), Out (command_port c) 0x60,
        Out (command_port c) 0xa7] else [])
      @ [In (data_port c) cfg, Out (command_port c) 0x20, Out (command_port c) 0xa8] @ visible c s"
  using assms that
  by (auto simp: detect_second_port_def returned_iffs enable_second_port_def disable_second_port_def
      config_bits dest!: exchanges split: if_splits)

lemma enable_exchange:
  assumes "enable_ports hw c ok1 ok2 s = (Ret r, t)"
  obtains cfg where "visible c t =
      [Out (data_port c) ((cfg OR (if ok1 then 1 else 0)) OR (if ok2 then 2 else 0)), Out (command_port c) 0x60]
      @ (if ok2 then [Out (command_port c) 0xa8] else [])
      @ (if ok1 then [Out (command_port c) 0xae] else [])
      @ [In (data_port c) cfg, Out (command_port c) 0x20] @ visible c s"
  using assms that
  by (auto simp: enable_ports_def returned_iffs enable_second_port_def enable_first_port_def
      config_bits dest!: exchanges split: if_splits)

end

text \<open>
  C14. The whole of \<open>ps2::init\<close>, on any hardware: when it returns (rather than panics), the accesses it
  made to the controller, status polls aside, are exactly \<open>transcript\<close> of what the hardware answered.
  In particular the self test answered \<open>0x55\<close>, the configuration written in step 5 clears the port 1
  interrupt, translation and clock-disable bits of the byte read and is restored after the self test,
  a port is enabled exactly when its interface test answered \<open>0x00\<close>, together with its interrupt
  bit, the keyboard and the mouse both acknowledged their reset with \<open>0xFA\<close> and passed with
  \<open>0xAA\<close>, and data reporting is enabled exactly when the second port works.
\<close>

theorem ps2_init_transcript:
  assumes "ps2_init hw s = (Ret (), t)"
  shows "\<exists>junk cfg1 cfg2 a1 a2 cfg3 ident. rev (visible Controller_new t) =
    rev (visible Controller_new s) @ transcript junk cfg1 cfg2 a1 a2 cfg3 ident"
proof -
  let ?c = Controller_new
  let ?v = "visible ?c"
  have ports: "data_port ?c = 0x60" "command_port ?c = 0x64"
    by (simp_all add: Controller_new_def)
  from assms obtain s1 s2 s3 s4 s5 s6 s7 s8 s9 s10 s11 s12 s13 cfg1 has ok1 ok2 ident where run:
    "disable_first_port hw ?c s = (Ret (), s1)" "disable_second_port hw ?c s1 = (Ret (), s2)"
    "read_config_byte hw ?c s3 = (Ret (Ok cfg1), s4)"
    "write_config_byte hw ?c (first_port_config cfg1) s4 = (Ret (Ok ()), s5)"
    "test_controller hw ?c s5 = (Ret (Ok ()), s6)"
    "write_config_byte hw ?c (first_port_config cfg1) s6 = (Ret (Ok ()), s7)"
    "Keyboard_reset_and_self_test hw ?c s11 = (Ret (Ok ()), s12)"
    "Mouse_reset_and_self_test hw ?c s12 = (Ret (Ok ident), s13)"
    and flush: "flush_data_port hw ?c s2 = (Ret (), s3)"
    and detect: "detect_second_port hw ?c s7 = (Ret has, s8)"
    and tests: "is_ok (test_first_port hw ?c) s8 = (Ret ok1, s9)"
      "(if has then is_ok (test_second_port hw ?c) else ret False) s9 = (Ret ok2, s10)"
    and enable: "enable_ports hw ?c ok1 ok2 s10 = (Ret (), s11)"
    and reporting: "(if ok2 then bnd (unwrap (enable_data_reporting hw ?c)) (\<lambda>_. ret ()) else ret ()) s13 = (Ret (), t)"
    unfolding ps2_init_def device_views by (auto simp: Let_def returned_iffs)
  note ran = run(1,2) [unfolded disable_first_port_def disable_second_port_def, THEN ctl.command_exchange]
    run(3) [THEN ctl.read_config_exchange] run(4,6) [THEN ctl.write_config_exchange]
    run(5) [THEN ctl.test_controller_exchange] run(7) [THEN ctl.Keyboard_reset_exchange]
    run(8) [THEN ctl.Mouse_reset_exchange]
  obtain junk where junk: "?v s3 = map (In 0x60) junk @ ?v s2"
    using ctl.flush_data_port_exchange [OF flush] ports by metis
  have last: "?v t = (if ok2 then [In 0x60 0xfa, Out 0x60 0xf4, Out 0x64 0xd4] else []) @ ?v s13"
    using reporting by (auto simp: returned_iffs ports dest!: ctl.Mouse_enable_exchange split: if_splits)
  obtain cfg2 where cfg2: "has \<longleftrightarrow> \<not> bit cfg2 5" "?v s8 = (if has then [Out 0x60 (cfg2 AND 0xdd),
      Out 0x64 0x60, Out 0x64 0xa7] else []) @ [In 0x60 cfg2, Out 0x64 0x20, Out 0x64 0xa8] @ ?v s7"
    using ctl.detect_exchange [OF detect] unfolding ports .
  obtain a1 where a1: "ok1 \<longleftrightarrow> a1 = Some 0" "?v s9 = answered a1 @ Out 0x64 0xab # ?v s8"
    using ctl.first_port_test_exchange [OF tests(1)] unfolding ports answered_def .
  obtain a2 where a2: "ok2 \<longleftrightarrow> has \<and> a2 = Some 0"
    "?v s10 = (if has then answered a2 @ [Out 0x64 0xa9] else []) @ ?v s9"
    using ctl.second_port_test_exchange [OF tests(2)] unfolding ports answered_def .
  obtain cfg3 where cfg3: "?v s11 = [Out 0x60 ((cfg3 OR (if ok1 then 1 else 0)) OR (if ok2 then 2 else 0)),
      Out 0x64 0x60] @ (if ok2 then [Out 0x64 0xa8] else []) @ (if ok1 then [Out 0x64 0xae] else [])
      @ [In 0x60 cfg3, Out 0x64 0x20] @ ?v s10"
    using ctl.enable_exchange [OF enable] unfolding ports .
  have "rev (?v t) = rev (?v s) @ transcript (rev junk) cfg1 cfg2 a1 a2 cfg3 ident"
    unfolding last ran cfg3 a2(2) a1(2) cfg2(2) junk
    by (simp add: ports config_bits transcript_def Let_def rev_map cfg2(1) a1(1) a2(1))
  then show ?thesis by blast
qed

section \<open>Bringing up on two machines\<close>

lemma sim_is_ok [sim_rules]: "sim R m m' \<Longrightarrow> sim R (is_ok m) (is_ok m')"
  unfolding is_ok_def by (intro sim_rules)

lemma plain_second_port: "plain ''second port is supported.''"
  by code_simp

context same_ports
begin

lemma sim_tests:
  "sim (same_io R) (read_config_byte hw c) (read_config_byte hw' c)"
  "sim (same_io R) (write_config_byte hw c v) (write_config_byte hw' c v)"
  "sim (same_io R) (test_controller hw c) (test_controller hw' c)"
  "sim (same_io R) (test_first_port hw c) (test_first_port hw' c)"
  "sim (same_io R) (test_second_port hw c) (test_second_port hw' c)"
  unfolding read_config_byte_def write_config_byte_def test_controller_def test_first_port_def test_second_port_def
  by (intro sim_controller)+

lemma sim_port_control:
  "sim (same_io R) (disable_first_port hw c) (disable_first_port hw' c)"
  "sim (same_io R) (disable_second_port hw c) (disable_second_port hw' c)"
  "sim (same_io R) (enable_first_port hw c) (enable_first_port hw' c)"
  "sim (same_io R) (enable_second_port hw c) (enable_second_port hw' c)"
  unfolding disable_first_port_def disable_second_port_def enable_first_port_def enable_second_port_def
  by (rule sim_write_command)+

lemma sim_detect: "sim (same_io R) (detect_second_port hw c) (detect_second_port hw' c)"
  unfolding detect_second_port_def
  by (intro sim_rules sim_tests sim_port_control sim_kprintln plain_second_port)

lemma sim_enable: "sim (same_io R) (enable_ports hw c b1 b2) (enable_ports hw' c b1 b2)"
  unfolding enable_ports_def by (intro sim_rules sim_tests sim_port_control)

lemma sim_ps2_init: "sim (same_io R) (ps2_init hw) (ps2_init hw')"
  unfolding ps2_init_def Let_def
  by (intro sim_rules sim_tests sim_port_control sim_detect sim_enable sim_devices sim_flush)

end

section \<open>A controller that works\<close>

text \<open>
  A machine that answers: the state is the queue of the output buffer and, for every coming write, the
  bytes the controller puts into that queue. It makes \<open>ps2_init\<close> return, with both ports working.
\<close>

definition scripted_hw :: "(u8 list \<times> u8 list list) io_hw" where
  "scripted_hw = \<lparr>
     inb = (\<lambda>p (queue, script). if p = 0x64 then (if queue = [] then 0 else 1, (queue, script))
       else (case queue of [] \<Rightarrow> (0, ([], script)) | v # vs \<Rightarrow> (v, (vs, script)))),
     outb = (\<lambda>p v (queue, script). case script of [] \<Rightarrow> (queue, []) | vs # script \<Rightarrow> (queue @ vs, script)),
     klog = (\<lambda>msg d. (Ret (), d))\<rparr>"

definition working_ports :: "(u8 list \<times> u8 list list) io_state" where
  "working_ports = \<lparr>dev = ([], [[], [], [0x47], [], [], [0x55], [], [], [], [0x07], [], [], [],
     [0x00], [0x00], [0x04], [], [], [], [], [0xfa, 0xaa], [], [0xfa, 0xaa, 0x00], [], [0xfa]]), trace = []\<rparr>"

lemma working_ports_return: "fst (ps2_init scripted_hw working_ports) = Ret ()"
  by code_simp

theorem ps2_init_data_port_discipline_witness:
  "disciplined Controller_new (trace working_ports)
   \<and> disciplined Controller_new (trace (snd (ps2_init scripted_hw working_ports)))"
  using ps2_init_data_port_discipline [of working_ports scripted_hw] by (simp add: working_ports_def)

theorem ps2_init_transcript_witness:
  "\<exists>t. ps2_init scripted_hw working_ports = (Ret (), t) \<and>
     (\<exists>junk cfg1 cfg2 a1 a2 cfg3 ident.
       rev (visible Controller_new t) = transcript junk cfg1 cfg2 a1 a2 cfg3 ident)"
proof -
  obtain t where t: "ps2_init scripted_hw working_ports = (Ret (), t)"
    using working_ports_return by (metis prod.collapse)
  have "visible Controller_new working_ports = []" by (simp add: visible_def working_ports_def)
  with ps2_init_transcript [OF t] t show ?thesis by simp
qed

definition single_channel :: "(u8 list \<times> u8 list list) io_state" where
  "single_channel = \<lparr>dev = ([], [[], [], [0x67], [], [], [0x55], [], [], [], [0x26],
     [0x00], [0x26], [], [], [], [0xfa, 0xaa], [], [0xfe]]), trace = []\<rparr>"

text \<open>
  A machine with a single PS/2 channel does not boot: with a working controller and keyboard, the
  second channel absent (its clock bit stays set after \<open>0xA8\<close>) and the controller answering
  \<open>0xFE\<close> (resend) to a byte for it, \<open>ps2::init\<close> panics after the keyboard has passed its test, because
  step 10 resets the mouse whether or not the second port works.
\<close>

theorem single_channel_panics:
  "fst (ps2_init scripted_hw single_channel) = Panic
   \<and> In 0x60 0xaa \<in> set (trace (snd (ps2_init scripted_hw single_channel)))"
  by code_simp

end
