(* ===== verification/Kernel_Error.thy ===== *)
theory Kernel_Error
  imports Prelude
begin

text \<open>
  The error values of the kernel: \<open>kernel/src/error.rs\<close> and the three error enums it wraps, from
  \<open>pci/error.rs\<close>, \<open>graphic/frame_buffer.rs\<close> and \<open>graphic/console.rs\<close>. The \<open>From\<close> conversions
  are the constructors of \<open>Error\<close>. The texts are those of the derived \<open>Debug\<close> (the name of the variant), of
  \<open>thiserror\<close>'s \<open>Display\<close> and of \<open>{:#?}\<close>, which \<open>main\<close> prints.
\<close>

datatype PciError =
    DeviceCapacityError
  | PciUninitializedError
  | DeviceLockError
  | BaseAddressRegisterIndexOutOfRangeError

datatype FrameBufferError =
    UnsupportedPixelFormatError
  | NotInitializedError
  | OutsideBufferError
  | FrameBufferLockError
  | UnsupportedCharacterError

datatype ConsoleError =
    ConsoleUninitializedError
  | ConsoleLockError
  | LineLengthOverflow

datatype Error =
    FrameBufferError FrameBufferError
  | ConsoleError ConsoleError
  | PciError PciError

section \<open>Texts\<close>

fun PciError_debug :: "PciError \<Rightarrow> string" where
  "PciError_debug DeviceCapacityError = ''DeviceCapacityError''"
| "PciError_debug PciUninitializedError = ''UninitializedError''"
| "PciError_debug DeviceLockError = ''DeviceLockError''"
| "PciError_debug BaseAddressRegisterIndexOutOfRangeError = ''BaseAddressRegisterIndexOutOfRangeError''"

fun FrameBufferError_debug :: "FrameBufferError \<Rightarrow> string" where
  "FrameBufferError_debug UnsupportedPixelFormatError = ''UnsupportedPixelFormatError''"
| "FrameBufferError_debug NotInitializedError = ''NotInitializedError''"
| "FrameBufferError_debug OutsideBufferError = ''OutsideBufferError''"
| "FrameBufferError_debug FrameBufferLockError = ''FrameBufferLockError''"
| "FrameBufferError_debug UnsupportedCharacterError = ''UnsupportedCharacterError''"

fun ConsoleError_debug :: "ConsoleError \<Rightarrow> string" where
  "ConsoleError_debug ConsoleUninitializedError = ''UninitializedError''"
| "ConsoleError_debug ConsoleLockError = ''ConsoleLockError''"
| "ConsoleError_debug LineLengthOverflow = ''LineLengthOverflow''"

fun FrameBufferError_display :: "FrameBufferError \<Rightarrow> string" where
  "FrameBufferError_display UnsupportedPixelFormatError = ''Unsupported pixel format.''"
| "FrameBufferError_display NotInitializedError = ''The frame buffer is not initialized yet.''"
| "FrameBufferError_display OutsideBufferError = ''Attempted to write a pixel to outside of frame buffer.''"
| "FrameBufferError_display FrameBufferLockError = ''Failed to lock the frame buffer.''"
| "FrameBufferError_display UnsupportedCharacterError = ''Unsupported character.''"

fun ConsoleError_display :: "ConsoleError \<Rightarrow> string" where
  "ConsoleError_display ConsoleUninitializedError = ''The console is not initialized yet.''"
| "ConsoleError_display ConsoleLockError = ''Failed to lock the console.''"
| "ConsoleError_display LineLengthOverflow = ''The number of characters in the line overflowed the capacity.''"

text \<open>
  \<open>{:#?}\<close> on a variant with one field, piece by piece as \<open>core::fmt\<close> hands it to \<open>write_str\<close>: the field stands on a line of
  its own, indented by four spaces.
\<close>

definition pretty_tuple :: "string \<Rightarrow> string \<Rightarrow> string list" where
  "pretty_tuple name field = [name, ''('' @ [CHR 0x0A], ''    '', field, '','' @ [CHR 0x0A], '')'']"

fun Error_debug :: "Error \<Rightarrow> string list" where
  "Error_debug (FrameBufferError e) = pretty_tuple ''FrameBufferError'' (FrameBufferError_debug e)"
| "Error_debug (ConsoleError e) = pretty_tuple ''ConsoleError'' (ConsoleError_debug e)"
| "Error_debug (PciError e) = pretty_tuple ''PciError'' (PciError_debug e)"

end
