(* ===== verification/Array_Vec.thy ===== *)
theory Array_Vec
  imports Port_Io
begin

text \<open>
  Fixed-capacity vectors: \<open>common/src/arrayvec.rs\<close>, and the contract \<open>bounded_vec\<close> of a vector that a
  client only pushes onto. The kernel's device list uses the \<open>arrayvec\<close> crate, which is outside
  the repository; its clients are verified against the contract, and the repository's own
  \<open>ArrayVec\<close>, with the failing push turned into a panic, is shown to meet it.
\<close>

section \<open>The vector of the common crate\<close>

datatype CapacityError = CapacityError

record 'a ArrayVec =
  vec_array :: "'a option list"
  vec_index :: usize

definition ArrayVec_new :: "nat \<Rightarrow> 'a ArrayVec" where
  "ArrayVec_new CAP = \<lparr>vec_array = replicate CAP None, vec_index = 0\<rparr>"

text \<open>\<open>iter_mut().find(|e| e.is_none())\<close>: the position of the first empty slot.\<close>

fun find_none :: "'a option list \<Rightarrow> nat option" where
  "find_none [] = None"
| "find_none (None # es) = Some 0"
| "find_none (Some _ # es) = map_option Suc (find_none es)"

definition ArrayVec_push :: "'a \<Rightarrow> ('a ArrayVec, CapacityError + unit) prog" where
  "ArrayVec_push new_element self = (case find_none (vec_array self) of
      None \<Rightarrow> (Ret (Err CapacityError), self)
    | Some i \<Rightarrow> (Ret (Ok ()), self\<lparr>vec_array := (vec_array self)[i := Some new_element]\<rparr>))"

text \<open>\<open>Iterator::next\<close>; the indexing panics when \<open>index\<close> is not below the capacity.\<close>

definition ArrayVec_next :: "('a ArrayVec, 'a option) prog" where
  "ArrayVec_next = bnd get (\<lambda>self.
     if vec_index self < length (vec_array self) then
       (case vec_array self ! vec_index self of
          Some current \<Rightarrow> bnd (usize_add (vec_index self) 1) (\<lambda>i.
            bnd (update (\<lambda>v. v\<lparr>vec_index := i\<rparr>)) (\<lambda>_. ret (Some current)))
        | None \<Rightarrow> ret None)
     else panic)"

text \<open>A \<open>for\<close> loop over the vector, which calls \<open>next\<close> until it answers \<open>None\<close>; at most \<open>n\<close> times.\<close>

fun collect :: "nat \<Rightarrow> ('a ArrayVec, 'a list) prog" where
  "collect 0 = diverge"
| "collect (Suc n) = bnd ArrayVec_next (\<lambda>x. case x of
      None \<Rightarrow> ret []
    | Some y \<Rightarrow> bnd (collect n) (\<lambda>ys. ret (y # ys)))"

section \<open>Contents\<close>

definition holds :: "nat \<Rightarrow> 'a list \<Rightarrow> 'a ArrayVec \<Rightarrow> bool" where
  "holds CAP xs v \<longleftrightarrow> length xs \<le> CAP \<and> vec_array v = map Some xs @ replicate (CAP - length xs) None"

definition ArrayVec_items :: "'a ArrayVec \<Rightarrow> 'a list" where
  "ArrayVec_items v = map the (takeWhile (\<lambda>e. e \<noteq> None) (vec_array v))"

definition ArrayVec_wf :: "nat \<Rightarrow> 'a ArrayVec \<Rightarrow> bool" where
  "ArrayVec_wf CAP v \<longleftrightarrow> holds CAP (ArrayVec_items v) v"

lemma takeWhile_pushed: "takeWhile (\<lambda>e. e \<noteq> None) (map Some xs @ replicate n None) = map Some xs"
  by (induction xs) (cases n, simp_all)

lemma holds_items: "holds CAP xs v \<Longrightarrow> ArrayVec_items v = xs"
  unfolding holds_def ArrayVec_items_def by (simp only: takeWhile_pushed) (simp add: comp_def)

lemma holds_new: "holds CAP [] (ArrayVec_new CAP)"
  by (simp add: holds_def ArrayVec_new_def)

lemma find_none_pushed:
  "find_none (map Some xs @ replicate n None) = (if n = 0 then None else Some (length xs))"
  by (induction xs) (cases n, simp_all)

lemma push_holds:
  assumes "holds CAP xs v" and "length xs < CAP"
  shows "\<exists>w. ArrayVec_push x v = (Ret (Ok ()), w) \<and> holds CAP (xs @ [x]) w \<and> vec_index w = vec_index v"
proof -
  obtain n where n: "CAP - length xs = Suc n" using assms(2) by (cases "CAP - length xs") simp_all
  then have "CAP - Suc (length xs) = n" by simp
  with assms n find_none_pushed [of xs "Suc n"] show ?thesis
    by (simp add: ArrayVec_push_def holds_def list_update_append)
qed

lemma push_full: "holds CAP xs v \<Longrightarrow> length xs = CAP \<Longrightarrow> ArrayVec_push x v = (Ret (Err CapacityError), v)"
  by (simp add: ArrayVec_push_def holds_def find_none_pushed [of xs 0, simplified])

section \<open>The contract of a push-only vector\<close>

locale bounded_vec =
  fixes push :: "'a \<Rightarrow> ('v, unit) prog"
    and items :: "'v \<Rightarrow> 'a list"
    and vec_ok :: "'v \<Rightarrow> bool"
    and cap :: nat
  assumes items_cap: "vec_ok v \<Longrightarrow> length (items v) \<le> cap"
    and push_room: "vec_ok v \<Longrightarrow> length (items v) < cap \<Longrightarrow>
      \<exists>w. push x v = (Ret (), w) \<and> vec_ok w \<and> items w = items v @ [x]"
    and push_no_room: "vec_ok v \<Longrightarrow> length (items v) = cap \<Longrightarrow> \<exists>w. push x v = (Panic, w)"
begin

lemma push_cases:
  assumes "vec_ok v"
  obtains (room) w where "length (items v) < cap" "push x v = (Ret (), w)" "vec_ok w" "items w = items v @ [x]"
    | (full) w where "length (items v) = cap" "push x v = (Panic, w)"
  using items_cap [OF assms] push_room [OF assms] push_no_room [OF assms] by (metis le_neq_implies_less)

end

lemma ArrayVec_bounded: "bounded_vec (\<lambda>x. unwrap (ArrayVec_push x)) ArrayVec_items (ArrayVec_wf CAP) CAP"
proof
  show "ArrayVec_wf CAP v \<Longrightarrow> length (ArrayVec_items v) \<le> CAP" for v :: "'a ArrayVec"
    by (simp add: ArrayVec_wf_def holds_def)
next
  fix v :: "'a ArrayVec" and x
  assume "ArrayVec_wf CAP v" "length (ArrayVec_items v) < CAP"
  then obtain w where "ArrayVec_push x v = (Ret (Ok ()), w)" "holds CAP (ArrayVec_items v @ [x]) w"
    using push_holds [of CAP "ArrayVec_items v" v x] by (auto simp: ArrayVec_wf_def)
  then show "\<exists>w. unwrap (ArrayVec_push x) v = (Ret (), w) \<and> ArrayVec_wf CAP w \<and>
      ArrayVec_items w = ArrayVec_items v @ [x]"
    by (simp add: unwrap_Ret_iff ArrayVec_wf_def holds_items)
next
  fix v :: "'a ArrayVec" and x
  assume "ArrayVec_wf CAP v" "length (ArrayVec_items v) = CAP"
  then have "ArrayVec_push x v = (Ret (Err CapacityError), v)"
    by (simp add: ArrayVec_wf_def push_full)
  then show "\<exists>w. unwrap (ArrayVec_push x) v = (Panic, w)"
    by (simp add: unwrap_def bnd_def panic_def)
qed

interpretation av: bounded_vec "\<lambda>x. unwrap (ArrayVec_push x)" ArrayVec_items "ArrayVec_wf CAP" CAP for CAP
  by (rule ArrayVec_bounded)

section \<open>Pushing and iterating\<close>

definition push_all :: "'a list \<Rightarrow> ('a ArrayVec, CapacityError + unit) prog" where
  "push_all xs = for_eachE xs ArrayVec_push"

lemma push_all_holds:
  "holds CAP ys v \<Longrightarrow> length ys + length xs \<le> CAP \<Longrightarrow>
    \<exists>w. push_all xs v = (Ret (Ok ()), w) \<and> holds CAP (ys @ xs) w \<and> vec_index w = vec_index v"
proof (induction xs arbitrary: v ys)
  case Nil
  then show ?case by (simp add: push_all_def ret_def)
next
  case (Cons x xs)
  then obtain w where "ArrayVec_push x v = (Ret (Ok ()), w)" "holds CAP (ys @ [x]) w" "vec_index w = vec_index v"
    using push_holds [of CAP ys v x] by auto
  with Cons.IH [of "ys @ [x]" w] Cons.prems show ?case
    by (simp add: push_all_def bndE_Ret_Ok)
qed

lemma next_item:
  assumes "holds CAP xs v" "vec_index v < length xs" "CAP < 2 ^ 64"
  shows "ArrayVec_next v = (Ret (Some (xs ! vec_index v)), v\<lparr>vec_index := Suc (vec_index v)\<rparr>)"
  using assms by (simp add: ArrayVec_next_def holds_def bnd_def get_def usize_add_def nth_append ret_def update_def)

lemma next_end:
  assumes "holds CAP xs v" "vec_index v = length xs"
  shows "ArrayVec_next v = (if length xs < CAP then Ret None else Panic, v)"
  using assms by (auto simp: ArrayVec_next_def holds_def bnd_def get_def nth_append ret_def panic_def)

lemma collect_holds:
  assumes "holds CAP xs v" "vec_index v \<le> length xs" "length xs - vec_index v < n" "CAP < 2 ^ 64"
  shows "\<exists>w. collect n v = (if length xs < CAP then Ret (drop (vec_index v) xs) else Panic, w)"
  using assms
proof (induction n arbitrary: v)
  case (Suc n)
  show ?case
  proof (cases "vec_index v < length xs")
    case True
    let ?w = "v\<lparr>vec_index := Suc (vec_index v)\<rparr>"
    have "holds CAP xs ?w" using Suc.prems(1) by (simp add: holds_def)
    moreover have "vec_index ?w \<le> length xs" "length xs - vec_index ?w < n"
      using True Suc.prems(3) by simp_all
    ultimately obtain w where
      "collect n ?w = (if length xs < CAP then Ret (drop (vec_index ?w) xs) else Panic, w)"
      using Suc.IH [of ?w] Suc.prems(4) by blast
    with next_item [OF Suc.prems(1) True Suc.prems(4)] show ?thesis
      by (auto simp: bnd_def ret_def Cons_nth_drop_Suc [OF True])
  next
    case False
    with Suc.prems(2) have "vec_index v = length xs" by simp
    with next_end [OF Suc.prems(1)] show ?thesis by (auto simp: bnd_def ret_def)
  qed
qed simp

text \<open>
  C23. Pushing then iterating: pushing a list no longer than the capacity succeeds, and a \<open>for\<close> loop over
  the vector then yields exactly that list, in order, if there was room to spare. On a full vector the
  loop panics instead of ending, because \<open>next\<close> reads \<open>array[index]\<close> before it compares \<open>index\<close> with
  the capacity. One push more than the capacity is an error.
\<close>

theorem push_then_iterate:
  assumes "length xs \<le> CAP" and "CAP < 2 ^ 64"
  shows "fst (bnd (unwrap (push_all xs)) (\<lambda>_. collect (Suc CAP)) (ArrayVec_new CAP))
      = (if length xs < CAP then Ret xs else Panic)
    \<and> fst (push_all (replicate (Suc CAP) x) (ArrayVec_new CAP)) = Ret (Err CapacityError)"
proof -
  obtain w where w: "push_all xs (ArrayVec_new CAP) = (Ret (Ok ()), w)" "holds CAP xs w" "vec_index w = 0"
    using push_all_holds [OF holds_new, of xs CAP] assms(1) by (auto simp: ArrayVec_new_def)
  then have "fst (collect (Suc CAP) w) = (if length xs < CAP then Ret xs else Panic)"
    using collect_holds [OF w(2), of "Suc CAP"] assms by auto
  moreover obtain v where v: "push_all (replicate CAP x) (ArrayVec_new CAP) = (Ret (Ok ()), v)"
      "holds CAP (replicate CAP x) v"
    using push_all_holds [OF holds_new, of "replicate CAP x" CAP] by auto
  have "push_all (replicate (Suc CAP) x) (ArrayVec_new CAP) = push_all [x] v"
    using v(1) by (simp add: push_all_def for_eachE_append bndE_Ret_Ok flip: replicate_append_same)
  then have "fst (push_all (replicate (Suc CAP) x) (ArrayVec_new CAP)) = Ret (Err CapacityError)"
    using push_full [OF v(2), of x] by (simp add: push_all_def bndE_Ret_Err)
  ultimately show ?thesis
    using w(1) by (simp add: bnd_Ret [where m = "unwrap (push_all xs)" and x = "()" and t = w] unwrap_Ret_iff)
qed

theorem push_then_iterate_witness:
  "fst (bnd (unwrap (push_all [1, 2 :: nat])) (\<lambda>_. collect (Suc 3)) (ArrayVec_new 3)) = Ret [1, 2]
   \<and> fst (bnd (unwrap (push_all [1, 2, 3 :: nat])) (\<lambda>_. collect (Suc 3)) (ArrayVec_new 3)) = Panic"
  using push_then_iterate [of "[1, 2 :: nat]" 3 "0 :: nat"] push_then_iterate [of "[1, 2, 3 :: nat]" 3 "0 :: nat"]
  by (auto simp del: collect.simps)

end
