(* ===== verification/Pci.thy ===== *)
theory Pci
  imports Kernel_Error Array_Vec
begin

unbundle bit_operations_syntax

text \<open>
  PCI enumeration: \<open>kernel/src/pci/mod.rs\<close>. The machine behind the 32-bit \<open>in\<close> and \<open>out\<close> instructions
  is a parameter, and so is \<open>push\<close> of the \<open>arrayvec\<close> crate. \<open>config_mechanism\<close> is the documented
  behaviour of configuration mechanism 1: what is read from \<open>0xCFC\<close> is the configuration-space
  dword selected by the last address written to \<open>0xCF8\<close>. Recursion through PCI-to-PCI bridges has fuel;
  running out of it is \<open>Diverge\<close>, and it is proved that this does not happen.
\<close>

section \<open>Data\<close>

definition CONFIG_ADDRESS_ADDRESS :: u16 where "CONFIG_ADDRESS_ADDRESS = 0x0cf8"

definition CONFIG_DATA_ADDRESS :: u16 where "CONFIG_DATA_ADDRESS = 0x0cfc"

definition DEVICE_CAPACITY :: usize where "DEVICE_CAPACITY = 32"

record ClassCode =
  cc_base :: u8
  cc_sub :: u8
  cc_interface :: u8

definition ClassCode_new :: "u8 \<Rightarrow> u8 \<Rightarrow> u8 \<Rightarrow> ClassCode" where
  "ClassCode_new b s i = \<lparr>cc_base = b, cc_sub = s, cc_interface = i\<rparr>"

definition ClassCode_get_base :: "ClassCode \<Rightarrow> u8" where "ClassCode_get_base self = cc_base self"

definition ClassCode_get_sub :: "ClassCode \<Rightarrow> u8" where "ClassCode_get_sub self = cc_sub self"

definition ClassCode_get_interface :: "ClassCode \<Rightarrow> u8" where "ClassCode_get_interface self = cc_interface self"

definition is_match_base :: "ClassCode \<Rightarrow> u8 \<Rightarrow> bool" where
  "is_match_base self b \<longleftrightarrow> cc_base self = b"

definition is_match_base_sub :: "ClassCode \<Rightarrow> u8 \<Rightarrow> u8 \<Rightarrow> bool" where
  "is_match_base_sub self b s \<longleftrightarrow> is_match_base self b \<and> cc_sub self = s"

definition is_match_all :: "ClassCode \<Rightarrow> u8 \<Rightarrow> u8 \<Rightarrow> u8 \<Rightarrow> bool" where
  "is_match_all self b s i \<longleftrightarrow> is_match_base_sub self b s \<and> cc_interface self = i"

record Device =
  dev_bus :: u8
  dev_device :: u8
  dev_func :: u8
  dev_header_type :: u8
  dev_class_code :: ClassCode

definition Device_new :: "u8 \<Rightarrow> u8 \<Rightarrow> u8 \<Rightarrow> u8 \<Rightarrow> ClassCode \<Rightarrow> Device" where
  "Device_new bus device func header_type class_code =
     \<lparr>dev_bus = bus, dev_device = device, dev_func = func, dev_header_type = header_type, dev_class_code = class_code\<rparr>"

definition Device_get_bus :: "Device \<Rightarrow> u8" where "Device_get_bus self = dev_bus self"

definition Device_get_device :: "Device \<Rightarrow> u8" where "Device_get_device self = dev_device self"

definition Device_get_func :: "Device \<Rightarrow> u8" where "Device_get_func self = dev_func self"

definition Device_get_class_code :: "Device \<Rightarrow> ClassCode" where "Device_get_class_code self = dev_class_code self"

definition Device_get_header_type :: "Device \<Rightarrow> u8" where "Device_get_header_type self = dev_header_type self"

lemmas device_fields = ClassCode_new_def ClassCode_get_base_def ClassCode_get_sub_def ClassCode_get_interface_def
  Device_new_def Device_get_bus_def Device_get_device_def Device_get_func_def Device_get_class_code_def
  Device_get_header_type_def

declare device_fields [simp]

definition is_xhc :: "Device \<Rightarrow> bool" where
  "is_xhc self = is_match_all (dev_class_code self) 0x0c 0x03 0x30"

text \<open>The machine, and the state of \<open>Devices\<close>: the vector \<open>'v\<close> and the rest of the machine \<open>'d\<close>.\<close>

record 'd io32 =
  in32 :: "u16 \<Rightarrow> 'd \<Rightarrow> u32 \<times> 'd"
  out32 :: "u16 \<Rightarrow> u32 \<Rightarrow> 'd \<Rightarrow> 'd"

record ('d, 'v) Devices =
  machine :: 'd
  devices :: 'v

text \<open>\<open>Devices::new\<close> on an empty vector (\<open>ArrayVec::new_const\<close>), with the machine it will scan, and \<open>as_ref_inner\<close>.\<close>

definition Devices_new :: "'d \<Rightarrow> 'v \<Rightarrow> ('d, 'v) Devices" where
  "Devices_new hw_state new_const = \<lparr>machine = hw_state, devices = new_const\<rparr>"

definition as_ref_inner :: "('d, 'v) Devices \<Rightarrow> 'v" where
  "as_ref_inner self = devices self"

section \<open>Configuration space access\<close>

definition io_out_32 :: "'d io32 \<Rightarrow> u16 \<Rightarrow> u32 \<Rightarrow> (('d, 'v) Devices, unit) prog" where
  "io_out_32 hw addr data = update (\<lambda>s. s\<lparr>machine := out32 hw addr data (machine s)\<rparr>)"

definition io_in_32 :: "'d io32 \<Rightarrow> u16 \<Rightarrow> (('d, 'v) Devices, u32) prog" where
  "io_in_32 hw addr s = (let (v, d) = in32 hw addr (machine s) in (Ret v, s\<lparr>machine := d\<rparr>))"

definition make_address :: "u8 \<Rightarrow> u8 \<Rightarrow> u8 \<Rightarrow> u8 \<Rightarrow> u32" where
  "make_address bus device func offset_in_pci_config_space =
     push_bit 31 1 OR push_bit 16 (ucast bus) OR push_bit 11 (ucast device) OR push_bit 8 (ucast func)
     OR (ucast offset_in_pci_config_space AND 0xfc)"

definition write_address :: "'d io32 \<Rightarrow> u32 \<Rightarrow> (('d, 'v) Devices, unit) prog" where
  "write_address hw addr = io_out_32 hw CONFIG_ADDRESS_ADDRESS addr"

definition write_data :: "'d io32 \<Rightarrow> u32 \<Rightarrow> (('d, 'v) Devices, unit) prog" where
  "write_data hw data = io_out_32 hw CONFIG_DATA_ADDRESS data"

definition read_data :: "'d io32 \<Rightarrow> (('d, 'v) Devices, u32) prog" where
  "read_data hw = io_in_32 hw CONFIG_DATA_ADDRESS"

definition read_vendor_id :: "'d io32 \<Rightarrow> u8 \<Rightarrow> u8 \<Rightarrow> u8 \<Rightarrow> (('d, 'v) Devices, u16) prog" where
  "read_vendor_id hw bus device func =
     bnd (write_address hw (make_address bus device func 0x00)) (\<lambda>_.
     bnd (read_data hw) (\<lambda>v. ret (ucast (v AND 0xffff))))"

definition read_device_id :: "'d io32 \<Rightarrow> u8 \<Rightarrow> u8 \<Rightarrow> u8 \<Rightarrow> (('d, 'v) Devices, u16) prog" where
  "read_device_id hw bus device func =
     bnd (write_address hw (make_address bus device func 0x00)) (\<lambda>_.
     bnd (read_data hw) (\<lambda>v. ret (ucast (drop_bit 16 v))))"

definition read_header_type :: "'d io32 \<Rightarrow> u8 \<Rightarrow> u8 \<Rightarrow> u8 \<Rightarrow> (('d, 'v) Devices, u8) prog" where
  "read_header_type hw bus device func =
     bnd (write_address hw (make_address bus device func 0x0c)) (\<lambda>_.
     bnd (read_data hw) (\<lambda>v. ret (ucast (drop_bit 16 v AND 0xff))))"

definition class_code_of :: "u32 \<Rightarrow> ClassCode" where
  "class_code_of v = (let class_code_raw = drop_bit 8 v in
     ClassCode_new (ucast (drop_bit 16 class_code_raw AND 0xff)) (ucast (drop_bit 8 class_code_raw AND 0xff))
       (ucast (class_code_raw AND 0xff)))"

definition read_class_code :: "'d io32 \<Rightarrow> u8 \<Rightarrow> u8 \<Rightarrow> u8 \<Rightarrow> (('d, 'v) Devices, ClassCode) prog" where
  "read_class_code hw bus device func =
     bnd (write_address hw (make_address bus device func 0x08)) (\<lambda>_.
     bnd (read_data hw) (\<lambda>v. ret (class_code_of v)))"

definition read_bus_numbers :: "'d io32 \<Rightarrow> u8 \<Rightarrow> u8 \<Rightarrow> u8 \<Rightarrow> (('d, 'v) Devices, u32) prog" where
  "read_bus_numbers hw bus device func =
     bnd (write_address hw (make_address bus device func 0x18)) (\<lambda>_. read_data hw)"

definition is_single_function_device :: "u8 \<Rightarrow> bool" where
  "is_single_function_device header_type \<longleftrightarrow> header_type AND 0x80 = 0"

definition Device_vendor_id :: "'d io32 \<Rightarrow> Device \<Rightarrow> (('d, 'v) Devices, u16) prog" where
  "Device_vendor_id hw self = read_vendor_id hw (dev_bus self) (dev_device self) (dev_func self)"

definition is_intel :: "'d io32 \<Rightarrow> Device \<Rightarrow> (('d, 'v) Devices, bool) prog" where
  "is_intel hw self = bnd (Device_vendor_id hw self) (\<lambda>v. ret (v = 0x8086))"

definition read_pci_config_space :: "'d io32 \<Rightarrow> Device \<Rightarrow> u8 \<Rightarrow> (('d, 'v) Devices, u32) prog" where
  "read_pci_config_space hw self offset_in_pci_config_space =
     bnd (write_address hw (make_address (dev_bus self) (dev_device self) (dev_func self) offset_in_pci_config_space)) (\<lambda>_.
     read_data hw)"

text \<open>\<open>offset_in_pci_config_space + 4\<close> is a \<open>u8\<close> addition; it overflows, and panics, beyond 255.\<close>

definition u8_add :: "u8 \<Rightarrow> u8 \<Rightarrow> ('s, u8) prog" where
  "u8_add a b = (if unat a + unat b < 256 then ret (a + b) else panic)"

definition read_base_addr :: "'d io32 \<Rightarrow> Device \<Rightarrow> usize \<Rightarrow> (('d, 'v) Devices, Error + u64) prog" where
  "read_base_addr hw self index =
     (if index \<ge> 6 then ret (Err (PciError BaseAddressRegisterIndexOutOfRangeError))
      else
        let offset_in_pci_config_space = of_nat (0x10 + 4 * index) in
        bnd (read_pci_config_space hw self offset_in_pci_config_space) (\<lambda>lower_base_addr.
        if lower_base_addr AND 4 = 0 then ret (Ok (ucast lower_base_addr))
        else if index \<ge> 5 then ret (Err (PciError BaseAddressRegisterIndexOutOfRangeError))
        else
          bnd (u8_add offset_in_pci_config_space 4) (\<lambda>offset.
          bnd (read_pci_config_space hw self offset) (\<lambda>upper_base_addr.
          ret (Ok (push_bit 32 (ucast upper_base_addr) OR ucast lower_base_addr))))))"

section \<open>Enumeration\<close>

definition add_device :: "(Device \<Rightarrow> ('v, unit) prog) \<Rightarrow> Device \<Rightarrow> (('d, 'v) Devices, unit) prog" where
  "add_device push d = zoom devices (\<lambda>v s. s\<lparr>devices := v\<rparr>) (push d)"

text \<open>\<open>scan_bus'\<close> stands for the recursive call of \<open>scan_bus\<close> on the bus behind a bridge.\<close>

definition scan_function ::
    "'d io32 \<Rightarrow> (Device \<Rightarrow> ('v, unit) prog) \<Rightarrow> (u8 \<Rightarrow> (('d, 'v) Devices, Error + unit) prog) \<Rightarrow>
     u8 \<Rightarrow> u8 \<Rightarrow> u8 \<Rightarrow> (('d, 'v) Devices, Error + unit) prog" where
  "scan_function hw push scan_bus' bus device func =
     bnd (read_header_type hw bus device func) (\<lambda>header_type.
     bnd (read_class_code hw bus device func) (\<lambda>class_code.
     bnd (add_device push (Device_new bus device func header_type class_code)) (\<lambda>_.
     if cc_base class_code = 0x06 \<and> cc_sub class_code = 0x04 then
       bnd (read_bus_numbers hw bus device func) (\<lambda>bus_numbers.
       let secondary_bus = drop_bit 8 bus_numbers AND 0xff in
       bndE (scan_bus' (ucast secondary_bus)) (\<lambda>_. ret (Ok ())))
     else ret (Ok ()))))"

definition scan_device ::
    "'d io32 \<Rightarrow> (Device \<Rightarrow> ('v, unit) prog) \<Rightarrow> (u8 \<Rightarrow> (('d, 'v) Devices, Error + unit) prog) \<Rightarrow>
     u8 \<Rightarrow> u8 \<Rightarrow> (('d, 'v) Devices, Error + unit) prog" where
  "scan_device hw push scan_bus' bus device =
     bndE (scan_function hw push scan_bus' bus device 0) (\<lambda>_.
     bnd (read_header_type hw bus device 0) (\<lambda>header_type.
     if is_single_function_device header_type then ret (Ok ())
     else for_eachE [1, 2, 3, 4, 5, 6, 7] (\<lambda>func.
       bnd (read_vendor_id hw bus device func) (\<lambda>vendor_id.
       if vendor_id = 0xffff then ret (Ok ()) else scan_function hw push scan_bus' bus device func))))"

primrec scan_bus ::
    "'d io32 \<Rightarrow> (Device \<Rightarrow> ('v, unit) prog) \<Rightarrow> nat \<Rightarrow> u8 \<Rightarrow> (('d, 'v) Devices, Error + unit) prog" where
  "scan_bus hw push 0 bus = diverge"
| "scan_bus hw push (Suc fuel) bus =
     for_eachE (map of_nat [0..<32]) (\<lambda>device.
       bnd (read_vendor_id hw bus device 0) (\<lambda>vendor_id.
       if vendor_id = 0xffff then ret (Ok ()) else scan_device hw push (scan_bus hw push fuel) bus device))"

definition scan_all_bus ::
    "'d io32 \<Rightarrow> (Device \<Rightarrow> ('v, unit) prog) \<Rightarrow> nat \<Rightarrow> (('d, 'v) Devices, Error + unit) prog" where
  "scan_all_bus hw push fuel =
     bnd (read_header_type hw 0 0 0) (\<lambda>bus0_host_bridge_header_type.
     if is_single_function_device bus0_host_bridge_header_type then scan_bus hw push fuel 0
     else for_eachE [0, 1, 2, 3, 4, 5, 6, 7] (\<lambda>func.
       bnd (read_vendor_id hw 0 0 func) (\<lambda>vendor_id.
       if vendor_id = 0xffff then ret (Ok ()) else scan_bus hw push fuel func)))"

definition Devices_init ::
    "'d io32 \<Rightarrow> (Device \<Rightarrow> ('v, unit) prog) \<Rightarrow> nat \<Rightarrow> (('d, 'v) Devices, Error + unit) prog" where
  "Devices_init hw push fuel = bndE (scan_all_bus hw push fuel) (\<lambda>_. ret (Ok ()))"

section \<open>Specification\<close>

text \<open>The machine answers configuration reads from \<open>cfg\<close>, a view of its state that reading leaves alone.\<close>

definition config_mechanism :: "'d io32 \<Rightarrow> ('d \<Rightarrow> u32 \<Rightarrow> u32) \<Rightarrow> bool" where
  "config_mechanism hw cfg \<longleftrightarrow> (\<forall>d addr. bit addr 31 \<longrightarrow>
     fst (in32 hw 0x0cfc (out32 hw 0x0cf8 addr d)) = cfg d addr \<and>
     cfg (snd (in32 hw 0x0cfc (out32 hw 0x0cf8 addr d))) = cfg d)"

text \<open>What the configuration space \<open>conf\<close> says of a function, by bus, device and function number.\<close>

definition present :: "(u32 \<Rightarrow> u32) \<Rightarrow> u8 \<Rightarrow> u8 \<Rightarrow> u8 \<Rightarrow> bool" where
  "present conf b d f \<longleftrightarrow> (ucast (conf (make_address b d f 0x00) AND 0xffff) :: u16) \<noteq> 0xffff"

definition header_at :: "(u32 \<Rightarrow> u32) \<Rightarrow> u8 \<Rightarrow> u8 \<Rightarrow> u8 \<Rightarrow> u8" where
  "header_at conf b d f = ucast (drop_bit 16 (conf (make_address b d f 0x0c)) AND 0xff)"

definition device_at :: "(u32 \<Rightarrow> u32) \<Rightarrow> u8 \<Rightarrow> u8 \<Rightarrow> u8 \<Rightarrow> Device" where
  "device_at conf b d f = \<lparr>dev_bus = b, dev_device = d, dev_func = f, dev_header_type = header_at conf b d f,
     dev_class_code = class_code_of (conf (make_address b d f 0x08))\<rparr>"

definition is_bridge :: "(u32 \<Rightarrow> u32) \<Rightarrow> u8 \<Rightarrow> u8 \<Rightarrow> u8 \<Rightarrow> bool" where
  "is_bridge conf b d f \<longleftrightarrow> is_match_base_sub (dev_class_code (device_at conf b d f)) 0x06 0x04"

definition secondary :: "(u32 \<Rightarrow> u32) \<Rightarrow> u8 \<Rightarrow> u8 \<Rightarrow> u8 \<Rightarrow> u8" where
  "secondary conf b d f = ucast (drop_bit 8 (conf (make_address b d f 0x18)) AND 0xff)"

text \<open>The functions to visit in a device, the devices of a bus, and the buses to start from.\<close>

definition functions_of :: "(u32 \<Rightarrow> u32) \<Rightarrow> u8 \<Rightarrow> u8 \<Rightarrow> u8 list" where
  "functions_of conf b d = 0 # (if is_single_function_device (header_at conf b d 0) then []
     else filter (present conf b d) [1, 2, 3, 4, 5, 6, 7])"

definition device_numbers :: "u8 list" where
  "device_numbers = map of_nat [0..<32]"

definition devices_of :: "(u32 \<Rightarrow> u32) \<Rightarrow> u8 \<Rightarrow> u8 list" where
  "devices_of conf b = filter (\<lambda>d. present conf b d 0) device_numbers"

definition root_buses :: "(u32 \<Rightarrow> u32) \<Rightarrow> u8 list" where
  "root_buses conf = (if is_single_function_device (header_at conf 0 0 0) then [0]
     else filter (present conf 0 0) [0, 1, 2, 3, 4, 5, 6, 7])"

text \<open>Depth-first enumeration: a function, then everything behind it if it is a bridge.\<close>

primrec enum_bus :: "(u32 \<Rightarrow> u32) \<Rightarrow> nat \<Rightarrow> u8 \<Rightarrow> Device list" where
  "enum_bus conf 0 b = []"
| "enum_bus conf (Suc n) b = concat (map (\<lambda>d. concat (map (\<lambda>f.
     device_at conf b d f # (if is_bridge conf b d f then enum_bus conf n (secondary conf b d f) else []))
     (functions_of conf b d))) (devices_of conf b))"

definition enum_all :: "(u32 \<Rightarrow> u32) \<Rightarrow> nat \<Rightarrow> Device list" where
  "enum_all conf n = concat (map (enum_bus conf n) (root_buses conf))"

lemma make_address_enabled: "bit (make_address b d f ofs) 31"
  by (simp add: make_address_def bit_simps)

section \<open>Enumeration is correct\<close>

text \<open>A vector of devices: the contract the scan relies on.\<close>

locale device_vec = bounded_vec push items vec_ok cap
  for push :: "Device \<Rightarrow> ('v, unit) prog" and items :: "'v \<Rightarrow> Device list"
    and vec_ok :: "'v \<Rightarrow> bool" and cap :: nat
begin

definition good :: "('d \<Rightarrow> u32 \<Rightarrow> u32) \<Rightarrow> (u32 \<Rightarrow> u32) \<Rightarrow> nat \<Rightarrow> ('d, 'v) Devices \<Rightarrow> bool" where
  "good cfg conf k s \<longleftrightarrow> cfg (machine s) = conf \<and> vec_ok (devices s) \<and> k \<le> length (items (devices s))"

text \<open>
  \<open>adds cfg conf k m xs\<close>: from any good state that holds at least \<open>k\<close> devices, \<open>m\<close> appends \<open>xs\<close> if there
  is room for all of it and panics otherwise.
\<close>

definition adds :: "('d \<Rightarrow> u32 \<Rightarrow> u32) \<Rightarrow> (u32 \<Rightarrow> u32) \<Rightarrow> nat \<Rightarrow>
    (('d, 'v) Devices, Error + unit) prog \<Rightarrow> Device list \<Rightarrow> bool" where
  "adds cfg conf k m xs \<longleftrightarrow> (\<forall>s. good cfg conf k s \<longrightarrow>
     (\<exists>t. if length (items (devices s)) + length xs \<le> cap
        then m s = (Ret (Ok ()), t) \<and> good cfg conf k t \<and> items (devices t) = items (devices s) @ xs
        else m s = (Panic, t)))"

lemma addsE:
  assumes "adds cfg conf k m xs" "good cfg conf k s"
  obtains (fits) t where "length (items (devices s)) + length xs \<le> cap" "m s = (Ret (Ok ()), t)"
      "good cfg conf k t" "items (devices t) = items (devices s) @ xs"
    | (full) t where "length (items (devices s)) + length xs > cap" "m s = (Panic, t)"
  using assms unfolding adds_def by (meson not_le)

lemma adds_ret: "adds cfg conf k (ret (Ok ())) []"
  using items_cap by (auto simp: adds_def good_def ret_def)

lemma adds_bndE:
  assumes "adds cfg conf k m xs" "adds cfg conf k n ys"
  shows "adds cfg conf k (bndE m (\<lambda>_. n)) (xs @ ys)"
  unfolding adds_def
proof (intro allI impI)
  fix s assume s: "good cfg conf k s"
  let ?r = "\<exists>t. if length (items (devices s)) + length (xs @ ys) \<le> cap
    then bndE m (\<lambda>_. n) s = (Ret (Ok ()), t) \<and> good cfg conf k t \<and> items (devices t) = items (devices s) @ xs @ ys
    else bndE m (\<lambda>_. n) s = (Panic, t)"
  from assms(1) s show ?r
  proof (cases rule: addsE)
    case (fits t)
    from assms(2) fits(3) show ?thesis
      by (cases rule: addsE) (use fits in \<open>simp_all add: bndE_Ret_Ok\<close>)
  next
    case (full t)
    then show ?thesis by (simp add: bndE_Panic')
  qed
qed

lemma adds_for:
  "(\<And>x. x \<in> set L \<Longrightarrow> adds cfg conf k (body x) (g x)) \<Longrightarrow>
    adds cfg conf k (for_eachE L body) (concat (map g L))"
  by (induction L) (simp_all add: adds_ret adds_bndE)

lemma adds_read:
  assumes "config_mechanism hw cfg"
    and "adds cfg conf k (cont (conf (make_address b d f ofs))) xs"
  shows "adds cfg conf k (bnd (write_address hw (make_address b d f ofs)) (\<lambda>_. bnd (read_data hw) cont)) xs"
  unfolding adds_def
proof (intro allI impI)
  fix s assume s: "good cfg conf k s"
  let ?a = "make_address b d f ofs"
  let ?io = "in32 hw 0x0cfc (out32 hw 0x0cf8 ?a (machine s))"
  have io: "fst ?io = conf ?a" "cfg (snd ?io) = conf"
    using assms(1) s make_address_enabled [of b d f ofs] by (simp_all add: config_mechanism_def good_def)
  then have "good cfg conf k (s\<lparr>machine := snd ?io\<rparr>)" using s by (simp add: good_def)
  note ready = this
  have run: "bnd (write_address hw ?a) (\<lambda>_. bnd (read_data hw) cont) s
      = cont (conf ?a) (s\<lparr>machine := snd ?io\<rparr>)"
    by (simp add: bnd_def write_address_def io_out_32_def update_def read_data_def io_in_32_def
        CONFIG_ADDRESS_ADDRESS_def CONFIG_DATA_ADDRESS_def case_prod_beta io(1))
  show "\<exists>t. if length (items (devices s)) + length xs \<le> cap
      then bnd (write_address hw ?a) (\<lambda>_. bnd (read_data hw) cont) s = (Ret (Ok ()), t) \<and> good cfg conf k t \<and>
        items (devices t) = items (devices s) @ xs
      else bnd (write_address hw ?a) (\<lambda>_. bnd (read_data hw) cont) s = (Panic, t)"
    unfolding run using assms(2) ready by (cases rule: addsE) auto
qed

lemma adds_push:
  assumes "adds cfg conf (Suc k) m xs"
  shows "adds cfg conf k (bnd (zoom devices (\<lambda>v s. s\<lparr>devices := v\<rparr>) (push x)) (\<lambda>_. m)) (x # xs)"
  unfolding adds_def
proof (intro allI impI)
  fix s assume s: "good cfg conf k s"
  let ?p = "bnd (zoom devices (\<lambda>v s. s\<lparr>devices := v\<rparr>) (push x)) (\<lambda>_. m)"
  from s have ok: "vec_ok (devices s)" by (simp add: good_def)
  then show "\<exists>t. if length (items (devices s)) + length (x # xs) \<le> cap
      then ?p s = (Ret (Ok ()), t) \<and> good cfg conf k t \<and> items (devices t) = items (devices s) @ x # xs
      else ?p s = (Panic, t)"
  proof (cases rule: push_cases [of _ x])
    case (room w)
    have "good cfg conf (Suc k) (s\<lparr>devices := w\<rparr>)" using s room by (simp add: good_def)
    with assms show ?thesis
      by (cases rule: addsE) (use room in \<open>auto simp: bnd_def zoom_def good_def\<close>)
  next
    case (full w)
    then show ?thesis by (simp add: bnd_def zoom_def)
  qed
qed

lemma adds_mono: "adds cfg conf k m xs \<Longrightarrow> k \<le> k' \<Longrightarrow> adds cfg conf k' m xs"
  unfolding adds_def good_def by (auto 4 4)

lemma adds_reads:
  assumes "config_mechanism hw cfg"
  shows "adds cfg conf k (cont (ucast (conf (make_address b d f 0) AND 0xffff))) xs \<Longrightarrow>
      adds cfg conf k (bnd (read_vendor_id hw b d f) cont) xs"
    and "adds cfg conf k (cont' (header_at conf b d f)) xs \<Longrightarrow>
      adds cfg conf k (bnd (read_header_type hw b d f) cont') xs"
    and "adds cfg conf k (cont'' (class_code_of (conf (make_address b d f 8)))) xs \<Longrightarrow>
      adds cfg conf k (bnd (read_class_code hw b d f) cont'') xs"
    and "adds cfg conf k (cont3 (conf (make_address b d f 0x18))) xs \<Longrightarrow>
      adds cfg conf k (bnd (read_bus_numbers hw b d f) cont3) xs"
  by (simp_all add: read_vendor_id_def read_header_type_def read_class_code_def read_bus_numbers_def
      header_at_def bnd_assoc adds_read [OF assms])

lemma adds_for_present:
  assumes "config_mechanism hw cfg"
    and "\<And>x. x \<in> set L \<Longrightarrow> present conf b (d x) (f x) \<Longrightarrow> adds cfg conf k (body x) (g x)"
  shows "adds cfg conf k (for_eachE L (\<lambda>x. bnd (read_vendor_id hw b (d x) (f x)) (\<lambda>v.
      if v = 0xffff then ret (Ok ()) else body x)))
    (concat (map g (filter (\<lambda>x. present conf b (d x) (f x)) L)))"
proof -
  have "concat (map g (filter P L)) = concat (map (\<lambda>x. if P x then g x else []) L)" for P
    by (induction L) simp_all
  then show ?thesis
    by (simp only:, intro adds_for adds_reads(1) [OF assms(1)])
      (use assms(2) in \<open>auto simp: adds_ret present_def\<close>)
qed

lemma scan_function_adds:
  assumes "config_mechanism hw cfg"
    and "is_bridge conf b d f \<Longrightarrow> adds cfg conf (Suc k) (rec (secondary conf b d f)) xs"
  shows "adds cfg conf k (scan_function hw push rec b d f)
    (device_at conf b d f # (if is_bridge conf b d f then xs else []))"
proof -
  have bridge: "is_bridge conf b d f \<longleftrightarrow> cc_base (class_code_of (conf (make_address b d f 8))) = 6
      \<and> cc_sub (class_code_of (conf (make_address b d f 8))) = 4"
    by (simp add: is_bridge_def device_at_def is_match_base_sub_def is_match_base_def)
  have "adds cfg conf (Suc k) (bnd (read_bus_numbers hw b d f) (\<lambda>bus_numbers.
      bndE (rec (ucast (drop_bit 8 bus_numbers AND 0xff))) (\<lambda>_. ret (Ok ())))) xs"
    if "is_bridge conf b d f"
    using adds_bndE [OF assms(2) [OF that] adds_ret]
    by (intro adds_reads [OF assms(1)]) (simp add: secondary_def)
  then show ?thesis
    unfolding scan_function_def add_device_def Let_def device_at_def Device_new_def
    by (intro adds_reads [OF assms(1)] adds_push) (auto simp: bridge adds_ret)
qed

lemma scan_device_adds:
  assumes "config_mechanism hw cfg"
    and "\<And>b. adds cfg conf (Suc k) (rec b) (xs b)"
  shows "adds cfg conf k (scan_device hw push rec b d) (concat (map (\<lambda>f. device_at conf b d f #
    (if is_bridge conf b d f then xs (secondary conf b d f) else [])) (functions_of conf b d)))"
proof -
  let ?g = "\<lambda>f. device_at conf b d f # (if is_bridge conf b d f then xs (secondary conf b d f) else [])"
  have fn: "adds cfg conf k (scan_function hw push rec b d f) (?g f)" for f
    using assms by (intro scan_function_adds)
  show ?thesis
    unfolding scan_device_def functions_of_def list.map concat.simps
    using fn adds_for_present [OF assms(1), where d = "\<lambda>_. d" and f = "\<lambda>x. x" and g = ?g
        and L = "[1, 2, 3, 4, 5, 6, 7]"]
    by (intro adds_bndE fn adds_reads [OF assms(1)]) (auto simp: adds_ret)
qed

lemma scan_bus_adds:
  assumes "config_mechanism hw cfg"
  shows "cap < n + k \<Longrightarrow> adds cfg conf k (scan_bus hw push n b) (enum_bus conf n b)"
proof (induction n arbitrary: k b)
  case 0
  then show ?case using items_cap by (fastforce simp: adds_def good_def)
next
  case (Suc n)
  have "adds cfg conf k (scan_device hw push (scan_bus hw push n) b d) (concat (map (\<lambda>f. device_at conf b d f #
    (if is_bridge conf b d f then enum_bus conf n (secondary conf b d f) else [])) (functions_of conf b d)))" for d
    using Suc by (intro scan_device_adds [OF assms]) simp
  then show ?case
    unfolding scan_bus.simps enum_bus.simps devices_of_def device_numbers_def
    by (intro adds_for_present [OF assms]) simp
qed

lemma scan_all_adds:
  assumes "config_mechanism hw cfg" "cap < n"
  shows "adds cfg conf 0 (Devices_init hw push n) (enum_all conf n)"
proof -
  have bus: "adds cfg conf 0 (scan_bus hw push n b) (enum_bus conf n b)" for b
    using scan_bus_adds [OF assms(1)] assms(2) by simp
  have "adds cfg conf 0 (scan_all_bus hw push n) (enum_all conf n)"
    unfolding scan_all_bus_def enum_all_def root_buses_def
    using bus adds_for_present [OF assms(1), where d = "\<lambda>_. 0" and f = "\<lambda>x. x" and g = "enum_bus conf n"
        and L = "[0, 1, 2, 3, 4, 5, 6, 7]"]
    by (intro adds_reads [OF assms(1)]) auto
  with adds_bndE [OF this adds_ret] show ?thesis by (simp add: Devices_init_def)
qed

end

interpretation dv: device_vec "\<lambda>x. unwrap (ArrayVec_push x)" ArrayVec_items
    "ArrayVec_wf DEVICE_CAPACITY" DEVICE_CAPACITY
  by (rule device_vec.intro) (rule ArrayVec_bounded)

section \<open>Reachability\<close>

text \<open>The functions a scan looks at on a bus, and what is found from a bus through bridges.\<close>

definition visited :: "(u32 \<Rightarrow> u32) \<Rightarrow> u8 \<Rightarrow> u8 \<Rightarrow> u8 \<Rightarrow> bool" where
  "visited conf b d f \<longleftrightarrow> d < 32 \<and> present conf b d 0 \<and>
     (f = 0 \<or> bit (header_at conf b d 0) 7 \<and> f < 8 \<and> present conf b d f)"

inductive found :: "(u32 \<Rightarrow> u32) \<Rightarrow> u8 \<Rightarrow> u8 \<times> u8 \<times> u8 \<Rightarrow> bool" for conf where
  here: "visited conf b d f \<Longrightarrow> found conf b (b, d, f)"
| behind: "visited conf b d f \<Longrightarrow> is_bridge conf b d f \<Longrightarrow> found conf (secondary conf b d f) x \<Longrightarrow> found conf b x"

inductive_cases found_cases: "found conf b x"

lemma is_single_function_iff: "is_single_function_device h \<longleftrightarrow> \<not> bit h 7"
proof -
  have "(0x80 :: u8) = 2 ^ 7" by simp
  then show ?thesis by (simp only: is_single_function_device_def and_exp_eq_0_iff_not_bit)
qed

lemma u8_less_eq_set:
  "d \<in> set device_numbers \<longleftrightarrow> d < 32"
  "f < 8 \<longleftrightarrow> f \<in> set [0, 1, 2, 3, 4, 5, 6, 7 :: u8]"
proof -
  have nat: "x < of_nat n \<longleftrightarrow> x \<in> of_nat ` {0..<n}" if "n < 256" for x :: u8 and n
  proof
    assume "x < of_nat n"
    then have "unat x < n" using that by (simp add: word_less_nat_alt unat_of_nat)
    then show "x \<in> of_nat ` {0..<n}" by (intro image_eqI [of _ _ "unat x"]) simp_all
  next
    assume "x \<in> of_nat ` {0..<n}"
    then show "x < of_nat n" using that by (auto simp: word_less_nat_alt unat_of_nat)
  qed
  from nat [of 32 d] show "d \<in> set device_numbers \<longleftrightarrow> d < 32"
    by (simp add: device_numbers_def)
  from nat [of 8 f] show "f < 8 \<longleftrightarrow> f \<in> set [0, 1, 2, 3, 4, 5, 6, 7 :: u8]"
    by (simp add: atLeastLessThan_upt upt_rec)
qed

lemma visited_iff: "visited conf b d f \<longleftrightarrow> d \<in> set (devices_of conf b) \<and> f \<in> set (functions_of conf b d)"
  unfolding visited_def devices_of_def functions_of_def is_single_function_iff u8_less_eq_set(2)
  by (auto simp: u8_less_eq_set(1))

lemma set_enum_bus:
  "set (enum_bus conf (Suc n) b) = {device_at conf b d f | d f. visited conf b d f} \<union>
    (\<Union>{set (enum_bus conf n (secondary conf b d f)) | d f. visited conf b d f \<and> is_bridge conf b d f})"
  by (auto simp: visited_iff split: if_splits) blast+

lemma enum_bus_sound:
  "x \<in> set (enum_bus conf n b) \<Longrightarrow> \<exists>b' d f. x = device_at conf b' d f \<and> found conf b (b', d, f)"
proof (induction n arbitrary: b)
  case (Suc n)
  then show ?case unfolding set_enum_bus by (blast intro: found.intros)
qed simp

lemma length_concat_member: "x \<in> set xs \<Longrightarrow> length (g x) \<le> length (concat (map g xs))"
  by (induction xs) auto

lemma enum_bus_behind:
  assumes "visited conf b d f" "is_bridge conf b d f"
  shows "length (enum_bus conf n (secondary conf b d f)) < length (enum_bus conf (Suc n) b)"
proof -
  let ?g = "\<lambda>d f. device_at conf b d f #
    (if is_bridge conf b d f then enum_bus conf n (secondary conf b d f) else [])"
  have "length (enum_bus conf n (secondary conf b d f)) < length (?g d f)" using assms(2) by simp
  also have "\<dots> \<le> length (concat (map (?g d) (functions_of conf b d)))"
    using assms(1) by (intro length_concat_member) (simp add: visited_iff)
  also have "\<dots> \<le> length (enum_bus conf (Suc n) b)"
    using assms(1) length_concat_member [of d "devices_of conf b" "\<lambda>d. concat (map (?g d) (functions_of conf b d))"]
    by (simp add: visited_iff)
  finally show ?thesis .
qed

lemma enum_bus_complete:
  "found conf b x \<Longrightarrow> length (enum_bus conf n b) < n \<Longrightarrow>
    (case x of (b', d, f) \<Rightarrow> device_at conf b' d f \<in> set (enum_bus conf n b))"
proof (induction arbitrary: n rule: found.induct)
  case (here b d f)
  then obtain m where n: "n = Suc m" by (cases n) simp_all
  show ?case unfolding n prod.case set_enum_bus using here(1) by blast
next
  case (behind b d f x)
  then obtain m where n: "n = Suc m" by (cases n) simp_all
  with behind enum_bus_behind [OF behind.hyps(1,2), of m]
  have "case x of (b', d', f') \<Rightarrow> device_at conf b' d' f' \<in> set (enum_bus conf m (secondary conf b d f))"
    by (intro behind.IH) simp
  then show ?case
    unfolding n set_enum_bus using behind.hyps(1,2) by (cases x) blast
qed

lemma enum_all_set:
  assumes "length (enum_all conf n) < n"
  shows "set (enum_all conf n) =
    {device_at conf b d f | b d f. \<exists>r \<in> set (root_buses conf). found conf r (b, d, f)}"
proof (intro equalityI subsetI)
  fix x assume "x \<in> set (enum_all conf n)"
  then show "x \<in> {device_at conf b d f | b d f. \<exists>r \<in> set (root_buses conf). found conf r (b, d, f)}"
    using enum_bus_sound by (fastforce simp: enum_all_def)
next
  fix x assume "x \<in> {device_at conf b d f | b d f. \<exists>r \<in> set (root_buses conf). found conf r (b, d, f)}"
  then obtain b d f r where x: "x = device_at conf b d f" "r \<in> set (root_buses conf)" "found conf r (b, d, f)"
    by blast
  have "length (enum_bus conf n r) < n"
    using length_concat_member [OF x(2), of "enum_bus conf n"] assms by (simp add: enum_all_def)
  with enum_bus_complete [OF x(3)] x(1,2) show "x \<in> set (enum_all conf n)" by (auto simp: enum_all_def)
qed

lemma pci_scan_result:
  assumes "config_mechanism hw cfg" and "device_vec push items vec_ok DEVICE_CAPACITY"
    and "vec_ok (devices s)" and "items (devices s) = []" and "fuel > 32"
  shows "if length (enum_all (cfg (machine s)) fuel) \<le> 32
    then \<exists>t. Devices_init hw push fuel s = (Ret (Ok ()), t) \<and>
      items (devices t) = enum_all (cfg (machine s)) fuel \<and>
      set (items (devices t)) = {device_at (cfg (machine s)) b d f | b d f.
        \<exists>r \<in> set (root_buses (cfg (machine s))). found (cfg (machine s)) r (b, d, f)}
    else \<exists>t. Devices_init hw push fuel s = (Panic, t)"
proof -
  let ?conf = "cfg (machine s)"
  have "device_vec.adds items vec_ok DEVICE_CAPACITY cfg ?conf 0 (Devices_init hw push fuel) (enum_all ?conf fuel)"
    using device_vec.scan_all_adds [OF assms(2,1)] assms(5) by (simp add: DEVICE_CAPACITY_def)
  moreover have "device_vec.good items vec_ok cfg ?conf 0 s"
    using assms(2,3) by (simp add: device_vec.good_def)
  ultimately show ?thesis
    using assms(4,5)
    by (cases rule: device_vec.addsE [OF assms(2)])
      (auto simp: DEVICE_CAPACITY_def enum_all_set)
qed

text \<open>
  C8. \<open>Devices::init\<close> finds exactly the reachable functions. Over any machine with configuration
  mechanism 1 and any vector that meets the contract of \<open>ArrayVec\<close> with capacity 32, fuel 33 is always
  enough: the scan never recurses without end, even through bridges that form a cycle. If the
  depth-first enumeration has at most 32 entries, \<open>init\<close> returns \<open>Ok\<close> and the vector holds that enumeration,
  in order; its elements are exactly the functions reachable from the root buses, with the header type
  and class code their configuration space shows. If it has more, \<open>init\<close> panics.
\<close>

theorem pci_scan_finds_reachable:
  assumes "config_mechanism hw cfg" and "device_vec push items vec_ok DEVICE_CAPACITY"
    and "vec_ok (devices s)" and "items (devices s) = []" and "fuel > 32"
  shows "if length (enum_all (cfg (machine s)) fuel) \<le> 32
    then \<exists>t. Devices_init hw push fuel s = (Ret (Ok ()), t) \<and>
      items (devices t) = enum_all (cfg (machine s)) fuel \<and>
      set (items (devices t)) = {device_at (cfg (machine s)) b d f | b d f.
        \<exists>r \<in> set (root_buses (cfg (machine s))). found (cfg (machine s)) r (b, d, f)}
    else \<exists>t. Devices_init hw push fuel s = (Panic, t)"
  using assms by (rule pci_scan_result)

text \<open>The two registers of configuration mechanism 1, over a configuration space held in memory.\<close>

definition register_io :: "(u32 \<times> (u32 \<Rightarrow> u32)) io32" where
  "register_io = \<lparr>
     in32 = (\<lambda>p (a, c). (if p = 0x0cfc then c a else 0, (a, c))),
     out32 = (\<lambda>p v (a, c). if p = 0x0cf8 then (v, c) else if p = 0x0cfc then (a, c(a := v)) else (a, c))\<rparr>"

lemma register_io_mechanism: "config_mechanism register_io snd"
  by (simp add: config_mechanism_def register_io_def)

text \<open>A host bridge, a PCI-to-PCI bridge to bus 1, and a USB controller behind it.\<close>

definition sample_config :: "u32 \<Rightarrow> u32" where
  "sample_config a =
     (if a = 0x80000000 then 0x29c08086 else if a = 0x80000008 then 0x06000000 else if a = 0x8000000c then 0
      else if a = 0x80000800 then 0x24208086 else if a = 0x80000808 then 0x06040000 else if a = 0x8000080c then 0x00010000
      else if a = 0x80000818 then 0x00010100
      else if a = 0x80010000 then 0x00011033 else if a = 0x80010008 then 0x0c033000 else if a = 0x8001000c then 0
      else 0xffffffff)"

lemma sample_enum:
  "enum_all sample_config 33 = [device_at sample_config 0 0 0, device_at sample_config 0 1 0, device_at sample_config 1 0 0]"
  by code_simp

lemma new_device_vec:
  "ArrayVec_wf DEVICE_CAPACITY (ArrayVec_new DEVICE_CAPACITY)" "ArrayVec_items (ArrayVec_new DEVICE_CAPACITY) = []"
  by (simp_all add: ArrayVec_wf_def holds_new holds_items [OF holds_new])

theorem pci_scan_finds_reachable_witness:
  "\<exists>t. Devices_init register_io (\<lambda>x. unwrap (ArrayVec_push x)) 33
      \<lparr>machine = (0, sample_config), devices = ArrayVec_new DEVICE_CAPACITY\<rparr> = (Ret (Ok ()), t)
    \<and> ArrayVec_items (devices t) = [device_at sample_config 0 0 0, device_at sample_config 0 1 0,
        device_at sample_config 1 0 0]"
proof -
  let ?s = "\<lparr>machine = (0 :: u32, sample_config), devices = ArrayVec_new DEVICE_CAPACITY\<rparr>"
  from pci_scan_finds_reachable [OF register_io_mechanism dv.device_vec_axioms, of ?s 33] new_device_vec
  show ?thesis by (simp add: sample_enum) blast
qed

section \<open>Configuration addresses\<close>

lemma make_address_bit:
  "bit (make_address b d f ofs) k \<longleftrightarrow> k = 31 \<or> k < 32 \<and> (16 \<le> k \<and> bit b (k - 16) \<or> 11 \<le> k \<and> bit d (k - 11)
     \<or> 8 \<le> k \<and> bit f (k - 8) \<or> 2 \<le> k \<and> bit ofs k)"
proof -
  have mask: "(0xfc :: u32) = mask 8 AND NOT (mask 2)" by (simp add: mask_eq_exp_minus_1)
  have "bit (ucast ofs AND 0xfc :: u32) k \<longleftrightarrow> k < 32 \<and> 2 \<le> k \<and> bit ofs k"
    unfolding mask by (auto simp: bit_simps not_less dest: bit_imp_le_length)
  moreover have "bit (push_bit n (ucast (w :: u8)) :: u32) k \<longleftrightarrow> k < 32 \<and> n \<le> k \<and> bit w (k - n)" for n w
    by (auto simp: bit_simps dest: bit_imp_le_length)
  moreover have "bit (push_bit 31 1 :: u32) k \<longleftrightarrow> k = 31"
    by (simp only: bit_push_bit_iff bit_1_iff) auto
  ultimately show ?thesis
    unfolding make_address_def bit_or_iff by blast
qed

text \<open>
  Configuration addresses do not collide: for device numbers below 32 and function numbers below 8, the
  address has the enable bit, and bus, device, function and register dword can be read back from it, so
  two different functions or dwords never share an address.
\<close>

theorem make_address_fields:
  assumes "d < 32" and "f < 8"
  shows "bit (make_address b d f ofs) 31
    \<and> (ucast (drop_bit 16 (make_address b d f ofs) AND 0xff) :: u8) = b
    \<and> (ucast (drop_bit 11 (make_address b d f ofs) AND 0x1f) :: u8) = d
    \<and> (ucast (drop_bit 8 (make_address b d f ofs) AND 0x07) :: u8) = f
    \<and> (ucast (make_address b d f ofs AND 0xff) :: u8) = ofs AND 0xfc"
proof -
  have d: "bit d k \<Longrightarrow> k < 5" for k using bit_less_exp [of d 5 k] assms(1) by simp
  have ofs: "bit ofs k \<Longrightarrow> k < 8" "bit b k \<Longrightarrow> k < 8" for k using bit_imp_le_length by force+
  have f: "bit f k \<Longrightarrow> k < 3" for k using bit_less_exp [of f 3 k] assms(2) by simp
  have masks: "(0xff :: u32) = mask 8" "(0x1f :: u32) = mask 5" "(0x07 :: u32) = mask 3" "(0xfc :: u8) = NOT (mask 2)"
    by (simp_all add: mask_eq_exp_minus_1)
  note bits = make_address_bit bit_unsigned_iff bit_and_iff bit_drop_bit_eq bit_mask_iff bit_not_iff
  have "(ucast (drop_bit 16 (make_address b d f ofs) AND 0xff) :: u8) = b"
    unfolding masks by (rule bit_eqI) (auto simp: bits dest: d f ofs)
  moreover have "(ucast (drop_bit 11 (make_address b d f ofs) AND 0x1f) :: u8) = d"
    unfolding masks by (rule bit_eqI) (auto simp: bits dest: d f ofs)
  moreover have "(ucast (drop_bit 8 (make_address b d f ofs) AND 0x07) :: u8) = f"
    unfolding masks by (rule bit_eqI) (auto simp: bits dest: d f ofs)
  moreover have "(ucast (make_address b d f ofs AND 0xff) :: u8) = ofs AND 0xfc"
    unfolding masks by (rule bit_eqI) (auto simp: bits dest: d f ofs)
  ultimately show ?thesis using make_address_enabled by blast
qed

theorem make_address_fields_witness:
  "(ucast (drop_bit 11 (make_address 3 31 7 0x2e) AND 0x1f) :: u8) = 31"
  using make_address_fields [of 31 7 3 "0x2e"] by simp

section \<open>Base address registers\<close>

definition register_at :: "(u32 \<Rightarrow> u32) \<Rightarrow> Device \<Rightarrow> nat \<Rightarrow> u32" where
  "register_at conf self i = conf (make_address (dev_bus self) (dev_device self) (dev_func self) (of_nat (0x10 + 4 * i)))"

lemma read_pci_config_space_result:
  assumes "config_mechanism hw cfg"
  shows "\<exists>d. read_pci_config_space hw self (of_nat (0x10 + 4 * i)) s =
    (Ret (register_at (cfg (machine s)) self i), s\<lparr>machine := d\<rparr>) \<and> cfg d = cfg (machine s)"
proof -
  let ?a = "make_address (dev_bus self) (dev_device self) (dev_func self) (of_nat (0x10 + 4 * i))"
  let ?io = "in32 hw 0x0cfc (out32 hw 0x0cf8 ?a (machine s))"
  have "fst ?io = cfg (machine s) ?a \<and> cfg (snd ?io) = cfg (machine s)"
    using assms make_address_enabled unfolding config_mechanism_def by blast
  then show ?thesis
    by (intro exI [of _ "snd ?io"])
      (simp add: read_pci_config_space_def register_at_def bnd_def write_address_def io_out_32_def update_def
        read_data_def io_in_32_def CONFIG_ADDRESS_ADDRESS_def CONFIG_DATA_ADDRESS_def case_prod_beta)
qed

lemma and_4_iff: "x AND 4 = 0 \<longleftrightarrow> \<not> bit x 2" for x :: u32
  using and_exp_eq_0_iff_not_bit [of x 2] by simp

lemma u64_halves: "push_bit 32 (ucast (hi :: u32)) OR ucast (lo :: u32) = (of_nat (unat hi * 2 ^ 32 + unat lo) :: u64)"
proof -
  have "push_bit 32 (ucast hi) AND ucast lo = (0 :: u64)"
    by (rule bit_eqI) (auto simp: bit_simps dest: bit_imp_le_length)
  then have "push_bit 32 (ucast hi) OR ucast lo = (push_bit 32 (ucast hi) + ucast lo :: u64)"
    by (simp add: disjunctive_add bit_eq_iff bit_simps)
  then show ?thesis by (simp add: push_bit_eq_mult unsigned_ucast_eq)
qed

text \<open>
  C22. \<open>read_base_addr\<close> on every branch: an index of 6 or more is the range error; a register with bit 2 clear is
  returned as it is; a register with bit 2 set is combined with the next one into the 64-bit value
  \<open>next * 2^32 + this\<close>, and is the range error when it is the last one. Nothing but the machine's address
  register changes. The value keeps the flag bits of the register, and bit 0 (an I/O port) is not consulted.
\<close>

theorem read_base_addr_result:
  assumes "config_mechanism hw cfg"
  shows "\<exists>d. read_base_addr hw self i s =
      (Ret (if i \<ge> 6 \<or> i = 5 \<and> bit (register_at (cfg (machine s)) self 5) 2
          then Err (PciError BaseAddressRegisterIndexOutOfRangeError)
        else if bit (register_at (cfg (machine s)) self i) 2
          then Ok (of_nat (unat (register_at (cfg (machine s)) self (Suc i)) * 2 ^ 32
            + unat (register_at (cfg (machine s)) self i)))
        else Ok (ucast (register_at (cfg (machine s)) self i))), s\<lparr>machine := d\<rparr>)
    \<and> cfg d = cfg (machine s)"
proof (cases "i < 6")
  case False
  then show ?thesis by (intro exI [of _ "machine s"]) (simp add: read_base_addr_def ret_def)
next
  case True
  let ?reg = "register_at (cfg (machine s)) self"
  obtain d where d: "read_pci_config_space hw self (of_nat (0x10 + 4 * i)) s = (Ret (?reg i), s\<lparr>machine := d\<rparr>)"
      "cfg d = cfg (machine s)"
    using read_pci_config_space_result [OF assms, of self i s] by blast
  obtain d' where d': "read_pci_config_space hw self (of_nat (0x10 + 4 * Suc i)) (s\<lparr>machine := d\<rparr>) =
      (Ret (?reg (Suc i)), s\<lparr>machine := d'\<rparr>)" "cfg d' = cfg (machine s)"
    using read_pci_config_space_result [OF assms, of self "Suc i" "s\<lparr>machine := d\<rparr>"] d(2) by auto
  have offset: "u8_add (of_nat (0x10 + 4 * i)) 4 u = (Ret (of_nat (0x10 + 4 * Suc i)), u)" for u :: "'e"
  proof -
    have "unat (of_nat (0x10 + 4 * i) :: u8) = 0x10 + 4 * i" "unat (4 :: u8) = 4"
      using True unfolding unat_of_nat by simp_all
    moreover have "(of_nat (0x10 + 4 * i) + 4 :: u8) = of_nat (0x10 + 4 * Suc i)" by simp
    ultimately show ?thesis
      using True unfolding u8_add_def by (simp only:) (simp add: ret_def)
  qed
  show ?thesis
    using True d d' unfolding read_base_addr_def Let_def
    by (cases "bit (?reg i) 2"; cases "i = 5")
      (auto simp: bnd_def [of "read_pci_config_space hw self _"] bnd_def [of "u8_add _ _"] ret_def
        and_4_iff offset u64_halves simp del: of_nat_add of_nat_mult)
qed

text \<open>An I/O port register with bit 2 of the port number set, followed by a memory register.\<close>

definition io_bar_config :: "u32 \<Rightarrow> u32" where
  "io_bar_config a = (if a = 0x80000010 then 0x0000c005 else if a = 0x80000014 then 0xfebf0000 else 0)"

theorem read_base_addr_result_witness:
  "\<exists>d. read_base_addr register_io (device_at io_bar_config 0 0 0) 0
      \<lparr>machine = (0, io_bar_config), devices = ArrayVec_new DEVICE_CAPACITY :: Device ArrayVec\<rparr> =
    (Ret (Ok 0xfebf00000000c005), \<lparr>machine = d, devices = ArrayVec_new DEVICE_CAPACITY\<rparr>)"
proof -
  let ?s = "\<lparr>machine = (0 :: u32, io_bar_config), devices = ArrayVec_new DEVICE_CAPACITY :: Device ArrayVec\<rparr>"
  have "register_at io_bar_config (device_at io_bar_config 0 0 0) 0 = 0x0000c005"
      "register_at io_bar_config (device_at io_bar_config 0 0 0) (Suc 0) = 0xfebf0000"
    by (simp_all add: register_at_def device_at_def make_address_def io_bar_config_def)
  moreover have "bit (0x0000c005 :: u32) 2" by simp
  ultimately show ?thesis
    using read_base_addr_result [OF register_io_mechanism, of "device_at io_bar_config 0 0 0" 0 ?s] by auto
qed

end
