(* ===== verification/Graphic.thy ===== *)
theory Graphic
  imports Prelude
begin

unbundle bit_operations_syntax

text \<open>
  Colors, pixels and the description of the frame buffer that the bootloader hands to the kernel:
  \<open>common/src/graphic.rs\<close> and \<open>common/src/error.rs\<close>. The UEFI graphics protocol is a parameter: the values its
  accessors return, with the pixel formats UEFI defines.
\<close>

section \<open>Errors and formats\<close>

datatype GraphicError = UnsupportedPixelFormat

fun GraphicError_msg :: "GraphicError \<Rightarrow> string" where
  "GraphicError_msg UnsupportedPixelFormat = ''Unsupported pixel format.''"

datatype CommonError = GraphicError GraphicError

fun CommonError_msg :: "CommonError \<Rightarrow> string" where
  "CommonError_msg (GraphicError graphic_err) = GraphicError_msg graphic_err"

fun CommonError_from :: "GraphicError \<Rightarrow> CommonError" where
  "CommonError_from err = GraphicError err"

datatype PixelFormat = Rgb | Bgr

datatype gop_pixel_format = GopRgb | GopBgr | GopBitmask | GopBltOnly

fun from_gop_pixel_format_type :: "gop_pixel_format \<Rightarrow> CommonError + PixelFormat" where
  "from_gop_pixel_format_type GopBgr = Ok Bgr"
| "from_gop_pixel_format_type GopRgb = Ok Rgb"
| "from_gop_pixel_format_type _ = Err (CommonError_from UnsupportedPixelFormat)"

record gop =
  gop_resolution :: "usize \<times> usize"
  gop_stride :: usize
  gop_pixel_format :: gop_pixel_format
  gop_frame_buffer :: u64
  gop_frame_buffer_size :: usize

record GraphicInfo =
  gi_width :: usize
  gi_height :: usize
  gi_stride :: usize
  gi_bytes_per_pixel :: usize
  gi_pixel_format :: PixelFormat
  gi_frame_buffer_addr :: u64
  gi_size :: usize

definition from_gop :: "gop \<Rightarrow> CommonError + GraphicInfo" where
  "from_gop gop =
     (let resolution = gop_resolution gop; width = fst resolution; height = snd resolution;
          stride = gop_stride gop; bytes_per_pixel = 4 in
      case from_gop_pixel_format_type (gop_pixel_format gop) of
        Inl e \<Rightarrow> Err e
      | Inr pixel_format \<Rightarrow> Ok \<lparr>gi_width = width, gi_height = height, gi_stride = stride,
          gi_bytes_per_pixel = bytes_per_pixel, gi_pixel_format = pixel_format,
          gi_frame_buffer_addr = gop_frame_buffer gop, gi_size = gop_frame_buffer_size gop\<rparr>)"

section \<open>Bytes\<close>

text \<open>Rust's \<open>u32::from_be_bytes\<close>, and \<open>u32::from_be\<close> on a little-endian machine, which swaps the bytes.\<close>

definition u32_from_be_bytes :: "u8 \<Rightarrow> u8 \<Rightarrow> u8 \<Rightarrow> u8 \<Rightarrow> u32" where
  "u32_from_be_bytes a b c d =
     push_bit 24 (ucast a) OR push_bit 16 (ucast b) OR push_bit 8 (ucast c) OR ucast d"

definition u32_byte :: "u32 \<Rightarrow> nat \<Rightarrow> u8" where
  "u32_byte w k = ucast (drop_bit (8 * k) w)"

definition u32_from_be :: "u32 \<Rightarrow> u32" where
  "u32_from_be w = u32_from_be_bytes (u32_byte w 0) (u32_byte w 1) (u32_byte w 2) (u32_byte w 3)"

lemma u32_byte_bit: "bit (u32_byte w k) n \<longleftrightarrow> n < 8 \<and> bit w (8 * k + n)"
  by (auto simp: u32_byte_def bit_simps dest: bit_imp_le_length)

lemma u8_bits: "bit w n \<Longrightarrow> n < 8" for w :: u8
  using bit_imp_le_length [of w n] by simp

lemma u32_byte_from_be_bytes:
  "u32_byte (u32_from_be_bytes a b c d) 0 = d" "u32_byte (u32_from_be_bytes a b c d) 1 = c"
  "u32_byte (u32_from_be_bytes a b c d) 2 = b" "u32_byte (u32_from_be_bytes a b c d) 3 = a"
  "u32_byte (u32_from_be_bytes a b c d) (Suc 0) = c"
  by (rule bit_eqI; auto simp: u32_byte_bit u32_from_be_bytes_def bit_simps dest: u8_bits)+

lemma u32_byte_from_be:
  "u32_byte (u32_from_be w) 0 = u32_byte w 3" "u32_byte (u32_from_be w) 1 = u32_byte w 2"
  "u32_byte (u32_from_be w) 2 = u32_byte w 1" "u32_byte (u32_from_be w) 3 = u32_byte w 0"
  by (simp_all only: u32_from_be_def u32_byte_from_be_bytes)

section \<open>Pixels and colors\<close>

text \<open>Both are a \<open>u32\<close> \<open>0xRRGGBB00\<close>.\<close>

type_synonym Pixel = u32
type_synonym RgbColor = u32

definition Pixel_get :: "Pixel \<Rightarrow> u32" where "Pixel_get self = self"

definition Pixel_from_u32 :: "u32 \<Rightarrow> Pixel" where "Pixel_from_u32 value = value"

definition RgbColor_get :: "RgbColor \<Rightarrow> u32" where "RgbColor_get self = self"

definition RgbColor_from_u32 :: "u32 \<Rightarrow> RgbColor" where "RgbColor_from_u32 value = value"

lemmas color_wrappers [simp] = Pixel_get_def Pixel_from_u32_def RgbColor_get_def RgbColor_from_u32_def

definition Pixel_new :: Pixel where "Pixel_new = 0x00000000"

definition Pixel_rgb :: "u8 \<Rightarrow> u8 \<Rightarrow> u8 \<Rightarrow> Pixel" where
  "Pixel_rgb r g b = u32_from_be_bytes r g b 0x0"

definition Pixel_bgr :: "Pixel \<Rightarrow> Pixel" where
  "Pixel_bgr self =
     (let r = ucast (drop_bit 0x18 (self AND 0xff000000)); g = ucast (drop_bit 0x10 (self AND 0xff0000));
          b = ucast (drop_bit 0x8 (self AND 0xff00)) in
      u32_from_be_bytes b g r 0)"

definition Pixel_le :: "Pixel \<Rightarrow> u32" where
  "Pixel_le self = u32_from_be self"

definition Pixel_from_RgbColor :: "RgbColor \<Rightarrow> Pixel" where
  "Pixel_from_RgbColor value = RgbColor_get value AND 0xFFFFFF00"

definition RgbColor_new :: RgbColor where "RgbColor_new = 0x00000000"

definition RgbColor_rgb :: "u8 \<Rightarrow> u8 \<Rightarrow> u8 \<Rightarrow> RgbColor" where
  "RgbColor_rgb r g b = u32_from_be_bytes r g b 0x00"

definition RgbColor_to_bgr :: "RgbColor \<Rightarrow> RgbColor" where
  "RgbColor_to_bgr self =
     (let r = ucast (drop_bit 0x18 (self AND 0xff000000)); g = ucast (drop_bit 0x10 (self AND 0xff0000));
          b = ucast (drop_bit 0x8 (self AND 0xff00)) in
      u32_from_be_bytes b g r 0)"

definition RgbColor_from_Pixel :: "Pixel \<Rightarrow> RgbColor" where
  "RgbColor_from_Pixel value = Pixel_get value AND 0xFFFFFF00"

text \<open>The three components of a color.\<close>

definition rgb_of :: "u32 \<Rightarrow> u8 \<times> u8 \<times> u8" where
  "rgb_of c = (u32_byte c 3, u32_byte c 2, u32_byte c 1)"

lemma Pixel_bgr_eq: "Pixel_bgr p = u32_from_be_bytes (u32_byte p 1) (u32_byte p 2) (u32_byte p 3) 0"
proof -
  have masks: "(0xff000000 :: u32) = push_bit 24 (mask 8)" "(0xff0000 :: u32) = push_bit 16 (mask 8)"
      "(0xff00 :: u32) = push_bit 8 (mask 8)"
    by (simp_all add: mask_eq_exp_minus_1)
  have "(ucast (drop_bit 0x18 (p AND 0xff000000)) :: u8) = u32_byte p 3"
      "(ucast (drop_bit 0x10 (p AND 0xff0000)) :: u8) = u32_byte p 2"
      "(ucast (drop_bit 0x8 (p AND 0xff00)) :: u8) = u32_byte p 1"
    unfolding masks by (rule bit_eqI; auto simp: u32_byte_bit bit_simps dest: bit_imp_le_length)+
  then show ?thesis by (simp add: Pixel_bgr_def)
qed

lemma Pixel_from_bytes:
  "u32_byte (Pixel_from_RgbColor c) 0 = 0" "u32_byte (Pixel_from_RgbColor c) 1 = u32_byte c 1"
  "u32_byte (Pixel_from_RgbColor c) 2 = u32_byte c 2" "u32_byte (Pixel_from_RgbColor c) 3 = u32_byte c 3"
proof -
  have mask: "(0xFFFFFF00 :: u32) = NOT (mask 8)" by (simp add: mask_eq_exp_minus_1)
  show "u32_byte (Pixel_from_RgbColor c) 0 = 0" "u32_byte (Pixel_from_RgbColor c) 1 = u32_byte c 1"
    "u32_byte (Pixel_from_RgbColor c) 2 = u32_byte c 2" "u32_byte (Pixel_from_RgbColor c) 3 = u32_byte c 3"
    unfolding Pixel_from_RgbColor_def mask
    by (rule bit_eqI; auto simp: u32_byte_bit bit_simps)+
qed

text \<open>
  Colors survive the conversions: the pixel of a color has its three components and a zero fourth byte;
  written in little-endian order, a pixel puts red, green, blue, zero at increasing addresses, and after \<open>bgr\<close>
  blue, green, red, zero; swapping to BGR twice is the identity on what a color converts to.
\<close>

theorem pixel_byte_order:
  "rgb_of (RgbColor_rgb r g b) = (r, g, b)
   \<and> rgb_of (Pixel_from_RgbColor c) = rgb_of c \<and> u32_byte (Pixel_from_RgbColor c) 0 = 0
   \<and> map (u32_byte (Pixel_le (Pixel_rgb r g b))) [0, 1, 2, 3] = [r, g, b, 0]
   \<and> map (u32_byte (Pixel_le (Pixel_bgr (Pixel_rgb r g b)))) [0, 1, 2, 3] = [b, g, r, 0]
   \<and> Pixel_bgr (Pixel_bgr (Pixel_rgb r g b)) = Pixel_rgb r g b
   \<and> RgbColor_to_bgr = Pixel_bgr"
proof -
  have "RgbColor_to_bgr = Pixel_bgr"
    by (rule ext) (simp add: RgbColor_to_bgr_def Pixel_bgr_def)
  then show ?thesis
    by (simp add: rgb_of_def RgbColor_rgb_def Pixel_rgb_def Pixel_le_def Pixel_bgr_eq Pixel_from_bytes
        u32_byte_from_be_bytes u32_byte_from_be del: One_nat_def)
qed

end
