(* ===== verification/Frame_Buffer.thy ===== *)
theory Frame_Buffer
  imports Graphic Font Kernel_Error
begin

unbundle bit_operations_syntax

text \<open>
  The frame buffer: \<open>kernel/src/graphic/frame_buffer.rs\<close>. The state has the static \<open>FRAME_BUF\<close>, whether its
  spin lock is held, and the memory as bytes. The function pointer \<open>write_pixel\<close> is a tag with the two
  functions it can point to. \<open>as_ascii\<close> on a \<open>str\<close> is \<open>None\<close> when a byte is 128 or more.

  The lemmas lift the byte-level code to pictures: \<open>pixel_color s x y\<close> decodes a pixel from memory, and the
  drawing operations are functions on such pictures. Its address is the driver's, with the width of the mode; the screen
  finds its pixels with the stride (\<open>shown_color\<close>), and the two agree on modes without padding.
\<close>

section \<open>State\<close>

datatype pixel_writer = Write_pixel_rgb | Write_pixel_bgr

record FrameBuf =
  fb_width :: usize
  fb_height :: usize
  fb_bytes_per_pixel :: usize
  fb_stride :: usize
  fb_pixel_format :: PixelFormat
  framebuf_addr :: u64
  framebuf_size :: usize
  fb_write_pixel :: pixel_writer

definition FrameBuf_new :: FrameBuf where
  "FrameBuf_new = \<lparr>fb_width = 0, fb_height = 0, fb_bytes_per_pixel = 0, fb_stride = 0, fb_pixel_format = Bgr,
     framebuf_addr = 0, framebuf_size = 0, fb_write_pixel = Write_pixel_bgr\<rparr>"

record display =
  frame_buf :: FrameBuf
  frame_buf_locked :: bool
  memory :: "u64 \<Rightarrow> u8"

type_synonym 'a draw = "(display, Error + 'a) prog"

text \<open>A \<open>u32\<close> store through a raw pointer; a misaligned pointer panics in a debug build.\<close>

definition store_u32 :: "u64 \<Rightarrow> u32 \<Rightarrow> (display, unit) prog" where
  "store_u32 a v = (if unat a mod 4 = 0 then
     update (\<lambda>s. s\<lparr>memory := (memory s)(a := u32_byte v 0, a + 1 := u32_byte v 1, a + 2 := u32_byte v 2,
       a + 3 := u32_byte v 3)\<rparr>)
     else panic)"

section \<open>Drawing\<close>

definition is_inside_buffer :: "FrameBuf \<Rightarrow> usize \<Rightarrow> usize \<Rightarrow> bool" where
  "is_inside_buffer self x y \<longleftrightarrow> \<not> (x \<ge> fb_width self \<or> y \<ge> fb_height self)"

definition write_pixel_rgb :: "usize \<Rightarrow> usize \<Rightarrow> Pixel \<Rightarrow> unit draw" where
  "write_pixel_rgb x y pixel = bnd get (\<lambda>s. let self = frame_buf s in
     if \<not> is_inside_buffer self x y then ret (Err (FrameBufferError OutsideBufferError))
     else
       bnd (usize_mul y (fb_width self)) (\<lambda>yw.
       bnd (usize_add yw x) (\<lambda>i.
       bnd (usize_mul i (fb_bytes_per_pixel self)) (\<lambda>offset.
       bnd (u64_add (framebuf_addr self) (of_nat offset)) (\<lambda>pixel_ref.
       bnd (store_u32 pixel_ref (Pixel_le pixel)) (\<lambda>_. ret (Ok ())))))))"

definition write_pixel_bgr :: "usize \<Rightarrow> usize \<Rightarrow> Pixel \<Rightarrow> unit draw" where
  "write_pixel_bgr x y pixel = bnd get (\<lambda>s. let self = frame_buf s in
     if \<not> is_inside_buffer self x y then ret (Err (FrameBufferError OutsideBufferError))
     else
       bnd (usize_mul y (fb_width self)) (\<lambda>yw.
       bnd (usize_add yw x) (\<lambda>i.
       bnd (usize_mul i (fb_bytes_per_pixel self)) (\<lambda>offset.
       bnd (u64_add (framebuf_addr self) (of_nat offset)) (\<lambda>pixel_ref.
       let pixel = Pixel_bgr pixel in
       bnd (store_u32 pixel_ref (Pixel_le pixel)) (\<lambda>_. ret (Ok ())))))))"

definition FrameBuf_write_pixel :: "usize \<Rightarrow> usize \<Rightarrow> Pixel \<Rightarrow> unit draw" where
  "FrameBuf_write_pixel x y pixel = bnd get (\<lambda>s. case fb_write_pixel (frame_buf s) of
      Write_pixel_rgb \<Rightarrow> write_pixel_rgb x y pixel
    | Write_pixel_bgr \<Rightarrow> write_pixel_bgr x y pixel)"

definition FrameBuf_fill :: "RgbColor \<Rightarrow> unit draw" where
  "FrameBuf_fill color = bnd get (\<lambda>s.
     for_eachE [0..<fb_width (frame_buf s)] (\<lambda>x.
     for_eachE [0..<fb_height (frame_buf s)] (\<lambda>y.
     FrameBuf_write_pixel x y (Pixel_from_RgbColor color))))"

definition FrameBuf_init :: "GraphicInfo \<Rightarrow> RgbColor \<Rightarrow> unit draw" where
  "FrameBuf_init graphic_info bg_color =
     bnd (update (\<lambda>s. s\<lparr>frame_buf := \<lparr>fb_width = gi_width graphic_info, fb_height = gi_height graphic_info,
       fb_bytes_per_pixel = gi_bytes_per_pixel graphic_info, fb_stride = gi_stride graphic_info,
       fb_pixel_format = gi_pixel_format graphic_info, framebuf_addr = gi_frame_buffer_addr graphic_info,
       framebuf_size = gi_size graphic_info,
       fb_write_pixel = (case gi_pixel_format graphic_info of
          Rgb \<Rightarrow> Write_pixel_rgb | Bgr \<Rightarrow> Write_pixel_bgr)\<rparr>\<rparr>)) (\<lambda>_.
     bndE (FrameBuf_fill bg_color) (\<lambda>_. ret (Ok ())))"

definition FrameBuf_fill_rect :: "usize \<Rightarrow> usize \<Rightarrow> usize \<Rightarrow> usize \<Rightarrow> RgbColor \<Rightarrow> unit draw" where
  "FrameBuf_fill_rect x y width height color =
     bnd (usize_add x width) (\<lambda>x_end.
     for_eachE [x..<x_end] (\<lambda>x_inner.
     bnd (usize_add y height) (\<lambda>y_end.
     for_eachE [y..<y_end] (\<lambda>y_inner.
     FrameBuf_write_pixel x_inner y_inner (Pixel_from_RgbColor color)))))"

definition FrameBuf_draw_rect :: "usize \<Rightarrow> usize \<Rightarrow> usize \<Rightarrow> usize \<Rightarrow> RgbColor \<Rightarrow> unit draw" where
  "FrameBuf_draw_rect x y width height color =
     bnd (usize_add x width) (\<lambda>x_end.
     bndE (for_eachE [x..<x_end] (\<lambda>x_inner.
       bndE (FrameBuf_write_pixel x_inner y (Pixel_from_RgbColor color)) (\<lambda>_.
       bnd (usize_add y height) (\<lambda>y_end.
       bnd (usize_sub y_end 1) (\<lambda>y_last.
       FrameBuf_write_pixel x_inner y_last (Pixel_from_RgbColor color)))))) (\<lambda>_.
     bnd (usize_add y height) (\<lambda>y_end.
     for_eachE [y..<y_end] (\<lambda>y_inner.
       bndE (FrameBuf_write_pixel x y_inner (Pixel_from_RgbColor color)) (\<lambda>_.
       bnd (usize_add x width) (\<lambda>x_end.
       bnd (usize_sub x_end 1) (\<lambda>x_last.
       FrameBuf_write_pixel x_last y_inner (Pixel_from_RgbColor color))))))))"

text \<open>An \<open>ascii::Char\<close> is a code below 128.\<close>

definition glyph_of :: "nat \<Rightarrow> u8 list" where
  "glyph_of glyph_index = (if glyph_index \<ge> length U8_FONT then GARBLED_FONT else U8_FONT ! glyph_index)"

definition FrameBuf_write_char :: "usize \<Rightarrow> usize \<Rightarrow> char \<Rightarrow> RgbColor \<Rightarrow> unit draw" where
  "FrameBuf_write_char x y ascii fg =
     (let glyph = glyph_of (of_char ascii) in
      for_eachE (enumerate 0 glyph) (\<lambda>(dy, row).
      for_eachE [0..<CHARACTER_WIDTH] (\<lambda>dx.
        if drop_bit (7 - dx) row AND 1 = 1 then
          bnd (usize_add x dx) (\<lambda>px.
          bnd (usize_add y dy) (\<lambda>py.
          FrameBuf_write_pixel px py (Pixel_from_RgbColor fg)))
        else ret (Ok ()))))"

definition as_ascii :: "string \<Rightarrow> string option" where
  "as_ascii s = (if list_all (\<lambda>c. (of_char c :: nat) < 128) s then Some s else None)"

definition FrameBuf_write_string :: "usize \<Rightarrow> usize \<Rightarrow> string \<Rightarrow> RgbColor \<Rightarrow> unit draw" where
  "FrameBuf_write_string x y data fg =
     bnd (expect (as_ascii data)) (\<lambda>chars.
     for_eachE (enumerate 0 chars) (\<lambda>(i, c).
       bnd (usize_mul i CHARACTER_WIDTH) (\<lambda>iw.
       bnd (usize_mul iw 2) (\<lambda>iw2.
       bnd (usize_add x iw2) (\<lambda>cx.
       FrameBuf_write_char cx y c fg)))))"

section \<open>The locked entry points\<close>

text \<open>
  \<open>frame_buf()?.op(..)?\<close>: the lock is tried, an \<open>Err\<close> is returned when it is held, and the guard is
  dropped when the statement ends, with an error or without; a panic leaves it locked.
\<close>

definition with_frame_buf :: "'a draw \<Rightarrow> 'a draw" where
  "with_frame_buf m = bnd get (\<lambda>s.
     if frame_buf_locked s then ret (Err (FrameBufferError FrameBufferLockError))
     else
       bnd (update (\<lambda>s. s\<lparr>frame_buf_locked := True\<rparr>)) (\<lambda>_.
       bnd m (\<lambda>r.
       bnd (update (\<lambda>s. s\<lparr>frame_buf_locked := False\<rparr>)) (\<lambda>_. ret r))))"

definition write_pixel :: "usize \<Rightarrow> usize \<Rightarrow> Pixel \<Rightarrow> unit draw" where
  "write_pixel x y pixel = bndE (with_frame_buf (FrameBuf_write_pixel x y pixel)) (\<lambda>_. ret (Ok ()))"

definition write_char :: "usize \<Rightarrow> usize \<Rightarrow> char \<Rightarrow> RgbColor \<Rightarrow> unit draw" where
  "write_char x y c fg = bndE (with_frame_buf (FrameBuf_write_char x y c fg)) (\<lambda>_. ret (Ok ()))"

definition fill :: "RgbColor \<Rightarrow> unit draw" where
  "fill color = bndE (with_frame_buf (FrameBuf_fill color)) (\<lambda>_. ret (Ok ()))"

definition fill_rect :: "usize \<Rightarrow> usize \<Rightarrow> usize \<Rightarrow> usize \<Rightarrow> RgbColor \<Rightarrow> unit draw" where
  "fill_rect x y width height color =
     bndE (with_frame_buf (FrameBuf_fill_rect x y width height color)) (\<lambda>_. ret (Ok ()))"

definition draw_rect :: "usize \<Rightarrow> usize \<Rightarrow> usize \<Rightarrow> usize \<Rightarrow> RgbColor \<Rightarrow> unit draw" where
  "draw_rect x y width height color =
     bndE (with_frame_buf (FrameBuf_draw_rect x y width height color)) (\<lambda>_. ret (Ok ()))"

definition FrameBuf_get_width :: "FrameBuf \<Rightarrow> usize" where "FrameBuf_get_width self = fb_width self"

definition FrameBuf_get_height :: "FrameBuf \<Rightarrow> usize" where "FrameBuf_get_height self = fb_height self"

definition frame_buffer_width :: "usize draw" where
  "frame_buffer_width = with_frame_buf (bnd get (\<lambda>s. ret (Ok (FrameBuf_get_width (frame_buf s)))))"

definition frame_buffer_height :: "usize draw" where
  "frame_buffer_height = with_frame_buf (bnd get (\<lambda>s. ret (Ok (FrameBuf_get_height (frame_buf s)))))"

section \<open>Pictures\<close>

text \<open>
  The contract of drawing one pixel in a fixed color, and what loops of such calls do. \<open>view\<close> is the picture,
  \<open>rest\<close> everything the call must leave alone, \<open>W\<close> and \<open>H\<close> the size.
\<close>

locale plotter =
  fixes plot :: "nat \<Rightarrow> nat \<Rightarrow> ('s, Error + unit) prog"
    and view :: "'s \<Rightarrow> nat \<Rightarrow> nat \<Rightarrow> 'c"
    and rest :: "'s \<Rightarrow> 'r"
    and ok :: "'s \<Rightarrow> bool"
    and ink :: 'c
    and W :: nat
    and H :: nat
  assumes plot_in: "ok s \<Longrightarrow> x < W \<Longrightarrow> y < H \<Longrightarrow> \<exists>t. plot x y s = (Ret (Ok ()), t) \<and> ok t \<and> rest t = rest s \<and>
      (\<forall>x' y'. x' < W \<longrightarrow> y' < H \<longrightarrow> view t x' y' = (if x' = x \<and> y' = y then ink else view s x' y'))"
    and plot_out: "ok s \<Longrightarrow> \<not> (x < W \<and> y < H) \<Longrightarrow>
      plot x y s = (Ret (Err (FrameBufferError OutsideBufferError)), s)"
begin

definition painted :: "(nat \<Rightarrow> nat \<Rightarrow> bool) \<Rightarrow> 's \<Rightarrow> 's \<Rightarrow> bool" where
  "painted P s t \<longleftrightarrow> ok t \<and> rest t = rest s \<and>
     (\<forall>x y. x < W \<longrightarrow> y < H \<longrightarrow> view t x y = (if P x y then ink else view s x y))"

definition inside :: "nat \<times> nat \<Rightarrow> bool" where
  "inside p \<longleftrightarrow> fst p < W \<and> snd p < H"

lemma painted_refl: "ok s \<Longrightarrow> painted (\<lambda>_ _. False) s s"
  by (simp add: painted_def)

lemma painted_step: "painted P s u \<Longrightarrow> painted Q u t \<Longrightarrow> painted (\<lambda>x y. P x y \<or> Q x y) s t"
  by (simp add: painted_def)

lemma painted_cong:
  "painted P s t \<Longrightarrow> (\<And>x y. x < W \<Longrightarrow> y < H \<Longrightarrow> P x y = Q x y) \<Longrightarrow> painted Q s t"
  by (simp add: painted_def)

lemma plot_points:
  "ok s \<Longrightarrow> \<exists>t. for_eachE ps (\<lambda>(x, y). plot x y) s =
      (Ret (if list_all inside ps then Ok () else Err (FrameBufferError OutsideBufferError)), t)
    \<and> painted (\<lambda>x y. (x, y) \<in> set (takeWhile inside ps)) s t"
proof (induction ps arbitrary: s)
  case Nil
  then show ?case by (simp add: ret_def painted_refl)
next
  case (Cons p ps)
  obtain x y where p: "p = (x, y)" by (cases p)
  show ?case
  proof (cases "inside p")
    case True
    with Cons.prems obtain u where u: "plot x y s = (Ret (Ok ()), u)" "ok u"
        "painted (\<lambda>x' y'. x' = x \<and> y' = y) s u"
      using plot_in [of s x y] by (auto simp: inside_def p painted_def)
    obtain t where t: "for_eachE ps (\<lambda>(x, y). plot x y) u =
        (Ret (if list_all inside ps then Ok () else Err (FrameBufferError OutsideBufferError)), t)"
        "painted (\<lambda>x y. (x, y) \<in> set (takeWhile inside ps)) u t"
      using Cons.IH [OF u(2)] by blast
    have "painted (\<lambda>x' y'. (x', y') \<in> set (takeWhile inside (p # ps))) s t"
      by (rule painted_cong [OF painted_step [OF u(3) t(2)]]) (use True p in auto)
    with t(1) True p show ?thesis by (simp add: bndE_Ret_Ok [where m = "plot x y", OF u(1)])
  next
    case False
    then have "plot x y s = (Ret (Err (FrameBufferError OutsideBufferError)), s)"
      using plot_out [OF Cons.prems] by (simp add: inside_def p)
    with False p show ?thesis
      using painted_refl [OF Cons.prems] by (auto simp: bndE_Ret_Err)
  qed
qed

lemma plot_all_points:
  assumes "ok s" "list_all inside ps"
  shows "\<exists>t. for_eachE ps (\<lambda>(x, y). plot x y) s = (Ret (Ok ()), t) \<and> painted (\<lambda>x y. (x, y) \<in> set ps) s t"
proof -
  have "takeWhile inside ps = ps"
    using assms(2) by (simp add: takeWhile_eq_all_conv list_all_iff)
  with plot_points [OF assms(1), of ps] assms(2) show ?thesis by simp
qed

end

section \<open>The frame buffer is a plotter\<close>

text \<open>
  The pixel the driver means by \<open>(x, y)\<close>: \<open>pixel_offset\<close> is the addressing of the driver, which multiplies \<open>y\<close> by the width.
  It is where the display controller looks for that pixel only when the scan lines have no padding (below,
  \<open>shown_color\<close>).
\<close>

definition pixel_offset :: "FrameBuf \<Rightarrow> nat \<Rightarrow> nat \<Rightarrow> nat" where
  "pixel_offset fb x y = 4 * (y * fb_width fb + x)"

definition fb_byte :: "display \<Rightarrow> nat \<Rightarrow> u8" where
  "fb_byte s k = memory s (framebuf_addr (frame_buf s) + of_nat k)"

definition pixel_color :: "display \<Rightarrow> nat \<Rightarrow> nat \<Rightarrow> u8 \<times> u8 \<times> u8" where
  "pixel_color s x y = (let o0 = pixel_offset (frame_buf s) x y in
     case fb_write_pixel (frame_buf s) of
       Write_pixel_rgb \<Rightarrow> (fb_byte s o0, fb_byte s (o0 + 1), fb_byte s (o0 + 2))
     | Write_pixel_bgr \<Rightarrow> (fb_byte s (o0 + 2), fb_byte s (o0 + 1), fb_byte s o0))"

text \<open>What the screen shows: UEFI puts the pixel \<open>(x, y)\<close> of a mode at pixel index \<open>y * stride + x\<close>.\<close>

definition shown_color :: "display \<Rightarrow> nat \<Rightarrow> nat \<Rightarrow> u8 \<times> u8 \<times> u8" where
  "shown_color s x y = (let o0 = 4 * (y * fb_stride (frame_buf s) + x) in
     case fb_write_pixel (frame_buf s) of
       Write_pixel_rgb \<Rightarrow> (fb_byte s o0, fb_byte s (o0 + 1), fb_byte s (o0 + 2))
     | Write_pixel_bgr \<Rightarrow> (fb_byte s (o0 + 2), fb_byte s (o0 + 1), fb_byte s o0))"

lemma shown_is_pixel:
  assumes "fb_width (frame_buf s) = W" "y * W + x = Y * fb_stride (frame_buf s) + X"
  shows "shown_color s X Y = pixel_color s x y"
  using assms by (simp add: shown_color_def pixel_color_def pixel_offset_def)

text \<open>Without padding the screen shows what the driver means.\<close>

lemma unpadded_shows: "fb_stride (frame_buf s) = fb_width (frame_buf s) \<Longrightarrow> shown_color s x y = pixel_color s x y"
  by (rule shown_is_pixel [OF refl]) simp

text \<open>The frame buffer lies in memory, aligned, and an initialised \<open>FrameBuf\<close> of size \<open>W\<close> by \<open>H\<close> describes it.\<close>

definition fb_ok :: "nat \<Rightarrow> nat \<Rightarrow> display \<Rightarrow> bool" where
  "fb_ok W H s \<longleftrightarrow> fb_width (frame_buf s) = W \<and> fb_height (frame_buf s) = H \<and>
     fb_bytes_per_pixel (frame_buf s) = 4 \<and> unat (framebuf_addr (frame_buf s)) mod 4 = 0 \<and>
     unat (framebuf_addr (frame_buf s)) + 4 * (W * H) \<le> 2 ^ 64 \<and> W < 2 ^ 64 \<and> H < 2 ^ 64"

text \<open>Everything but the pixels: the structure, the lock, and the bytes outside the pixels.\<close>

definition fb_rest :: "display \<Rightarrow> FrameBuf \<times> bool \<times> (u64 \<Rightarrow> u8 option)" where
  "fb_rest s = (frame_buf s, frame_buf_locked s, \<lambda>a.
     if \<exists>k < 4 * (fb_width (frame_buf s) * fb_height (frame_buf s)). a = framebuf_addr (frame_buf s) + of_nat k
     then None else Some (memory s a))"

lemma pixel_offset_bound: "x < W \<Longrightarrow> y < H \<Longrightarrow> 4 * (y * W + x) + 4 \<le> 4 * (W * H)" for W :: nat
proof -
  assume "x < W" "y < H"
  then have "y * W + x + 1 \<le> y * W + W" by simp
  also have "\<dots> = Suc y * W" by simp
  also have "\<dots> \<le> H * W" using \<open>y < H\<close> by (intro mult_right_mono) simp_all
  finally show ?thesis by (simp add: mult.commute)
qed

lemma of_nat_u64_inj: "a < 2 ^ 64 \<Longrightarrow> b < 2 ^ 64 \<Longrightarrow> (of_nat a :: u64) = of_nat b \<longleftrightarrow> a = b"
  unfolding word_unat_eq_iff unat_of_nat by simp

text \<open>A four-byte store into the frame buffer, byte by byte.\<close>

lemma store_bytes:
  fixes m m' :: "u64 \<Rightarrow> u8" and A :: u64 and b0 b1 b2 b3 :: u8
  assumes "o0 + 4 \<le> N" "N \<le> 2 ^ 64"
  defines "m' \<equiv> m(A + of_nat o0 := b0, A + of_nat o0 + 1 := b1, A + of_nat o0 + 2 := b2, A + of_nat o0 + 3 := b3)"
  shows "k < N \<Longrightarrow> m' (A + of_nat k :: u64) = (if k = o0 then b0 else if k = o0 + 1 then b1
      else if k = o0 + 2 then b2 else if k = o0 + 3 then b3 else m (A + of_nat k))"
    and "\<nexists>k. k < N \<and> a = A + of_nat k \<Longrightarrow> m' a = m a"
proof -
  have sums: "A + of_nat o0 + 1 = A + of_nat (o0 + 1)" "A + of_nat o0 + 2 = A + of_nat (o0 + 2)"
      "A + of_nat o0 + 3 = A + of_nat (o0 + 3)"
    by simp_all
  have inj: "A + of_nat i = A + of_nat j \<longleftrightarrow> i = j" if "i < N" "j < N" for i j
    using of_nat_u64_inj [of i j] that assms(2) by simp
  show "m' (A + of_nat k) = (if k = o0 then b0 else if k = o0 + 1 then b1
      else if k = o0 + 2 then b2 else if k = o0 + 3 then b3 else m (A + of_nat k))" if "k < N"
  proof -
    have "o0 < N" "o0 + 1 < N" "o0 + 2 < N" "o0 + 3 < N" using assms(1) by simp_all
    note eqs = this [THEN inj [OF that]]
    show ?thesis unfolding m'_def sums fun_upd_apply eqs by auto
  qed
  show "m' a = m a" if none: "\<nexists>k. k < N \<and> a = A + of_nat k"
  proof -
    have "a \<noteq> A + of_nat (o0 + i)" if "i < 4" for i
      using none assms(1) that by (metis add_less_cancel_left less_le_trans)
    from this [of 0] this [of 1] this [of 2] this [of 3] show ?thesis
      by (simp add: m'_def sums del: of_nat_add)
  qed
qed

definition stored_bytes :: "display \<Rightarrow> RgbColor \<Rightarrow> u32" where
  "stored_bytes s c = Pixel_le (case fb_write_pixel (frame_buf s) of
      Write_pixel_rgb \<Rightarrow> Pixel_from_RgbColor c | Write_pixel_bgr \<Rightarrow> Pixel_bgr (Pixel_from_RgbColor c))"

lemma write_pixel_inside:
  fixes s :: display and c :: RgbColor and x y :: nat
  assumes "fb_ok W H s" "x < W" "y < H"
  defines "A \<equiv> framebuf_addr (frame_buf s) + of_nat (pixel_offset (frame_buf s) x y)" and "v \<equiv> stored_bytes s c"
  shows "FrameBuf_write_pixel x y (Pixel_from_RgbColor c) s = (Ret (Ok ()), s\<lparr>memory := (memory s)(
    A := u32_byte v 0, A + 1 := u32_byte v 1, A + 2 := u32_byte v 2, A + 3 := u32_byte v 3)\<rparr>)"
proof -
  let ?fb = "frame_buf s"
  have ok: "fb_width ?fb = W" "fb_height ?fb = H" "fb_bytes_per_pixel ?fb = 4"
    "unat (framebuf_addr ?fb) mod 4 = 0" "unat (framebuf_addr ?fb) + 4 * (W * H) \<le> 2 ^ 64"
    using assms(1) by (simp_all add: fb_ok_def)
  have room: "unat (framebuf_addr ?fb) + 4 * (y * W + x) < 2 ^ 64"
    using pixel_offset_bound [OF assms(2,3)] ok(5) by linarith
  then have off: "unat (of_nat (4 * (y * W + x)) :: u64) = 4 * (y * W + x)"
    unfolding unat_of_nat by simp
  have sum: "unat (framebuf_addr ?fb + of_nat (4 * (y * W + x))) = unat (framebuf_addr ?fb) + 4 * (y * W + x)"
    using room off by (subst unat_plus_if') simp
  then have aligned: "unat (framebuf_addr ?fb + of_nat (4 * (y * W + x))) mod 4 = 0"
    using ok(4) by (simp only: mod_mult_self2)
  have small: "(y * W + x) * 4 < 2 ^ 64" using room by linarith
  then have small': "y * W < 2 ^ 64" "y * W + x < 2 ^ 64" by simp_all
  have run: "bnd (usize_mul y W) (\<lambda>yw. bnd (usize_add yw x) (\<lambda>i. bnd (usize_mul i 4) (\<lambda>offset.
      bnd (u64_add (framebuf_addr ?fb) (of_nat offset)) f))) s = f (framebuf_addr ?fb + of_nat (4 * (y * W + x))) s"
    for f :: "u64 \<Rightarrow> unit draw"
    using small small' room off by (simp add: usize_mul_def usize_add_def u64_add_def mult.commute [of _ 4] del: of_nat_mult of_nat_add)
  have A: "A = framebuf_addr ?fb + of_nat (4 * (y * W + x))"
    by (simp add: A_def pixel_offset_def ok)
  show ?thesis
    unfolding v_def stored_bytes_def A
    using assms(2,3) aligned
    by (cases "fb_write_pixel ?fb")
      (simp_all add: FrameBuf_write_pixel_def bnd_def [of get] get_def write_pixel_rgb_def write_pixel_bgr_def
        is_inside_buffer_def ok run Let_def store_u32_def update_def bnd_def [where m = "update f" for f] ret_def
        del: of_nat_mult of_nat_add)
qed

lemma write_pixel_plots:
  assumes "fb_ok W H s" "x < W" "y < H"
  shows "\<exists>t. FrameBuf_write_pixel x y (Pixel_from_RgbColor c) s = (Ret (Ok ()), t) \<and> fb_ok W H t \<and>
    fb_rest t = fb_rest s \<and> (\<forall>x' y'. x' < W \<longrightarrow> y' < H \<longrightarrow>
      pixel_color t x' y' = (if x' = x \<and> y' = y then rgb_of c else pixel_color s x' y'))"
proof -
  let ?fb = "frame_buf s" and ?v = "stored_bytes s c" and ?N = "4 * (W * H)"
  let ?A = "framebuf_addr ?fb + of_nat (pixel_offset ?fb x y)"
  define t where "t = s\<lparr>memory := (memory s)(?A := u32_byte ?v 0, ?A + 1 := u32_byte ?v 1, ?A + 2 := u32_byte ?v 2,
    ?A + 3 := u32_byte ?v 3)\<rparr>"
  have ok: "fb_width ?fb = W" "fb_height ?fb = H" "?N \<le> 2 ^ 64"
    using assms(1) unfolding fb_ok_def by (blast, blast, linarith)
  have offset: "pixel_offset ?fb x' y' = 4 * (y' * W + x')" for x' y'
    by (simp add: pixel_offset_def ok)
  have room: "pixel_offset ?fb x' y' + 4 \<le> ?N" if "x' < W" "y' < H" for x' y'
    using pixel_offset_bound [OF that] by (simp add: offset)
  note bytes = store_bytes [OF room [OF assms(2,3)] ok(3)]
  have row: "y' * W + x' = y * W + x \<longleftrightarrow> x' = x \<and> y' = y" if "x' < W" for x' y'
    using that assms(2) by (metis add.commute add_right_cancel div_mult_self1 less_nat_zero_code mod_div_trivial
        mod_less mod_mult_self1)
  have byte: "fb_byte t (pixel_offset ?fb x' y' + i) =
      (if x' = x \<and> y' = y then u32_byte ?v i else fb_byte s (pixel_offset ?fb x' y' + i))"
    if "x' < W" "y' < H" "i < 4" for x' y' i
  proof -
    let ?o = "pixel_offset ?fb x' y'"
    have hit: "?o = pixel_offset ?fb x y \<longleftrightarrow> x' = x \<and> y' = y"
      using row [OF that(1), of y'] by (simp only: offset mult_cancel1) simp
    have miss: "?o + i = pixel_offset ?fb x y + j \<longleftrightarrow> ?o = pixel_offset ?fb x y \<and> i = j" if "j < 4" for j
      using \<open>i < 4\<close> that unfolding offset by presburger
    have "i = 0 \<or> i = 1 \<or> i = 2 \<or> i = 3" using that(3) by linarith
    moreover have "?o + i < ?N" using room [OF that(1,2)] that(3) by linarith
    ultimately show ?thesis
      using bytes(1) [of "?o + i"] miss [of 0] miss [of 1] miss [of 2] miss [of 3] hit
      by (auto simp: fb_byte_def t_def)
  qed
  have [simp]: "frame_buf t = ?fb" by (simp add: t_def)
  have "pixel_color t x' y' = (if x' = x \<and> y' = y then rgb_of c else pixel_color s x' y')"
    if "x' < W" "y' < H" for x' y'
    using byte [OF that, of 0] byte [OF that, of 1] byte [OF that, of 2]
    by (cases "fb_write_pixel ?fb")
      (simp_all add: pixel_color_def Let_def rgb_of_def stored_bytes_def Pixel_le_def u32_byte_from_be
        Pixel_from_bytes Pixel_bgr_eq u32_byte_from_be_bytes del: One_nat_def)
  moreover have "fb_rest t = fb_rest s"
    using bytes(2) by (auto simp: fb_rest_def ok fun_eq_iff t_def)
  ultimately show ?thesis
    using write_pixel_inside [OF assms, of c] assms(1) by (intro exI [of _ t]) (simp add: fb_ok_def t_def)
qed

lemma write_pixel_outside:
  "fb_ok W H s \<Longrightarrow> \<not> (x < W \<and> y < H) \<Longrightarrow>
    FrameBuf_write_pixel x y p s = (Ret (Err (FrameBufferError OutsideBufferError)), s)"
  by (cases "fb_write_pixel (frame_buf s)")
    (auto simp: FrameBuf_write_pixel_def bnd_def [of get] get_def write_pixel_rgb_def write_pixel_bgr_def
      is_inside_buffer_def fb_ok_def ret_def)

interpretation fb: plotter "\<lambda>x y. FrameBuf_write_pixel x y (Pixel_from_RgbColor c)" pixel_color fb_rest
    "fb_ok W H" "rgb_of c" W H for c W H
  by unfold_locales (fact write_pixel_plots, fact write_pixel_outside)

section \<open>Shapes\<close>

definition rect_points :: "nat \<Rightarrow> nat \<Rightarrow> nat \<Rightarrow> nat \<Rightarrow> (nat \<times> nat) list" where
  "rect_points x0 x1 y0 y1 = concat (map (\<lambda>x. map (Pair x) [y0..<y1]) [x0..<x1])"

lemma set_rect_points: "set (rect_points x0 x1 y0 y1) = {(x, y). x0 \<le> x \<and> x < x1 \<and> y0 \<le> y \<and> y < y1}"
  by (auto simp: rect_points_def)

lemma usize_adds: "a + b < 2 ^ 64 \<Longrightarrow> usize_add a b = ret (a + b)"
  by (simp add: usize_add_def)

lemma fill_rect_points:
  assumes "x + width < 2 ^ 64" "y + height < 2 ^ 64"
  shows "FrameBuf_fill_rect x y width height color =
    for_eachE (rect_points x (x + width) y (y + height)) (\<lambda>(x, y). FrameBuf_write_pixel x y (Pixel_from_RgbColor color))"
  using assms by (simp add: FrameBuf_fill_rect_def usize_adds rect_points_def for_eachE_nested)

lemma fill_points:
  "FrameBuf_fill color s = for_eachE (rect_points 0 (fb_width (frame_buf s)) 0 (fb_height (frame_buf s)))
    (\<lambda>(x, y). FrameBuf_write_pixel x y (Pixel_from_RgbColor color)) s"
  by (simp add: FrameBuf_fill_def bnd_def get_def rect_points_def for_eachE_nested)

text \<open>The pixels of a rectangle; the set pixels of a glyph, on their own and placed at \<open>(x, y)\<close>.\<close>

definition in_rect :: "nat \<Rightarrow> nat \<Rightarrow> nat \<Rightarrow> nat \<Rightarrow> nat \<Rightarrow> nat \<Rightarrow> bool" where
  "in_rect x y width height px py \<longleftrightarrow> x \<le> px \<and> px < x + width \<and> y \<le> py \<and> py < y + height"

definition glyph_bit :: "char \<Rightarrow> nat \<Rightarrow> nat \<Rightarrow> bool" where
  "glyph_bit c dx dy \<longleftrightarrow> dx < 8 \<and> dy < 16 \<and> bit (glyph_of (of_char c) ! dy) (7 - dx)"

definition glyph_at :: "char \<Rightarrow> nat \<Rightarrow> nat \<Rightarrow> nat \<Rightarrow> nat \<Rightarrow> bool" where
  "glyph_at c x y px py \<longleftrightarrow> x \<le> px \<and> y \<le> py \<and> glyph_bit c (px - x) (py - y)"

definition glyph_points :: "char \<Rightarrow> (nat \<times> nat) list" where
  "glyph_points c = concat (map (\<lambda>dy. map (\<lambda>dx. (dx, dy)) (filter (\<lambda>dx. glyph_bit c dx dy) [0..<8])) [0..<16])"

lemma set_glyph_points: "set (glyph_points c) = {(dx, dy). glyph_bit c dx dy}"
  by (auto simp: glyph_points_def glyph_bit_def)

lemma length_glyph_of: "length (glyph_of n) = 16"
  using length_glyph by (auto simp: glyph_of_def GARBLED_FONT_def)

lemma row_bit: "drop_bit k row AND 1 = 1 \<longleftrightarrow> bit row k" for row :: u8
  by (simp add: bit_iff_odd_drop_bit and_one_eq odd_iff_mod_2_eq_one)

lemma write_char_points:
  assumes "x + 8 \<le> 2 ^ 64" "y + 16 \<le> 2 ^ 64"
  shows "FrameBuf_write_char x y c fg =
    for_eachE (map (\<lambda>(dx, dy). (x + dx, y + dy)) (glyph_points c))
      (\<lambda>(x, y). FrameBuf_write_pixel x y (Pixel_from_RgbColor fg))"
proof -
  let ?g = "glyph_of (of_char c)" and ?px = "\<lambda>x y. FrameBuf_write_pixel x y (Pixel_from_RgbColor fg)"
  have "enumerate 0 ?g = map (\<lambda>dy. (dy, ?g ! dy)) [0..<16]"
    by (intro nth_equalityI) (simp_all add: length_glyph_of nth_enumerate_eq)
  then have "FrameBuf_write_char x y c fg = for_eachE [0..<16] (\<lambda>dy. for_eachE [0..<8] (\<lambda>dx.
      if glyph_bit c dx dy then ?px (x + dx) (y + dy) else ret (Ok ())))"
    using assms by (auto simp: FrameBuf_write_char_def for_eachE_map CHARACTER_WIDTH_def row_bit glyph_bit_def
        usize_adds intro!: for_eachE_cong)
  also have "\<dots> = for_eachE [0..<16] (\<lambda>dy. for_eachE (map (\<lambda>dx. (dx, dy)) (filter (\<lambda>dx. glyph_bit c dx dy) [0..<8]))
      (\<lambda>(dx, dy). ?px (x + dx) (y + dy)))"
    by (simp add: for_eachE_filter for_eachE_map del: upt_rec_numeral)
  also have "\<dots> = for_eachE (glyph_points c) (\<lambda>(dx, dy). ?px (x + dx) (y + dy))"
    unfolding glyph_points_def by (simp add: for_eachE_concat del: upt_rec_numeral)
  finally show ?thesis
    by (simp add: for_eachE_map case_prod_unfold)
qed

section \<open>What the entry points draw\<close>

text \<open>From \<open>s\<close> to \<open>t\<close> exactly the pixels in \<open>P\<close> got the color \<open>c\<close>, and nothing else changed.\<close>

definition drawn :: "nat \<Rightarrow> nat \<Rightarrow> (nat \<Rightarrow> nat \<Rightarrow> bool) \<Rightarrow> RgbColor \<Rightarrow> display \<Rightarrow> display \<Rightarrow> bool" where
  "drawn W H P c s t \<longleftrightarrow> fb_ok W H t \<and> fb_rest t = fb_rest s \<and>
     (\<forall>x y. x < W \<longrightarrow> y < H \<longrightarrow> pixel_color t x y = (if P x y then rgb_of c else pixel_color s x y))"

text \<open>The same of the picture that the screen shows.\<close>

definition shown_drawn :: "nat \<Rightarrow> nat \<Rightarrow> (nat \<Rightarrow> nat \<Rightarrow> bool) \<Rightarrow> RgbColor \<Rightarrow> display \<Rightarrow> display \<Rightarrow> bool" where
  "shown_drawn W H P c s t \<longleftrightarrow> fb_ok W H t \<and> fb_rest t = fb_rest s \<and>
     (\<forall>x y. x < W \<longrightarrow> y < H \<longrightarrow> shown_color t x y = (if P x y then rgb_of c else shown_color s x y))"

lemma drawn_cong: "drawn W H P c s t \<Longrightarrow> (\<And>x y. x < W \<Longrightarrow> y < H \<Longrightarrow> P x y = Q x y) \<Longrightarrow> drawn W H Q c s t"
  by (simp add: drawn_def)

lemma fb_rest_eq: "fb_rest t = fb_rest s \<Longrightarrow> frame_buf t = frame_buf s \<and> frame_buf_locked t = frame_buf_locked s"
  by (simp add: fb_rest_def)

lemma drawn_is_shown:
  assumes "fb_ok W H s" "fb_stride (frame_buf s) = W"
  shows "drawn W H P c s t = shown_drawn W H P c s t"
proof (cases "fb_ok W H t \<and> fb_rest t = fb_rest s")
  case True
  then have "frame_buf t = frame_buf s" using fb_rest_eq by blast
  moreover have "fb_width (frame_buf s) = W" using assms(1) by (simp add: fb_ok_def)
  ultimately show ?thesis
    using assms(2) unpadded_shows [of s] unpadded_shows [of t] by (simp add: drawn_def shown_drawn_def)
qed (auto simp: drawn_def shown_drawn_def)

lemma plot_list:
  assumes "fb_ok W H s"
  shows "\<exists>t. for_eachE ps (\<lambda>(x, y). FrameBuf_write_pixel x y (Pixel_from_RgbColor c)) s =
      (Ret (if \<forall>(x, y) \<in> set ps. x < W \<and> y < H then Ok () else Err (FrameBufferError OutsideBufferError)), t)
    \<and> drawn W H (\<lambda>x y. (x, y) \<in> set (takeWhile (\<lambda>(x, y). x < W \<and> y < H) ps)) c s t"
proof -
  have inside: "plotter.inside W H = (\<lambda>(x, y). x < W \<and> y < H)"
    by (auto simp: fb.inside_def)
  show ?thesis
    using fb.plot_points [OF assms, of ps c]
    by (simp add: inside fb.painted_def drawn_def list_all_iff)
qed

lemma plot_list_inside:
  assumes "fb_ok W H s" "\<forall>(x, y) \<in> set ps. x < W \<and> y < H"
  shows "\<exists>t. for_eachE ps (\<lambda>(x, y). FrameBuf_write_pixel x y (Pixel_from_RgbColor c)) s = (Ret (Ok ()), t)
    \<and> drawn W H (\<lambda>x y. (x, y) \<in> set ps) c s t"
proof -
  have "takeWhile (\<lambda>(x, y). x < W \<and> y < H) ps = ps"
    using assms(2) by (simp add: takeWhile_eq_all_conv)
  with plot_list [OF assms(1), of ps c] assms(2) show ?thesis by simp
qed

lemma fb_ok_locked [simp]: "fb_ok W H (s\<lparr>frame_buf_locked := b\<rparr>) = fb_ok W H s"
  by (simp add: fb_ok_def)

lemma memory_locked [simp]: "memory (s\<lparr>frame_buf_locked := b\<rparr>) a = memory s a"
  by (cases s) simp

lemma pixel_color_locked [simp]: "pixel_color (s\<lparr>frame_buf_locked := b\<rparr>) = pixel_color s"
  by (intro ext) (simp add: pixel_color_def fb_byte_def cong: pixel_writer.case_cong)

lemma fb_rest_locked:
  "fb_rest (s\<lparr>frame_buf_locked := b\<rparr>) = (fst (fb_rest s), b, snd (snd (fb_rest s)))"
  by (simp add: fb_rest_def cong: if_cong)

lemma fb_rest_lock: "fst (snd (fb_rest s)) = frame_buf_locked s"
  by (simp add: fb_rest_def)

text \<open>Taking and dropping the lock around a drawing operation.\<close>

lemma with_frame_buf_drawn:
  assumes "\<not> frame_buf_locked s"
    and "\<exists>t. m (s\<lparr>frame_buf_locked := True\<rparr>) = (Ret r, t) \<and> drawn W H P c (s\<lparr>frame_buf_locked := True\<rparr>) t"
  shows "\<exists>t. with_frame_buf m s = (Ret r, t) \<and> drawn W H P c s t"
proof -
  obtain t where t: "m (s\<lparr>frame_buf_locked := True\<rparr>) = (Ret r, t)" "drawn W H P c (s\<lparr>frame_buf_locked := True\<rparr>) t"
    using assms(2) by blast
  let ?t = "t\<lparr>frame_buf_locked := False\<rparr>"
  have "with_frame_buf m s = (Ret r, ?t)"
    using assms(1) t(1) by (simp add: with_frame_buf_def bnd_def get_def update_def ret_def)
  moreover have "drawn W H P c s ?t"
    using t(2) assms(1) by (simp add: drawn_def fb_rest_locked fb_rest_lock prod_eq_iff)
  ultimately show ?thesis by blast
qed

lemma bndE_done: "bndE m (\<lambda>_. ret (Ok ())) = m" for m :: "unit draw"
  by (rule ext) (simp add: bndE_def bnd_def ret_def split: prod.split outcome.split sum.split)

lemmas entry_points = write_pixel_def write_char_def fill_def fill_rect_def draw_rect_def

lemma fill_rect_result:
  assumes "fb_ok W H s" and "\<not> frame_buf_locked s"
    and "x + width < 2 ^ 64" and "y + height < 2 ^ 64"
  shows "if x + width \<le> W \<and> y + height \<le> H \<or> width = 0 \<or> height = 0
    then \<exists>t. fill_rect x y width height c s = (Ret (Ok ()), t) \<and> drawn W H (in_rect x y width height) c s t
    else \<exists>t P. fill_rect x y width height c s = (Ret (Err (FrameBufferError OutsideBufferError)), t) \<and>
      drawn W H P c s t \<and> (\<forall>px py. P px py \<longrightarrow> in_rect x y width height px py)"
proof -
  let ?ps = "rect_points x (x + width) y (y + height)"
  let ?P = "\<lambda>px py. (px, py) \<in> set (takeWhile (\<lambda>(x, y). x < W \<and> y < H) ?ps)"
  have set: "(px, py) \<in> set ?ps \<longleftrightarrow> in_rect x y width height px py" for px py by (simp add: set_rect_points in_rect_def)
  have all: "(\<forall>(px, py) \<in> set ?ps. px < W \<and> py < H) \<longleftrightarrow> x + width \<le> W \<and> y + height \<le> H \<or> width = 0 \<or> height = 0"
  proof -
    have last: "in_rect x y width height (x + width - 1) (y + height - 1)" if "width \<noteq> 0" "height \<noteq> 0"
      using that by (auto simp: in_rect_def)
    have "x + width \<le> W \<and> y + height \<le> H"
      if "\<forall>(px, py) \<in> set ?ps. px < W \<and> py < H" "width \<noteq> 0" "height \<noteq> 0"
    proof -
      have "(x + width - 1, y + height - 1) \<in> set ?ps" using last [OF that(2,3)] set by blast
      with that(1) have "x + width - 1 < W" "y + height - 1 < H" by blast+
      with that(2,3) show ?thesis by linarith
    qed
    moreover have "px < W \<and> py < H" if "x + width \<le> W \<and> y + height \<le> H \<or> width = 0 \<or> height = 0" "in_rect x y width height px py" for px py
      using that by (auto simp: in_rect_def)
    ultimately show ?thesis using set by blast
  qed
  have run: "\<exists>t. fill_rect x y width height c s =
      (Ret (if \<forall>(x, y) \<in> set ?ps. x < W \<and> y < H then Ok () else Err (FrameBufferError OutsideBufferError)), t)
      \<and> drawn W H ?P c s t"
    unfolding entry_points bndE_done fill_rect_points [OF assms(3,4)]
    by (rule with_frame_buf_drawn [OF assms(2)]) (rule plot_list, simp add: assms(1))
  show ?thesis
  proof (cases "\<forall>(px, py) \<in> set ?ps. px < W \<and> py < H")
    case True
    then have "takeWhile (\<lambda>(x, y). x < W \<and> y < H) ?ps = ?ps" by (simp add: takeWhile_eq_all_conv)
    with run True all show ?thesis by (simp add: set)
  next
    case False
    have "in_rect x y width height px py" if "?P px py" for px py using that set_takeWhileD set by fastforce
    with run False all show ?thesis by (simp only: if_False) blast
  qed
qed

text \<open>
  C25. \<open>fill_rect\<close> on a mode without padding (\<open>stride = width\<close>) and every input without overflow. If the rectangle lies
  on the screen (or is empty), it returns \<open>Ok\<close>, the screen (pixel \<open>(x, y)\<close> at index \<open>y * stride + x\<close>) shows exactly the
  pixels of the rectangle in the color, and no other pixel, no byte outside the pixels and not the lock changed.
  Otherwise it returns \<open>OutsideBufferError\<close>, with only pixels of the rectangle drawn.
\<close>

theorem fill_rect_paints:
  assumes "fb_ok W H s" and "\<not> frame_buf_locked s" and "fb_stride (frame_buf s) = W"
    and "x + width < 2 ^ 64" and "y + height < 2 ^ 64"
  shows "if x + width \<le> W \<and> y + height \<le> H \<or> width = 0 \<or> height = 0
    then \<exists>t. fill_rect x y width height c s = (Ret (Ok ()), t) \<and> shown_drawn W H (in_rect x y width height) c s t
    else \<exists>t P. fill_rect x y width height c s = (Ret (Err (FrameBufferError OutsideBufferError)), t) \<and>
      shown_drawn W H P c s t \<and> (\<forall>px py. P px py \<longrightarrow> in_rect x y width height px py)"
  using fill_rect_result [OF assms(1,2,4,5), of c] unfolding drawn_is_shown [OF assms(1,3)] .

lemma write_char_drawn:
  assumes "fb_ok W H s" "\<not> frame_buf_locked s" "x + 8 \<le> W" "y + 16 \<le> H"
  shows "\<exists>t. write_char x y c fg s = (Ret (Ok ()), t) \<and>
    drawn W H (glyph_at c x y) fg s t"
proof -
  let ?ps = "map (\<lambda>(dx, dy). (x + dx, y + dy)) (glyph_points c)"
  have set: "(px, py) \<in> set ?ps \<longleftrightarrow> glyph_at c x y px py" for px py
    by (force simp: set_glyph_points glyph_at_def)
  have small: "x + 8 \<le> 2 ^ 64" "y + 16 \<le> 2 ^ 64"
    using assms(1,3,4) unfolding fb_ok_def by linarith+
  have inside: "\<forall>(px, py) \<in> set ?ps. px < W \<and> py < H"
    using assms(3,4) by (auto simp: set_glyph_points glyph_bit_def)
  have "\<exists>t. with_frame_buf (FrameBuf_write_char x y c fg) s = (Ret (Ok ()), t) \<and>
      drawn W H (\<lambda>px py. (px, py) \<in> set ?ps) fg s t"
    unfolding write_char_points [OF small]
    by (rule with_frame_buf_drawn [OF assms(2)]) (rule plot_list_inside, simp add: assms(1), fact inside)
  then show ?thesis unfolding set entry_points bndE_done .
qed

lemma fill_rect_drawn:
  assumes "fb_ok W H s" "\<not> frame_buf_locked s" "x + width \<le> W" "y + height \<le> H"
  shows "\<exists>t. fill_rect x y width height c s = (Ret (Ok ()), t) \<and>
    drawn W H (in_rect x y width height) c s t"
proof -
  have small: "x + width < 2 ^ 64" "y + height < 2 ^ 64"
    using assms(1,3,4) unfolding fb_ok_def by linarith+
  let ?ps = "rect_points x (x + width) y (y + height)"
  have inside: "\<forall>(px, py) \<in> set ?ps. px < W \<and> py < H"
    using assms(3,4) by (auto simp: set_rect_points)
  have "\<exists>t. with_frame_buf (FrameBuf_fill_rect x y width height c) s = (Ret (Ok ()), t) \<and>
      drawn W H (\<lambda>px py. (px, py) \<in> set ?ps) c s t"
    unfolding fill_rect_points [OF small]
    by (rule with_frame_buf_drawn [OF assms(2)]) (rule plot_list_inside, simp add: assms(1), fact inside)
  then show ?thesis unfolding entry_points bndE_done by (simp add: set_rect_points in_rect_def [abs_def])
qed

lemma draw_rect_points:
  assumes "x + width < 2 ^ 64" "y + height < 2 ^ 64" "0 < width" "0 < height"
  shows "FrameBuf_draw_rect x y width height c =
    for_eachE (concat (map (\<lambda>px. [(px, y), (px, y + height - 1)]) [x..<x + width])
        @ concat (map (\<lambda>py. [(x, py), (x + width - 1, py)]) [y..<y + height]))
      (\<lambda>(x, y). FrameBuf_write_pixel x y (Pixel_from_RgbColor c))"
proof -
  have "bndE m (\<lambda>_. n) = bndE m (\<lambda>_. bndE n (\<lambda>_. ret (Ok ())))" for m n :: "unit draw"
    by (simp add: bndE_done)
  then show ?thesis
    using assms by (simp add: FrameBuf_draw_rect_def usize_adds usize_sub_def for_eachE_append for_eachE_concat)
qed

text \<open>
  \<open>draw_rect\<close> draws exactly the border of a non-empty rectangle that lies on the screen.
\<close>

theorem draw_rect_paints_border:
  assumes "fb_ok W H s" and "\<not> frame_buf_locked s" and "x + width \<le> W" and "y + height \<le> H"
    and "0 < width" and "0 < height"
  shows "\<exists>t. draw_rect x y width height c s = (Ret (Ok ()), t) \<and>
    drawn W H (\<lambda>px py. in_rect x y width height px py \<and>
      (px = x \<or> px = x + width - 1 \<or> py = y \<or> py = y + height - 1)) c s t"
proof -
  have small: "x + width < 2 ^ 64" "y + height < 2 ^ 64"
    using assms(1,3,4) unfolding fb_ok_def by linarith+
  let ?ps = "concat (map (\<lambda>px. [(px, y), (px, y + height - 1)]) [x..<x + width])
        @ concat (map (\<lambda>py. [(x, py), (x + width - 1, py)]) [y..<y + height])"
  have inside: "\<forall>(px, py) \<in> set ?ps. px < W \<and> py < H"
    using assms(3-6) by auto
  have "\<exists>t. with_frame_buf (FrameBuf_draw_rect x y width height c) s = (Ret (Ok ()), t) \<and>
      drawn W H (\<lambda>px py. (px, py) \<in> set ?ps) c s t"
    unfolding draw_rect_points [OF small assms(5,6)]
    by (rule with_frame_buf_drawn [OF assms(2)]) (rule plot_list_inside, simp add: assms(1), fact inside)
  then obtain t where "with_frame_buf (FrameBuf_draw_rect x y width height c) s = (Ret (Ok ()), t)"
      "drawn W H (\<lambda>px py. (px, py) \<in> set ?ps) c s t"
    by blast
  moreover have "drawn W H (\<lambda>px py. in_rect x y width height px py \<and>
      (px = x \<or> px = x + width - 1 \<or> py = y \<or> py = y + height - 1)) c s t"
    by (rule drawn_cong [OF calculation(2)]) (use assms(5,6) in \<open>auto simp: in_rect_def\<close>)
  ultimately show ?thesis unfolding entry_points bndE_done by blast
qed

lemma write_char_result:
  assumes "fb_ok W H s" and "\<not> frame_buf_locked s" and "x + 8 \<le> 2 ^ 64" and "y + 16 \<le> 2 ^ 64"
  shows "(if \<forall>px py. glyph_at c x y px py \<longrightarrow> px < W \<and> py < H
      then \<exists>t. write_char x y c fg s = (Ret (Ok ()), t) \<and> drawn W H (glyph_at c x y) fg s t
      else \<exists>t P. write_char x y c fg s = (Ret (Err (FrameBufferError OutsideBufferError)), t) \<and>
        drawn W H P fg s t \<and> (\<forall>px py. P px py \<longrightarrow> glyph_at c x y px py))
    \<and> (x + 8 \<le> W \<and> y + 16 \<le> H \<longrightarrow> (\<forall>px py. glyph_at c x y px py \<longrightarrow> px < W \<and> py < H))"
proof
  let ?ps = "map (\<lambda>(dx, dy). (x + dx, y + dy)) (glyph_points c)"
  let ?P = "\<lambda>px py. (px, py) \<in> set (takeWhile (\<lambda>(x, y). x < W \<and> y < H) ?ps)"
  have set: "(px, py) \<in> set ?ps \<longleftrightarrow> glyph_at c x y px py" for px py
    by (force simp: set_glyph_points glyph_at_def)
  have all: "(\<forall>(px, py) \<in> set ?ps. px < W \<and> py < H) \<longleftrightarrow> (\<forall>px py. glyph_at c x y px py \<longrightarrow> px < W \<and> py < H)"
    using set by blast
  have run: "\<exists>t. write_char x y c fg s =
      (Ret (if \<forall>(x, y) \<in> set ?ps. x < W \<and> y < H then Ok () else Err (FrameBufferError OutsideBufferError)), t)
      \<and> drawn W H ?P fg s t"
    unfolding entry_points bndE_done write_char_points [OF assms(3,4)]
    by (rule with_frame_buf_drawn [OF assms(2)]) (rule plot_list, simp add: assms(1))
  show "if \<forall>px py. glyph_at c x y px py \<longrightarrow> px < W \<and> py < H
      then \<exists>t. write_char x y c fg s = (Ret (Ok ()), t) \<and> drawn W H (glyph_at c x y) fg s t
      else \<exists>t P. write_char x y c fg s = (Ret (Err (FrameBufferError OutsideBufferError)), t) \<and>
        drawn W H P fg s t \<and> (\<forall>px py. P px py \<longrightarrow> glyph_at c x y px py)"
  proof (cases "\<forall>(px, py) \<in> set ?ps. px < W \<and> py < H")
    case True
    then have "takeWhile (\<lambda>(x, y). x < W \<and> y < H) ?ps = ?ps" by (simp add: takeWhile_eq_all_conv)
    then have "?P = glyph_at c x y" using set by presburger
    with run True show ?thesis unfolding all by simp
  next
    case False
    have "glyph_at c x y px py" if "?P px py" for px py using that set_takeWhileD set by fastforce
    with run False show ?thesis unfolding all by (simp only: if_False) blast
  qed
  show "x + 8 \<le> W \<and> y + 16 \<le> H \<longrightarrow> (\<forall>px py. glyph_at c x y px py \<longrightarrow> px < W \<and> py < H)"
    by (auto simp: glyph_at_def glyph_bit_def)
qed

text \<open>
  C24. \<open>write_char\<close> on a mode without padding (\<open>stride = width\<close>) and every position without overflow: if the set pixels
  of the character's glyph (leftmost pixel in bit 7 of a font row) lie on the screen, it returns \<open>Ok\<close> and the screen
  (pixel \<open>(x, y)\<close> at index \<open>y * stride + x\<close>) shows exactly those pixels in the color, everything else unchanged;
  otherwise it returns \<open>OutsideBufferError\<close>, with only pixels of the glyph drawn. A character cell of 8 by 16 pixels on
  the screen is always enough.
\<close>

theorem write_char_paints_glyph:
  assumes "fb_ok W H s" and "\<not> frame_buf_locked s" and "fb_stride (frame_buf s) = W"
    and "x + 8 \<le> 2 ^ 64" and "y + 16 \<le> 2 ^ 64"
  shows "(if \<forall>px py. glyph_at c x y px py \<longrightarrow> px < W \<and> py < H
      then \<exists>t. write_char x y c fg s = (Ret (Ok ()), t) \<and> shown_drawn W H (glyph_at c x y) fg s t
      else \<exists>t P. write_char x y c fg s = (Ret (Err (FrameBufferError OutsideBufferError)), t) \<and>
        shown_drawn W H P fg s t \<and> (\<forall>px py. P px py \<longrightarrow> glyph_at c x y px py))
    \<and> (x + 8 \<le> W \<and> y + 16 \<le> H \<longrightarrow> (\<forall>px py. glyph_at c x y px py \<longrightarrow> px < W \<and> py < H))"
  using write_char_result [OF assms(1,2,4,5), of c fg] unfolding drawn_is_shown [OF assms(1,3)] .

lemma frame_buffer_init_result:
  assumes "gi_bytes_per_pixel gi = 4" and "unat (gi_frame_buffer_addr gi) mod 4 = 0"
    and "unat (gi_frame_buffer_addr gi) + 4 * (gi_width gi * gi_height gi) \<le> 2 ^ 64"
    and "gi_width gi < 2 ^ 64" and "gi_height gi < 2 ^ 64"
  shows "\<exists>t. FrameBuf_init gi c s = (Ret (Ok ()), t) \<and> fb_ok (gi_width gi) (gi_height gi) t \<and>
    (\<forall>x y. x < gi_width gi \<longrightarrow> y < gi_height gi \<longrightarrow> pixel_color t x y = rgb_of c) \<and>
    frame_buf_locked t = frame_buf_locked s \<and> framebuf_addr (frame_buf t) = gi_frame_buffer_addr gi \<and>
    fb_stride (frame_buf t) = gi_stride gi \<and>
    (\<forall>a. (\<nexists>k. k < 4 * (gi_width gi * gi_height gi) \<and> a = gi_frame_buffer_addr gi + of_nat k) \<longrightarrow>
      memory t a = memory s a)"
proof -
  define u where "u = s\<lparr>frame_buf := \<lparr>fb_width = gi_width gi, fb_height = gi_height gi,
      fb_bytes_per_pixel = gi_bytes_per_pixel gi, fb_stride = gi_stride gi,
      fb_pixel_format = gi_pixel_format gi, framebuf_addr = gi_frame_buffer_addr gi, framebuf_size = gi_size gi,
      fb_write_pixel = (case gi_pixel_format gi of Rgb \<Rightarrow> Write_pixel_rgb | Bgr \<Rightarrow> Write_pixel_bgr)\<rparr>\<rparr>"
  have ok: "fb_ok (gi_width gi) (gi_height gi) u"
    using assms by (simp add: u_def fb_ok_def)
  obtain t where t: "for_eachE (rect_points 0 (gi_width gi) 0 (gi_height gi))
      (\<lambda>(x, y). FrameBuf_write_pixel x y (Pixel_from_RgbColor c)) u = (Ret (Ok ()), t)"
      "drawn (gi_width gi) (gi_height gi) (\<lambda>x y. (x, y) \<in> set (rect_points 0 (gi_width gi) 0 (gi_height gi))) c u t"
    using plot_list_inside [OF ok, of "rect_points 0 (gi_width gi) 0 (gi_height gi)" c]
    by (auto simp: set_rect_points)
  have "FrameBuf_init gi c s = (Ret (Ok ()), t)"
    using t(1) by (simp add: FrameBuf_init_def bnd_def [where m = "update f" for f] update_def bndE_done
        fill_points flip: u_def) (simp add: u_def)
  moreover have "frame_buf_locked t = frame_buf_locked s" "framebuf_addr (frame_buf t) = gi_frame_buffer_addr gi"
      "fb_stride (frame_buf t) = gi_stride gi"
    using t(2) fb_rest_eq [of t u] by (simp_all add: drawn_def u_def)
  moreover have "memory t a = memory s a"
    if "\<nexists>k. k < 4 * (gi_width gi * gi_height gi) \<and> a = gi_frame_buffer_addr gi + of_nat k" for a
  proof -
    have "snd (snd (fb_rest t)) a = snd (snd (fb_rest u)) a" "frame_buf t = frame_buf u"
      using t(2) fb_rest_eq [of t u] by (simp_all add: drawn_def)
    with that show ?thesis by (auto simp: fb_rest_def u_def split: if_splits)
  qed
  ultimately show ?thesis
    using t(2) by (simp add: drawn_def set_rect_points)
qed

text \<open>
  Initialisation: for a graphics mode with four bytes per pixel whose pixels fit into the address space at an
  aligned address, \<open>FrameBuf::init\<close> returns \<open>Ok\<close>, every pixel of the screen has the background color, and the
  lock and all bytes outside the pixels are as before.
\<close>

theorem frame_buffer_init_fills:
  assumes "gi_bytes_per_pixel gi = 4" and "unat (gi_frame_buffer_addr gi) mod 4 = 0"
    and "unat (gi_frame_buffer_addr gi) + 4 * (gi_width gi * gi_height gi) \<le> 2 ^ 64"
    and "gi_width gi < 2 ^ 64" and "gi_height gi < 2 ^ 64"
  shows "\<exists>t. FrameBuf_init gi c s = (Ret (Ok ()), t) \<and> fb_ok (gi_width gi) (gi_height gi) t \<and>
    (\<forall>x y. x < gi_width gi \<longrightarrow> y < gi_height gi \<longrightarrow> pixel_color t x y = rgb_of c) \<and>
    frame_buf_locked t = frame_buf_locked s \<and>
    (\<forall>a. (\<nexists>k. k < 4 * (gi_width gi * gi_height gi) \<and> a = gi_frame_buffer_addr gi + of_nat k) \<longrightarrow>
      memory t a = memory s a)"
  using frame_buffer_init_result [OF assms, of c s] by blast

text \<open>
  While the lock is held every drawing entry point returns \<open>FrameBufferLockError\<close> and draws nothing.
\<close>

theorem locked_frame_buffer_refuses:
  assumes "frame_buf_locked s"
  shows "write_pixel x y p s = (Ret (Err (FrameBufferError FrameBufferLockError)), s)
    \<and> write_char x y ch c s = (Ret (Err (FrameBufferError FrameBufferLockError)), s)
    \<and> fill c s = (Ret (Err (FrameBufferError FrameBufferLockError)), s)
    \<and> fill_rect x y w h c s = (Ret (Err (FrameBufferError FrameBufferLockError)), s)
    \<and> draw_rect x y w h c s = (Ret (Err (FrameBufferError FrameBufferLockError)), s)"
  using assms by (simp add: entry_points bndE_done with_frame_buf_def bnd_def get_def ret_def)

section \<open>Scan lines with padding\<close>

text \<open>
  C26. \<open>write_pixel\<close> ignores the stride: on a mode whose scan lines are padded (\<open>stride > width\<close>), drawing the pixel
  \<open>(x, y)\<close> below the first row colors the pixel that the screen shows at column \<open>(y * width + x) mod stride\<close> of row
  \<open>(y * width + x) div stride\<close>, which is a different pixel; a picture is sheared.
\<close>

theorem write_pixel_ignores_stride:
  assumes "fb_ok W H s" and "x < W" and "y < H" and "0 < y" and "W < fb_stride (frame_buf s)"
  shows "\<exists>t. FrameBuf_write_pixel x y (Pixel_from_RgbColor c) s = (Ret (Ok ()), t)
    \<and> shown_color t ((y * W + x) mod fb_stride (frame_buf s)) ((y * W + x) div fb_stride (frame_buf s)) = rgb_of c
    \<and> ((y * W + x) mod fb_stride (frame_buf s), (y * W + x) div fb_stride (frame_buf s)) \<noteq> (x, y)"
proof -
  let ?S = "fb_stride (frame_buf s)"
  obtain t where t: "FrameBuf_write_pixel x y (Pixel_from_RgbColor c) s = (Ret (Ok ()), t)"
      "fb_rest t = fb_rest s" "pixel_color t x y = rgb_of c" "fb_ok W H t"
    using write_pixel_plots [OF assms(1-3), of c] assms(2,3) by auto
  have fb: "frame_buf t = frame_buf s" using fb_rest_eq [OF t(2)] by simp
  have "fb_width (frame_buf t) = W" using t(4) by (simp add: fb_ok_def)
  then have "shown_color t ((y * W + x) mod ?S) ((y * W + x) div ?S) = pixel_color t x y"
    by (rule shown_is_pixel) (simp add: fb)
  moreover have "((y * W + x) mod ?S, (y * W + x) div ?S) \<noteq> (x, y)"
  proof
    assume "((y * W + x) mod ?S, (y * W + x) div ?S) = (x, y)"
    then have "y * W + x = y * ?S + x" by (metis Pair_inject div_mult_mod_eq)
    then show False using assms(4,5) by simp
  qed
  ultimately show ?thesis using t(1,3) by auto
qed

section \<open>A small screen\<close>

definition small_screen :: display where
  "small_screen = \<lparr>frame_buf = \<lparr>fb_width = 20, fb_height = 30, fb_bytes_per_pixel = 4, fb_stride = 24,
     fb_pixel_format = Bgr, framebuf_addr = 0x1000, framebuf_size = 2880, fb_write_pixel = Write_pixel_bgr\<rparr>,
     frame_buf_locked = False, memory = (\<lambda>_. 0)\<rparr>"

lemma small_screen_ok: "fb_ok 20 30 small_screen" "\<not> frame_buf_locked small_screen"
  by (simp_all add: fb_ok_def small_screen_def)

text \<open>The same screen without padding.\<close>

definition unpadded_screen :: display where
  "unpadded_screen = small_screen\<lparr>frame_buf := (frame_buf small_screen)\<lparr>fb_stride := 20\<rparr>\<rparr>"

lemma unpadded_screen_ok:
  "fb_ok 20 30 unpadded_screen" "\<not> frame_buf_locked unpadded_screen" "fb_stride (frame_buf unpadded_screen) = 20"
  by (simp_all add: fb_ok_def small_screen_def unpadded_screen_def)

theorem fill_rect_paints_witness:
  "(\<exists>t. fill_rect 3 4 5 6 0x28282800 unpadded_screen = (Ret (Ok ()), t) \<and>
      shown_drawn 20 30 (in_rect 3 4 5 6) 0x28282800 unpadded_screen t)
   \<and> (\<exists>t. fill_rect 18 4 5 6 0x28282800 unpadded_screen = (Ret (Err (FrameBufferError OutsideBufferError)), t))"
  using fill_rect_paints [OF unpadded_screen_ok, of 3 5 4 6 "0x28282800"]
    fill_rect_paints [OF unpadded_screen_ok, of 18 5 4 6 "0x28282800"] by auto

theorem draw_rect_paints_border_witness:
  "\<exists>t. draw_rect 3 4 5 6 0x28282800 small_screen = (Ret (Ok ()), t)"
  using draw_rect_paints_border [OF small_screen_ok, of 3 5 4 6 "0x28282800"] by auto

theorem write_char_paints_glyph_witness:
  "\<exists>t. write_char 3 4 (CHR ''A'') 0xebdbb200 unpadded_screen = (Ret (Ok ()), t) \<and>
    shown_drawn 20 30 (glyph_at (CHR ''A'') 3 4) 0xebdbb200 unpadded_screen t"
  using write_char_paints_glyph [OF unpadded_screen_ok, of 3 4 "CHR ''A''" "0xebdbb200"] by (simp split: if_splits)

theorem frame_buffer_init_fills_witness:
  "\<exists>t. FrameBuf_init \<lparr>gi_width = 20, gi_height = 30, gi_stride = 24, gi_bytes_per_pixel = 4, gi_pixel_format = Rgb,
      gi_frame_buffer_addr = 0x1000, gi_size = 2880\<rparr> 0x28282800 small_screen = (Ret (Ok ()), t) \<and>
    pixel_color t 19 29 = rgb_of 0x28282800"
  using frame_buffer_init_fills [of "\<lparr>gi_width = 20, gi_height = 30, gi_stride = 24, gi_bytes_per_pixel = 4,
      gi_pixel_format = Rgb, gi_frame_buffer_addr = 0x1000, gi_size = 2880\<rparr>" "0x28282800" small_screen] by auto

theorem locked_frame_buffer_refuses_witness:
  "fill_rect 0 0 1 1 0 (small_screen\<lparr>frame_buf_locked := True\<rparr>) =
    (Ret (Err (FrameBufferError FrameBufferLockError)), small_screen\<lparr>frame_buf_locked := True\<rparr>)"
  using locked_frame_buffer_refuses [of "small_screen\<lparr>frame_buf_locked := True\<rparr>" 0 0 0 "CHR ''A''" 0 1 1] by simp

theorem write_pixel_ignores_stride_witness:
  "\<exists>t. FrameBuf_write_pixel 3 2 (Pixel_from_RgbColor 0xebdbb200) small_screen = (Ret (Ok ()), t)
    \<and> shown_color t 19 1 = rgb_of 0xebdbb200"
proof -
  have "fb_stride (frame_buf small_screen) = 24" by (simp add: small_screen_def)
  then show ?thesis
    using write_pixel_ignores_stride [OF small_screen_ok(1), of 3 2 "0xebdbb200"] by auto
qed

end
