(* ===== verification/Console.thy ===== *)
theory Console
  imports Frame_Buffer
begin

text \<open>
  The text console: \<open>kernel/src/graphic/console.rs\<close>. The state has the static \<open>CONSOLE\<close>, whether its spin lock is
  held, and the display of \<open>Frame_Buffer\<close>. The specification is a terminal of 25 lines of text; the refinement
  relation says that the console's buffer holds those lines and that the pixels drawn are exactly theirs, in the
  addressing of the driver, which is that of the screen on a mode without padding (\<open>stride = width\<close>).
\<close>

section \<open>Lines\<close>

definition ROWS :: usize where "ROWS = 25"

definition COLUMNS :: usize where "COLUMNS = 150"

record Line =
  line_chars :: string
  line_length :: usize

definition Line_new :: "usize \<Rightarrow> string \<Rightarrow> usize \<Rightarrow> Error + Line" where
  "Line_new CAP chars len = (if len > CAP then Err (ConsoleError LineLengthOverflow)
     else Ok \<lparr>line_chars = chars, line_length = len\<rparr>)"

definition Line_null :: "usize \<Rightarrow> Line" where
  "Line_null CAP = \<lparr>line_chars = replicate CAP (CHR 0x00), line_length = 0\<rparr>"

text \<open>\<open>CAP\<close> is the length of the array; an index beyond it panics.\<close>

definition Line_push :: "char \<Rightarrow> (Line, Error + unit) prog" where
  "Line_push c = bnd get (\<lambda>self.
     if line_length self = length (line_chars self) then ret (Err (ConsoleError LineLengthOverflow))
     else if line_length self < length (line_chars self) then
       bnd (update (\<lambda>l. l\<lparr>line_chars := (line_chars l)[line_length l := c]\<rparr>)) (\<lambda>_.
       bnd (usize_add (line_length self) 1) (\<lambda>len.
       bnd (update (\<lambda>l. l\<lparr>line_length := len\<rparr>)) (\<lambda>_. ret (Ok ()))))
     else panic)"

section \<open>Console\<close>

record Console =
  buffer :: "Line list"
  bg_color :: RgbColor
  fg_color :: RgbColor
  cursor_row :: usize
  cursor_column :: usize

record terminal =
  screen :: display
  console :: Console
  console_locked :: bool

definition Console_new_empty :: Console where
  "Console_new_empty = \<lparr>buffer = replicate ROWS (Line_null COLUMNS), bg_color = RgbColor_rgb 0x28 0x28 0x28,
     fg_color = RgbColor_rgb 0x28 0x28 0x28, cursor_row = 0, cursor_column = 0\<rparr>"

definition on_screen :: "(display, 'a) prog \<Rightarrow> (terminal, 'a) prog" where
  "on_screen = zoom screen (\<lambda>d s. s\<lparr>screen := d\<rparr>)"

definition set_console :: "(Console \<Rightarrow> Console) \<Rightarrow> (terminal, unit) prog" where
  "set_console f = update (\<lambda>s. s\<lparr>console := f (console s)\<rparr>)"

definition Console_init :: "RgbColor \<Rightarrow> RgbColor \<Rightarrow> (terminal, Error + unit) prog" where
  "Console_init bg fg =
     bndE (on_screen (fill_rect 0 0 (COLUMNS * CHARACTER_WIDTH) (ROWS * CHARACTER_HEIGHT) bg)) (\<lambda>_.
     bnd (set_console (\<lambda>_. \<lparr>buffer = replicate ROWS (Line_null COLUMNS), bg_color = bg, fg_color = fg,
       cursor_row = 0, cursor_column = 0\<rparr>)) (\<lambda>_. ret (Ok ())))"

text \<open>One iteration of the scrolling loop: row \<open>row\<close> takes the line below it and is drawn again.\<close>

definition scroll_row :: "usize \<Rightarrow> (terminal, unit) prog" where
  "scroll_row row = bnd get (\<lambda>s.
     if row + 1 < length (buffer (console s)) then
       bnd (set_console (\<lambda>c. c\<lparr>buffer := (buffer c)[row := buffer c ! (row + 1)]\<rparr>)) (\<lambda>_.
       let line = buffer (console s) ! (row + 1) in
       if line_length line \<le> length (line_chars line) then
         for_each (enumerate 0 (take (line_length line) (line_chars line))) (\<lambda>(i, c).
           unwrap (on_screen (write_char (CHARACTER_WIDTH * i) (CHARACTER_HEIGHT * row) c (fg_color (console s)))))
       else panic)
     else panic)"

definition new_line :: "(terminal, unit) prog" where
  "new_line =
     bnd (set_console (\<lambda>c. c\<lparr>cursor_column := 0\<rparr>)) (\<lambda>_.
     bnd get (\<lambda>s.
     if cursor_row (console s) < ROWS - 1 then
       set_console (\<lambda>c. c\<lparr>cursor_row := cursor_row c + 1\<rparr>)
     else
       bnd (unwrap (on_screen (fill_rect 0 0 (COLUMNS * CHARACTER_WIDTH) (ROWS * CHARACTER_HEIGHT)
         (bg_color (console s))))) (\<lambda>_.
       bnd (for_each [0..<ROWS - 1] scroll_row) (\<lambda>_.
       bnd get (\<lambda>s.
       if buffer (console s) = [] then panic
       else set_console (\<lambda>c. c\<lparr>buffer := (buffer c)[length (buffer c) - 1 := Line_null COLUMNS]\<rparr>))))))"

text \<open>\<open>self.buffer[self.cursor_row].push(c).unwrap()\<close>.\<close>

definition push_char :: "char \<Rightarrow> (terminal, unit) prog" where
  "push_char c = bnd get (\<lambda>s.
     if cursor_row (console s) < length (buffer (console s)) then
       unwrap (zoom (\<lambda>s. buffer (console s) ! cursor_row (console s))
         (\<lambda>l s. s\<lparr>console := (console s)\<lparr>buffer := (buffer (console s))[cursor_row (console s) := l]\<rparr>\<rparr>) (Line_push c))
     else panic)"

definition print_char :: "char \<Rightarrow> (terminal, unit) prog" where
  "print_char c =
     (if c = CHR 0x0A then new_line
      else
        bnd get (\<lambda>s.
        if cursor_column (console s) < COLUMNS - 1 then
          bnd (unwrap (on_screen (write_char (CHARACTER_WIDTH * cursor_column (console s))
            (CHARACTER_HEIGHT * cursor_row (console s)) c (fg_color (console s))))) (\<lambda>_.
          bnd (push_char c) (\<lambda>_.
          bnd (usize_add (cursor_column (console s)) 1) (\<lambda>col.
          set_console (\<lambda>c. c\<lparr>cursor_column := col\<rparr>))))
        else ret ()))"

definition Console_print :: "string \<Rightarrow> (terminal, unit) prog" where
  "Console_print s = bnd (expect (as_ascii s)) (\<lambda>chars. for_each chars print_char)"

definition Console_println :: "string \<Rightarrow> (terminal, unit) prog" where
  "Console_println s = bnd (Console_print s) (\<lambda>_. new_line)"

section \<open>The locked entry points\<close>

definition with_console :: "(terminal, 'a) prog \<Rightarrow> (terminal, Error + 'a) prog" where
  "with_console m = bnd get (\<lambda>s.
     if console_locked s then ret (Err (ConsoleError ConsoleLockError))
     else
       bnd (update (\<lambda>s. s\<lparr>console_locked := True\<rparr>)) (\<lambda>_.
       bnd m (\<lambda>r.
       bnd (update (\<lambda>s. s\<lparr>console_locked := False\<rparr>)) (\<lambda>_. ret (Ok r)))))"

datatype fmt_error = FmtError

definition print :: "string \<Rightarrow> (terminal, Error + unit) prog" where
  "print s = with_console (Console_print s)"

definition println :: "string \<Rightarrow> (terminal, Error + unit) prog" where
  "println s = with_console (Console_println s)"

text \<open>
  \<open>fmt::Write\<close> for the console, and \<open>kprint!\<close> and \<open>kprintln!\<close>: \<open>write_fmt\<close> hands the formatted text to \<open>write_str\<close> piece by
  piece. The lock is held until the result of \<open>write_fmt\<close> has been unwrapped.
\<close>

definition Console_write_str :: "string \<Rightarrow> (terminal, fmt_error + unit) prog" where
  "Console_write_str s = bnd (Console_print s) (\<lambda>_. ret (Ok ()))"

definition write_fmt :: "string list \<Rightarrow> (terminal, fmt_error + unit) prog" where
  "write_fmt pieces = for_eachE pieces Console_write_str"

definition kprint :: "string list \<Rightarrow> (terminal, unit) prog" where
  "kprint pieces = unwrap (with_console (unwrap (write_fmt pieces)))"

definition kprintln_fmt :: "string list \<Rightarrow> (terminal, unit) prog" where
  "kprintln_fmt pieces = bnd (kprint pieces) (\<lambda>_. unwrap (println ''''))"

lemma unwrap_write_fmt: "unwrap (write_fmt pieces) = for_each pieces Console_print"
proof (induction pieces)
  case Nil
  show ?case by (simp add: write_fmt_def unwrap_def)
next
  case (Cons p ps)
  have "unwrap (write_fmt (p # ps)) = bnd (Console_print p) (\<lambda>_. unwrap (write_fmt ps))"
    by (simp add: write_fmt_def Console_write_str_def unwrap_def bndE_def bnd_assoc)
  with Cons show ?case by simp
qed

lemma kprint_eq: "kprint pieces = unwrap (with_console (for_each pieces Console_print))"
  by (simp add: kprint_def unwrap_write_fmt)

section \<open>The terminal the console implements\<close>

text \<open>
  Lines of text, and the row of the cursor; the cursor stands behind the last character of its row. A character
  beyond column 149 is dropped, a line feed in the last row drops the first line.
\<close>

type_synonym term_state = "string list \<times> nat"

fun term_put :: "char \<Rightarrow> term_state \<Rightarrow> term_state" where
  "term_put c (ls, row) =
     (if c = CHR 0x0A then if row < 24 then (ls, row + 1) else (tl ls @ [[]], row)
      else if length (ls ! row) < 149 then (ls[row := ls ! row @ [c]], row)
      else (ls, row))"

definition term_puts :: "string \<Rightarrow> term_state \<Rightarrow> term_state" where
  "term_puts s t = fold term_put s t"

fun term_ok :: "term_state \<Rightarrow> bool" where
  "term_ok (ls, row) \<longleftrightarrow> length ls = 25 \<and> row < 25 \<and> (\<forall>i < 25. length (ls ! i) \<le> 149) \<and>
     (\<forall>i < 25. row < i \<longrightarrow> ls ! i = [])"

lemma term_put_ok: "term_ok t \<Longrightarrow> term_ok (term_put c t)"
  by (cases t) (auto simp: nth_append nth_tl nth_list_update)

section \<open>Text on the screen\<close>

text \<open>Which character each cell (row, column) shows; the pixels it lights.\<close>

type_synonym cells = "nat \<times> nat \<rightharpoonup> char"

definition lit :: "cells \<Rightarrow> nat \<Rightarrow> nat \<Rightarrow> bool" where
  "lit cs x y \<longleftrightarrow> (case cs (y div 16, x div 8) of None \<Rightarrow> False | Some c \<Rightarrow> glyph_bit c (x mod 8) (y mod 16))"

definition canvas :: "nat \<Rightarrow> nat \<Rightarrow> RgbColor \<Rightarrow> RgbColor \<Rightarrow> cells \<Rightarrow> display \<Rightarrow> bool" where
  "canvas W H bg fg cs s \<longleftrightarrow> fb_ok W H s \<and> \<not> frame_buf_locked s \<and> 1200 \<le> W \<and> 400 \<le> H \<and>
     (\<forall>x y. x < 1200 \<longrightarrow> y < 400 \<longrightarrow> pixel_color s x y = (if lit cs x y then rgb_of fg else rgb_of bg))"

text \<open>What the console must leave alone: everything but the pixels, and the pixels outside its rectangle.\<close>

definition beyond :: "nat \<Rightarrow> nat \<Rightarrow> display \<Rightarrow>
    (FrameBuf \<times> bool \<times> (u64 \<Rightarrow> u8 option)) \<times> (nat \<Rightarrow> nat \<Rightarrow> (u8 \<times> u8 \<times> u8) option)" where
  "beyond W H s = (fb_rest s, \<lambda>x y. if x < 1200 \<and> y < 400 \<or> \<not> (x < W \<and> y < H) then None else Some (pixel_color s x y))"

definition cells_of :: "string list \<Rightarrow> cells" where
  "cells_of ls = (\<lambda>(i, j). if i < length ls \<and> j < length (ls ! i) then Some (ls ! i ! j) else None)"

lemma glyph_at_cell:
  "glyph_at c (8 * j) (16 * i) px py \<longleftrightarrow> px div 8 = j \<and> py div 16 = i \<and> glyph_bit c (px mod 8) (py mod 16)"
proof -
  have cell: "d * k \<le> p \<and> p - d * k < d \<longleftrightarrow> p div d = k" if "0 < d" for p k d :: nat
  proof
    assume "d * k \<le> p \<and> p - d * k < d"
    then have "d * k \<le> p" "p < d * Suc k" by (auto simp: algebra_simps less_diff_conv2)
    then show "p div d = k" by (rule div_nat_eqI)
  next
    assume "p div d = k"
    then have "d * k + p mod d = p" by (metis mult_div_mod_eq)
    then show "d * k \<le> p \<and> p - d * k < d" using that by (metis diff_add_inverse le_add1 mod_less_divisor)
  qed
  have rest: "p - d * (p div d) = p mod d" for p d :: nat
    by (simp add: minus_mult_div_eq_mod)
  have "glyph_at c (8 * j) (16 * i) px py \<longleftrightarrow> (8 * j \<le> px \<and> px - 8 * j < 8) \<and> (16 * i \<le> py \<and> py - 16 * i < 16)
      \<and> glyph_bit c (px - 8 * j) (py - 16 * i)"
    unfolding glyph_at_def glyph_bit_def by blast
  also have "\<dots> \<longleftrightarrow> px div 8 = j \<and> py div 16 = i \<and> glyph_bit c (px - 8 * j) (py - 16 * i)"
    by (subst (1 2) cell) simp_all
  also have "\<dots> \<longleftrightarrow> px div 8 = j \<and> py div 16 = i \<and> glyph_bit c (px mod 8) (py mod 16)"
    using rest [of px 8] rest [of py 16] by auto
  finally show ?thesis .
qed

lemma beyond_eqI:
  assumes "fb_rest t = fb_rest s"
    and "\<And>x y. x < W \<Longrightarrow> y < H \<Longrightarrow> \<not> (x < 1200 \<and> y < 400) \<Longrightarrow> pixel_color t x y = pixel_color s x y"
  shows "beyond W H t = beyond W H s"
proof -
  have "(if b then None else Some (pixel_color t x y)) = (if b then None else Some (pixel_color s x y))"
    if "b = (x < 1200 \<and> y < 400 \<or> \<not> (x < W \<and> y < H))" for b x y
    using assms(2) [of x y] that by (cases b) simp_all
  then show ?thesis unfolding beyond_def assms(1) by presburger
qed

lemma canvasD:
  assumes "canvas W H bg fg cs s"
  shows "fb_ok W H s" "\<not> frame_buf_locked s" "1200 \<le> W" "400 \<le> H"
    "x < 1200 \<Longrightarrow> y < 400 \<Longrightarrow> pixel_color s x y = (if lit cs x y then rgb_of fg else rgb_of bg)"
  using assms unfolding canvas_def by blast+

lemma drawnD:
  assumes "drawn W H P c s t"
  shows "fb_ok W H t" "fb_rest t = fb_rest s" "frame_buf_locked t = frame_buf_locked s"
    "x < W \<Longrightarrow> y < H \<Longrightarrow> pixel_color t x y = (if P x y then rgb_of c else pixel_color s x y)"
  using assms fb_rest_eq [of t s] unfolding drawn_def by blast+

lemma canvas_write_char:
  assumes "canvas W H bg fg cs s" "i < 25" "j < 150" "cs (i, j) = None"
  shows "\<exists>t. write_char (8 * j) (16 * i) c fg s = (Ret (Ok ()), t) \<and> canvas W H bg fg (cs((i, j) \<mapsto> c)) t \<and>
    beyond W H t = beyond W H s"
proof -
  note s = canvasD [OF assms(1)]
  have "8 * j + 8 \<le> W" "16 * i + 16 \<le> H" using s(3,4) assms(2,3) by linarith+
  from write_char_drawn [OF s(1,2) this, of c fg]
  obtain t where run: "write_char (8 * j) (16 * i) c fg s = (Ret (Ok ()), t)"
      and t: "drawn W H (glyph_at c (8 * j) (16 * i)) fg s t"
    by (elim exE conjE)
  have new: "lit (cs((i, j) \<mapsto> c)) x y \<longleftrightarrow> glyph_at c (8 * j) (16 * i) x y \<or> lit cs x y" for x y
    using assms(4) unfolding lit_def glyph_at_cell by auto
  have out: "\<not> glyph_at c (8 * j) (16 * i) x y" if "\<not> (x < 1200 \<and> y < 400)" for x y
    using that assms(2,3) unfolding glyph_at_cell by auto
  have "pixel_color t x y = (if lit (cs((i, j) \<mapsto> c)) x y then rgb_of fg else rgb_of bg)"
    if "x < 1200" "y < 400" for x y
    using drawnD(4) [OF t, of x y] s(3,4) s(5) [OF that] that unfolding new by simp
  with s(2-4) drawnD(1,3) [OF t] have "canvas W H bg fg (cs((i, j) \<mapsto> c)) t"
    unfolding canvas_def by blast
  moreover have "beyond W H t = beyond W H s"
    using drawnD(4) [OF t] out by (intro beyond_eqI drawnD(2) [OF t]) presburger
  ultimately show ?thesis using run by blast
qed

lemma canvas_clear:
  assumes "fb_ok W H s" "\<not> frame_buf_locked s" "1200 \<le> W" "400 \<le> H"
  shows "\<exists>t. fill_rect 0 0 1200 400 bg s = (Ret (Ok ()), t) \<and> canvas W H bg fg Map.empty t \<and>
    beyond W H t = beyond W H s"
proof -
  have "0 + 1200 \<le> W" "0 + 400 \<le> H" using assms by simp_all
  from fill_rect_drawn [OF assms(1,2) this, of bg]
  obtain t where run: "fill_rect 0 0 1200 400 bg s = (Ret (Ok ()), t)" and t: "drawn W H (in_rect 0 0 1200 400) bg s t"
    by (elim exE conjE)
  have "pixel_color t x y = (if lit Map.empty x y then rgb_of fg else rgb_of bg)" if "x < 1200" "y < 400" for x y
    using drawnD(4) [OF t, of x y] assms(3,4) that by (simp add: in_rect_def lit_def)
  with assms(2-4) drawnD(1,3) [OF t] have "canvas W H bg fg Map.empty t"
    unfolding canvas_def by blast
  moreover have "beyond W H t = beyond W H s"
    using drawnD(4) [OF t] by (intro beyond_eqI drawnD(2) [OF t]) (auto simp: in_rect_def)
  ultimately show ?thesis using run by blast
qed

lemma cells_of_snoc:
  "cells_of (ls @ [l @ [c]]) = (cells_of (ls @ [l]))((length ls, length l) \<mapsto> c)"
  by (rule ext) (auto simp: cells_of_def nth_append less_Suc_eq split: prod.splits)

lemma cells_of_empty_line: "cells_of (ls @ [[]]) = cells_of ls"
  by (rule ext) (auto simp: cells_of_def nth_append less_Suc_eq split: prod.splits)

section \<open>Refinement\<close>

definition line_text :: "Line \<Rightarrow> string" where
  "line_text l = take (line_length l) (line_chars l)"

definition line_ok :: "Line \<Rightarrow> bool" where
  "line_ok l \<longleftrightarrow> length (line_chars l) = 150 \<and> line_length l \<le> 149"

lemma line_text_null [simp]: "line_text (Line_null n) = []"
  by (simp add: line_text_def Line_null_def)

lemma line_ok_null [simp]: "line_ok (Line_null COLUMNS)"
  by (simp add: line_ok_def Line_null_def COLUMNS_def)

lemma length_line_text: "line_ok l \<Longrightarrow> length (line_text l) = line_length l"
  by (simp add: line_ok_def line_text_def)

text \<open>
  The console holds the lines \<open>ls\<close> with the cursor in row \<open>row\<close>, and the screen shows them; \<open>far\<close> is the rest of
  the display.
\<close>

definition represents :: "nat \<Rightarrow> nat \<Rightarrow> RgbColor \<Rightarrow> RgbColor \<Rightarrow> terminal \<Rightarrow> term_state \<Rightarrow> bool" where
  "represents W H bg fg s t \<longleftrightarrow> term_ok t \<and> list_all line_ok (buffer (console s)) \<and>
     map line_text (buffer (console s)) = fst t \<and> cursor_row (console s) = snd t \<and>
     cursor_column (console s) = length (fst t ! snd t) \<and> bg_color (console s) = bg \<and> fg_color (console s) = fg \<and>
     canvas W H bg fg (cells_of (fst t)) (screen s)"

text \<open>Drawing one line of text into an empty row below \<open>ls\<close>.\<close>

lemma draw_line:
  assumes "canvas W H bg fg (cells_of ls) (screen s)" "length ls < 25" "length l \<le> 150"
  shows "wp (for_each (enumerate 0 l) (\<lambda>(i, c). unwrap (on_screen (write_char (CHARACTER_WIDTH * i)
      (CHARACTER_HEIGHT * length ls) c fg))))
    (\<lambda>_ t. canvas W H bg fg (cells_of (ls @ [l])) (screen t) \<and> beyond W H (screen t) = beyond W H (screen s) \<and>
      console t = console s \<and> console_locked t = console_locked s) s"
proof -
  let ?I = "\<lambda>k t. canvas W H bg fg (cells_of (ls @ [take k l])) (screen t) \<and>
    beyond W H (screen t) = beyond W H (screen s) \<and> console t = console s \<and> console_locked t = console_locked s"
  have step: "wp (case enumerate 0 l ! k of (i, c) \<Rightarrow> unwrap (on_screen (write_char (CHARACTER_WIDTH * i)
      (CHARACTER_HEIGHT * length ls) c fg))) (\<lambda>_. ?I (Suc k)) t"
    if k: "k < length (enumerate 0 l)" and t: "?I k t" for k t
  proof -
    have "cells_of (ls @ [take k l]) (length ls, k) = None" by (simp add: cells_of_def)
    with canvas_write_char [of W H bg fg "cells_of (ls @ [take k l])" "screen t" "length ls" k "l ! k"] t k assms(2,3)
    obtain d where d: "write_char (8 * k) (16 * length ls) (l ! k) fg (screen t) = (Ret (Ok ()), d)"
      "canvas W H bg fg (cells_of (ls @ [take (Suc k) l])) d" "beyond W H d = beyond W H (screen s)"
      by (auto simp: take_Suc_conv_app_nth cells_of_snoc)
    show ?thesis
      using k t d by (simp add: nth_enumerate_eq on_screen_def wp_unwrap zoom_def wp_def CHARACTER_WIDTH_def
          CHARACTER_HEIGHT_def)
  qed
  have "wp (for_each (enumerate 0 l) (\<lambda>(i, c). unwrap (on_screen (write_char (CHARACTER_WIDTH * i)
      (CHARACTER_HEIGHT * length ls) c fg)))) (\<lambda>_. ?I (length (enumerate 0 l))) s"
  proof (rule wp_for_each_list [where I = ?I])
    show "?I 0 s" using assms(1) by (simp add: cells_of_empty_line)
  qed (rule step)
  then show ?thesis by simp
qed

text \<open>The scrolling loop after \<open>k\<close> rows: they hold the lines that were below them, and the screen shows those only.\<close>

definition scrolled :: "Line list \<Rightarrow> nat \<Rightarrow> Line list" where
  "scrolled ls k = take k (tl ls) @ drop k ls"

lemma scrolled_step:
  assumes "Suc k < length ls"
  shows "(scrolled ls k)[k := scrolled ls k ! Suc k] = scrolled ls (Suc k)" "scrolled ls k ! Suc k = tl ls ! k"
    "length (scrolled ls k) = length ls"
proof -
  have [simp]: "min (length ls - Suc 0) k = k" using assms by simp
  show nth: "scrolled ls k ! Suc k = tl ls ! k" and "length (scrolled ls k) = length ls"
    using assms by (simp_all add: scrolled_def nth_append nth_tl)
  obtain l rest where "drop k ls = l # rest" using assms by (cases "drop k ls") auto
  then have "drop (Suc k) ls = rest" by (metis drop_Suc list.sel(3) tl_drop)
  with nth \<open>drop k ls = l # rest\<close> assms show "(scrolled ls k)[k := scrolled ls k ! Suc k] = scrolled ls (Suc k)"
    by (simp add: scrolled_def list_update_append take_Suc_conv_app_nth)
qed

lemma scroll_loop:
  assumes "list_all line_ok ls" "length ls = 25" "buffer (console s) = ls" "fg_color (console s) = fg"
    and "canvas W H bg fg Map.empty (screen s)"
  shows "wp (for_each [0..<24] scroll_row) (\<lambda>_ t. canvas W H bg fg (cells_of (map line_text (tl ls))) (screen t) \<and>
    beyond W H (screen t) = beyond W H (screen s) \<and>
    console t = (console s)\<lparr>buffer := scrolled ls 24\<rparr> \<and> console_locked t = console_locked s) s"
proof -
  let ?I = "\<lambda>k t. canvas W H bg fg (cells_of (map line_text (take k (tl ls)))) (screen t) \<and>
    beyond W H (screen t) = beyond W H (screen s) \<and>
    console t = (console s)\<lparr>buffer := scrolled ls k\<rparr> \<and> console_locked t = console_locked s"
  have step: "wp (scroll_row k) (\<lambda>_. ?I (Suc k)) t" if k: "0 \<le> k" "k < 24" and t: "?I k t" for k t
  proof -
    have len: "Suc k < length ls" using k assms(2) by simp
    let ?l = "tl ls ! k"
    have l: "line_ok ?l" using assms(1) len by (simp add: nth_tl list_all_length)
    let ?u = "t\<lparr>console := (console s)\<lparr>buffer := scrolled ls (Suc k)\<rparr>\<rparr>"
    let ?ls = "map line_text (take k (tl ls))"
    have rows: "length ?ls = k" using len by simp
    have "canvas W H bg fg (cells_of ?ls) (screen ?u)" "length ?ls < 25" "length (line_text ?l) \<le> 150"
      using t k rows l by (simp_all add: line_ok_def length_line_text)
    from draw_line [OF this]
    have "wp (for_each (enumerate 0 (line_text ?l)) (\<lambda>(i, c). unwrap (on_screen (write_char (CHARACTER_WIDTH * i)
        (CHARACTER_HEIGHT * k) c fg)))) (\<lambda>_. ?I (Suc k)) ?u"
      unfolding rows by (rule wp_mono) (use t len in \<open>simp_all add: take_Suc_conv_app_nth\<close>)
    then show ?thesis
      using t l len assms(4) scrolled_step [OF len]
      by (simp add: scroll_row_def wp_rules set_console_def Let_def line_ok_def line_text_def)
  qed
  have "wp (for_each [0..<24] scroll_row) (\<lambda>_. ?I 24) s"
  proof (rule wp_for_range [where I = ?I])
    have "cells_of [] = Map.empty" by (rule ext) (simp add: cells_of_def split: prod.split)
    then show "?I 0 s" using assms(3,5) by (simp add: scrolled_def)
  qed (simp, rule step)
  then show ?thesis using assms(2) by simp
qed

definition keeps :: "nat \<Rightarrow> nat \<Rightarrow> terminal \<Rightarrow> terminal \<Rightarrow> bool" where
  "keeps W H s t \<longleftrightarrow> beyond W H (screen t) = beyond W H (screen s) \<and> console_locked t = console_locked s"

lemma keeps_trans: "keeps W H s t \<Longrightarrow> keeps W H t u \<Longrightarrow> keeps W H s u"
  by (simp add: keeps_def)

lemma console_size: "COLUMNS * CHARACTER_WIDTH = 1200" "ROWS * CHARACTER_HEIGHT = 400" "ROWS - 1 = 24" "COLUMNS - 1 = 149"
  "ROWS - Suc 0 = 24" "COLUMNS - Suc 0 = 149"
  by (simp_all add: COLUMNS_def ROWS_def CHARACTER_WIDTH_def CHARACTER_HEIGHT_def)

text \<open>Operations on the screen that return \<open>Ok\<close>, seen from the terminal.\<close>

lemma wp_on_screen:
  "m (screen s) = (Ret (Ok x), d) \<Longrightarrow> Q x (s\<lparr>screen := d\<rparr>) \<Longrightarrow> wp (unwrap (on_screen m)) Q s"
  by (simp add: wp_unwrap on_screen_def wp_def zoom_def)

text \<open>The part of \<open>new_line\<close> after the loop: the last line becomes empty.\<close>

abbreviation clear_last_line :: "(terminal, unit) prog" where
  "clear_last_line \<equiv> bnd get (\<lambda>s. if buffer (console s) = [] then panic
     else set_console (\<lambda>c. c\<lparr>buffer := (buffer c)[length (buffer c) - 1 := Line_null COLUMNS]\<rparr>))"

lemma scroll_refines:
  assumes rep: "represents W H bg fg s (ls, 24)" and u: "console u = (console s)\<lparr>cursor_column := 0\<rparr>"
    and d: "canvas W H bg fg Map.empty (screen u)" "keeps W H s u"
  shows "wp (for_each [0..<24] scroll_row) (\<lambda>_. wp clear_last_line
    (\<lambda>_ v. represents W H bg fg v (tl ls @ [[]], 24) \<and> keeps W H s v)) u"
proof -
  let ?B = "buffer (console s)"
  have ok: "length ls = 25" "term_ok (tl ls @ [[]], 24)" "list_all line_ok ?B" "map line_text ?B = ls"
    using rep term_put_ok [of "(ls, 24)" "CHR 0x0A"] by (simp_all add: represents_def)
  then have len: "length ?B = 25" by (auto dest: arg_cong [where f = length])
  have "length (drop 24 ?B) = Suc 0" using len by simp
  then obtain l where l: "drop 24 ?B = [l]" unfolding length_Suc_conv length_0_conv by blast
  have last: "(scrolled ?B 24)[24 := Line_null COLUMNS] = tl ?B @ [Line_null COLUMNS]" "length (scrolled ?B 24) = 25"
    using len l by (simp_all add: scrolled_def list_update_append)
  have rest: "list_all line_ok (tl ?B)" using ok(3) by (cases ?B) simp_all
  have new: "represents W H bg fg (v\<lparr>console := (console v)\<lparr>buffer := tl ?B @ [Line_null COLUMNS]\<rparr>\<rparr>) (tl ls @ [[]], 24)"
    if "canvas W H bg fg (cells_of (map line_text (tl ?B))) (screen v)"
      "console v = (console u)\<lparr>buffer := scrolled ?B 24\<rparr>" for v :: terminal
    using that rep u len ok(1,2,4) rest by (auto simp: represents_def map_tl cells_of_empty_line nth_append)
  have "wp (for_each [0..<24] scroll_row) (\<lambda>_ v. canvas W H bg fg (cells_of (map line_text (tl ?B))) (screen v) \<and>
      beyond W H (screen v) = beyond W H (screen u) \<and>
      console v = (console u)\<lparr>buffer := scrolled ?B 24\<rparr> \<and> console_locked v = console_locked u) u"
    using scroll_loop [OF ok(3) len, of u fg W H bg] rep u d(1) by (simp add: represents_def)
  then show ?thesis
  proof (rule wp_mono)
    fix v :: terminal
    assume v: "canvas W H bg fg (cells_of (map line_text (tl ?B))) (screen v) \<and>
      beyond W H (screen v) = beyond W H (screen u) \<and>
      console v = (console u)\<lparr>buffer := scrolled ?B 24\<rparr> \<and> console_locked v = console_locked u"
    then have "buffer (console v) = scrolled ?B 24" "length (buffer (console v)) - 1 = 24" "buffer (console v) \<noteq> []"
      using last(2) by auto
    with v new [of v] d(2) last(1)
    show "wp clear_last_line (\<lambda>_ v. represents W H bg fg v (tl ls @ [[]], 24) \<and> keeps W H s v) v"
      by (simp add: wp_rules set_console_def keeps_def)
  qed
qed

lemma new_line_refines:
  assumes "represents W H bg fg s t"
  shows "wp new_line (\<lambda>_ u. represents W H bg fg u (term_put (CHR 0x0A) t) \<and> keeps W H s u) s"
proof -
  obtain ls row where t: "t = (ls, row)" by (cases t)
  note rep = assms [unfolded represents_def t fst_conv snd_conv]
  have ok: "length ls = 25" "row < 25" "\<forall>i < 25. row < i \<longrightarrow> ls ! i = []" using rep by simp_all
  let ?s = "s\<lparr>console := (console s)\<lparr>cursor_column := 0\<rparr>\<rparr>"
  show ?thesis
  proof (cases "row < 24")
    case True
    then have "ls ! Suc row = []" using ok by simp
    with True assms term_put_ok [of t "CHR 0x0A"] show ?thesis
      by (simp add: new_line_def wp_rules set_console_def console_size represents_def keeps_def t)
  next
    case False
    with ok have row: "row = 24" by simp
    have "canvas W H bg fg (cells_of ls) (screen s)" using rep by simp
    note scr = canvasD(1-4) [OF this]
    obtain d where d: "fill_rect 0 0 1200 400 bg (screen s) = (Ret (Ok ()), d)" "canvas W H bg fg Map.empty d"
        "beyond W H d = beyond W H (screen s)"
      using canvas_clear [OF scr, of bg fg] by (elim exE conjE)
    have "wp (for_each [0..<24] scroll_row) (\<lambda>_. wp clear_last_line
        (\<lambda>_ v. represents W H bg fg v (tl ls @ [[]], 24) \<and> keeps W H s v)) (?s\<lparr>screen := d\<rparr>)"
      using assms d row by (intro scroll_refines) (simp_all add: t keeps_def)
    then have "wp (unwrap (on_screen (fill_rect 0 0 1200 400 bg))) (\<lambda>_. wp (for_each [0..<24] scroll_row)
        (\<lambda>_. wp clear_last_line (\<lambda>_ v. represents W H bg fg v (tl ls @ [[]], 24) \<and> keeps W H s v))) ?s"
      using d(1) by (intro wp_on_screen [where d = d and x = "()"]) simp_all
    then show ?thesis
      using rep unfolding new_line_def wp_bnd set_console_def wp_update wp_get console_size
      by (simp add: t row wp_bnd wp_get)
  qed
qed

lemma push_refines:
  assumes "line_ok l" "line_length l < 149"
  shows "wp (Line_push c) (\<lambda>r l'. r = Ok () \<and> line_ok l' \<and> line_text l' = line_text l @ [c]) l"
  using assms
  by (simp add: Line_push_def wp_rules line_ok_def line_text_def take_Suc_conv_app_nth nth_list_update)

lemma cells_of_update:
  assumes "row < length ls"
  shows "cells_of (ls[row := ls ! row @ [c]]) = (cells_of ls)((row, length (ls ! row)) \<mapsto> c)"
  using assms by (intro ext) (auto simp: cells_of_def nth_list_update nth_append split: prod.splits)

lemma print_char_refines:
  assumes "represents W H bg fg s t"
  shows "wp (print_char c) (\<lambda>_ u. represents W H bg fg u (term_put c t) \<and> keeps W H s u) s"
proof -
  obtain ls row where t: "t = (ls, row)" by (cases t)
  note rep = assms [unfolded represents_def t fst_conv snd_conv]
  have ok: "length ls = 25" "row < 25" using rep by simp_all
  consider (lf) "c = CHR 0x0A" | (full) "c \<noteq> CHR 0x0A" "\<not> length (ls ! row) < 149"
    | (put) "c \<noteq> CHR 0x0A" "length (ls ! row) < 149" by blast
  then show ?thesis
  proof cases
    case lf
    with new_line_refines [OF assms] show ?thesis by (simp add: print_char_def)
  next
    case full
    with assms rep show ?thesis by (simp add: print_char_def wp_rules console_size t keeps_def)
  next
    case put
    let ?l = "buffer (console s) ! row" and ?col = "length (ls ! row)"
    have len: "length (buffer (console s)) = 25" using rep ok(1) by (auto dest: arg_cong [where f = length])
    have l: "line_ok ?l" "line_text ?l = ls ! row" using rep ok len by (auto simp: list_all_length)
    have "canvas W H bg fg (cells_of ls) (screen s)" "row < 25" "?col < 150" "cells_of ls (row, ?col) = None"
      using rep put ok by (simp_all add: cells_of_def)
    from canvas_write_char [OF this, of c]
    obtain d where d: "write_char (8 * ?col) (16 * row) c fg (screen s) = (Ret (Ok ()), d)"
        "canvas W H bg fg ((cells_of ls)((row, ?col) \<mapsto> c)) d" "beyond W H d = beyond W H (screen s)"
      by (elim exE conjE)
    have "line_length ?l < 149" using length_line_text [OF l(1)] l(2) put(2) by simp
    then obtain l' where l': "Line_push c ?l = (Ret (Ok ()), l')" "line_ok l'" "line_text l' = ls ! row @ [c]"
      using wpD [OF push_refines [OF l(1), of c]] l(2) by auto
    let ?s = "s\<lparr>screen := d\<rparr>"
    let ?u = "?s\<lparr>console := (console s)\<lparr>buffer := (buffer (console s))[row := l'], cursor_column := ?col + 1\<rparr>\<rparr>"
    have "represents W H bg fg ?u (term_put c t)"
      using rep put ok len d l' term_put_ok [of t c]
      by (auto simp: represents_def t map_update cells_of_update nth_list_update list_all_length)
    moreover have "keeps W H s ?u" using d(3) by (simp add: keeps_def)
    moreover have "print_char c s = (Ret (), ?u)"
      using put rep d(1) l'(1) len ok
      by (simp add: print_char_def bnd_def get_def console_size unwrap_def on_screen_def zoom_def ret_def
          CHARACTER_WIDTH_def CHARACTER_HEIGHT_def push_char_def usize_add_def set_console_def update_def)
    ultimately show ?thesis by (simp add: wp_def)
  qed
qed

lemma print_chars_refine:
  "represents W H bg fg s t \<Longrightarrow>
    wp (for_each cs print_char) (\<lambda>_ u. represents W H bg fg u (term_puts cs t) \<and> keeps W H s u) s"
proof (induction cs arbitrary: s t)
  case Nil
  then show ?case by (simp add: wp_ret term_puts_def keeps_def)
next
  case (Cons c cs)
  have "wp (for_each cs print_char) (\<lambda>_ v. represents W H bg fg v (term_puts (c # cs) t) \<and> keeps W H s v) u"
    if "represents W H bg fg u (term_put c t) \<and> keeps W H s u" for u
    using Cons.IH [of u "term_put c t"] that
    by (elim conjE wp_mono) (auto simp: term_puts_def intro: keeps_trans elim: wp_mono)
  then show ?case
    using print_char_refines [OF Cons.prems, of c] by (simp add: wp_bnd) (erule wp_mono, simp)
qed

section \<open>Properties\<close>

lemma represents_ascii:
  "represents W H bg fg s t \<Longrightarrow> as_ascii str = Some str \<Longrightarrow>
    wp (Console_print str) (\<lambda>_ u. represents W H bg fg u (term_puts str t) \<and> keeps W H s u) s"
  by (simp add: Console_print_def wp_rules print_chars_refine)

lemma print_pieces_refine:
  "represents W H bg fg s t \<Longrightarrow> list_all (\<lambda>p. as_ascii p = Some p) ps \<Longrightarrow>
    wp (for_each ps Console_print) (\<lambda>_ u. represents W H bg fg u (term_puts (concat ps) t) \<and> keeps W H s u) s"
proof (induction ps arbitrary: s t)
  case Nil
  then show ?case by (simp add: wp_ret term_puts_def keeps_def)
next
  case (Cons p ps)
  have "wp (for_each ps Console_print) (\<lambda>_ v. represents W H bg fg v (term_puts (concat (p # ps)) t) \<and> keeps W H s v) u"
    if "represents W H bg fg u (term_puts p t) \<and> keeps W H s u" for u
    using Cons.IH [of u "term_puts p t"] that Cons.prems(2)
    by (elim conjE wp_mono) (auto simp: term_puts_def intro: keeps_trans elim: wp_mono)
  then show ?case
    using represents_ascii [OF Cons.prems(1), of p] Cons.prems(2)
    by (simp add: wp_bnd) (erule wp_mono, simp)
qed

lemma represents_locked [simp]: "represents W H bg fg (s\<lparr>console_locked := b\<rparr>) t = represents W H bg fg s t"
  by (simp add: represents_def)

lemma with_console_refines:
  assumes "wp m (\<lambda>_ u. represents W H bg fg u t \<and> keeps W H (s\<lparr>console_locked := True\<rparr>) u) (s\<lparr>console_locked := True\<rparr>)"
    and "\<not> console_locked s"
  shows "wp (unwrap (with_console m)) (\<lambda>_ u. represents W H bg fg u t \<and> keeps W H s u) s"
  using assms by (auto simp: with_console_def wp_rules keeps_def elim!: wp_mono)

lemma kprintln_refines:
  assumes "represents W H bg fg s t" "\<not> console_locked s" "list_all (\<lambda>p. as_ascii p = Some p) ps"
  shows "wp (kprintln_fmt ps) (\<lambda>_ u. represents W H bg fg u (term_puts (concat ps @ [CHR 0x0A]) t) \<and> keeps W H s u) s"
proof -
  have first: "wp (kprint ps) (\<lambda>_ u. represents W H bg fg u (term_puts (concat ps) t) \<and> keeps W H s u) s"
    unfolding kprint_eq
    using assms by (intro with_console_refines print_pieces_refine) simp_all
  have "wp (unwrap (println [])) (\<lambda>_ v. represents W H bg fg v (term_puts (concat ps @ [CHR 0x0A]) t) \<and> keeps W H s v) u"
    if u: "represents W H bg fg u (term_puts (concat ps) t)" "keeps W H s u" for u
  proof -
    have "wp (Console_println []) (\<lambda>_ v. represents W H bg fg v (term_put (CHR 0x0A) (term_puts (concat ps) t)) \<and>
        keeps W H (u\<lparr>console_locked := True\<rparr>) v) (u\<lparr>console_locked := True\<rparr>)"
      using new_line_refines [of W H bg fg "u\<lparr>console_locked := True\<rparr>" "term_puts (concat ps) t"] u(1)
      by (simp add: Console_println_def Console_print_def as_ascii_def wp_rules)
    moreover have "\<not> console_locked u" using u(2) assms(2) by (simp add: keeps_def)
    ultimately have "wp (unwrap (println [])) (\<lambda>_ v. represents W H bg fg v
        (term_put (CHR 0x0A) (term_puts (concat ps) t)) \<and> keeps W H u v) u"
      unfolding println_def by (rule with_console_refines)
    then show ?thesis
      by (rule wp_mono) (use u(2) in \<open>auto simp: term_puts_def intro: keeps_trans\<close>)
  qed
  then show ?thesis
    unfolding kprintln_fmt_def wp_bnd using first by (elim wp_mono) blast
qed

lemma console_init_small:
  assumes "fb_ok W H (screen s)" and "\<not> frame_buf_locked (screen s)" and "W < 1200 \<or> H < 400"
  shows "\<exists>d. Console_init bg fg s = (Ret (Err (FrameBufferError OutsideBufferError)), s\<lparr>screen := d\<rparr>)"
proof -
  have "\<not> (0 + 1200 \<le> W \<and> 0 + 400 \<le> H \<or> (1200 :: nat) = 0 \<or> (400 :: nat) = 0)" using assms(3) by auto
  with fill_rect_result [OF assms(1,2), of 0 1200 0 400 bg]
  obtain d where "fill_rect 0 0 1200 400 bg (screen s) = (Ret (Err (FrameBufferError OutsideBufferError)), d)"
    by (auto split: if_splits)
  then show ?thesis
    by (auto simp: Console_init_def console_size on_screen_def bndE_def bnd_def zoom_def ret_def)
qed

lemma console_init_result:
  assumes "fb_ok W H (screen s)" and "\<not> frame_buf_locked (screen s)"
  shows "if 1200 \<le> W \<and> 400 \<le> H
    then \<exists>t. Console_init bg fg s = (Ret (Ok ()), t) \<and> represents W H bg fg t (replicate 25 [], 0) \<and> keeps W H s t
    else \<exists>t. Console_init bg fg s = (Ret (Err (FrameBufferError OutsideBufferError)), t) \<and> console t = console s"
proof (cases "1200 \<le> W \<and> 400 \<le> H")
  case True
  then have size: "1200 \<le> W" "400 \<le> H" by simp_all
  obtain d where d: "fill_rect 0 0 1200 400 bg (screen s) = (Ret (Ok ()), d)" "canvas W H bg fg Map.empty d"
      "beyond W H d = beyond W H (screen s)"
    using canvas_clear [OF assms size, of bg fg] by (elim exE conjE)
  have "cells_of (replicate 25 []) = Map.empty"
    by (rule ext) (auto simp: cells_of_def split: prod.split)
  moreover have "Console_init bg fg s = (Ret (Ok ()), s\<lparr>screen := d, console := \<lparr>buffer = replicate ROWS (Line_null COLUMNS),
      bg_color = bg, fg_color = fg, cursor_row = 0, cursor_column = 0\<rparr>\<rparr>)"
    using d(1) by (simp add: Console_init_def console_size on_screen_def bndE_def bnd_def zoom_def set_console_def
        update_def ret_def)
  ultimately show ?thesis
    using d True by (simp add: represents_def keeps_def ROWS_def list_all_length)
next
  case False
  then have "W < 1200 \<or> H < 400" by linarith
  then obtain d where "Console_init bg fg s = (Ret (Err (FrameBufferError OutsideBufferError)), s\<lparr>screen := d\<rparr>)"
    using console_init_small [OF assms] by blast
  with False show ?thesis by auto
qed

text \<open>
  Starting the console: on a screen of at least 1200 by 400 pixels \<open>Console::init\<close> returns \<open>Ok\<close> with an empty
  terminal in the given colors, and leaves the rest of the screen and of memory alone; on a smaller screen it
  returns \<open>OutsideBufferError\<close> and leaves the console as it was (the kernel's \<open>main\<close> unwraps the result, and panics).
\<close>

theorem console_init_blank:
  assumes "fb_ok W H (screen s)" and "\<not> frame_buf_locked (screen s)"
  shows "if 1200 \<le> W \<and> 400 \<le> H
    then \<exists>t. Console_init bg fg s = (Ret (Ok ()), t) \<and> represents W H bg fg t (replicate 25 [], 0) \<and> keeps W H s t
    else \<exists>t. Console_init bg fg s = (Ret (Err (FrameBufferError OutsideBufferError)), t) \<and> console t = console s"
  using assms by (rule console_init_result)

text \<open>
  C6. \<open>kprintln!\<close> implements a terminal. If the console represents a terminal state (its buffer holds the lines and
  the screen shows exactly those lines, glyph by glyph, in the foreground color on the background), its lock is free
  and the text is ASCII, then \<open>kprintln!\<close> returns, without any of its unwraps failing, and the console represents the
  terminal after the text and a line feed: characters beyond column 149 are dropped and a line feed in the
  last row scrolls. Pixels outside the console, other memory and the locks are as before. Pixels are in the addressing of the
  driver, which is that of the screen on a mode without padding.
\<close>

theorem kprintln_refines_terminal:
  assumes "represents W H bg fg s t" and "\<not> console_locked s" and "list_all (\<lambda>p. as_ascii p = Some p) pieces"
  shows "\<exists>u. kprintln_fmt pieces s = (Ret (), u) \<and>
    represents W H bg fg u (term_puts (concat pieces @ [CHR 0x0A]) t) \<and> keeps W H s u"
  using wpD [OF kprintln_refines [OF assms]] by auto

text \<open>
  C28. Printing panics while the console is locked. Printing a text whose first piece is not ASCII panics too, and leaves
  the console locked, so that the panic handler, which prints with \<open>kprintln!\<close>, panics again in its first statement.
\<close>

theorem kprint_panics:
  "(console_locked s \<longrightarrow> kprintln_fmt pieces s = (Panic, s)) \<and>
   (\<not> console_locked s \<and> as_ascii p = None \<longrightarrow>
     kprintln_fmt (p # pieces) s = (Panic, s\<lparr>console_locked := True\<rparr>) \<and>
     kprintln_fmt qs (s\<lparr>console_locked := True\<rparr>) = (Panic, s\<lparr>console_locked := True\<rparr>))"
proof -
  have locked: "kprintln_fmt pieces s = (Panic, s)" if "console_locked s" for pieces s
    using that by (simp add: kprintln_fmt_def kprint_eq with_console_def unwrap_def bnd_def get_def ret_def panic_def)
  have "kprintln_fmt (p # pieces) s = (Panic, s\<lparr>console_locked := True\<rparr>)"
    if "\<not> console_locked s" "as_ascii p = None"
    using that by (simp add: kprintln_fmt_def kprint_eq with_console_def unwrap_def bnd_def get_def ret_def panic_def
        update_def Console_print_def expect_def)
  then show ?thesis by (simp add: locked)
qed

section \<open>A log of lines\<close>

lemma term_puts_append: "term_puts (a @ b) t = term_puts b (term_puts a t)"
  by (simp add: term_puts_def)

lemma term_puts_text:
  assumes "CHR 0x0A \<notin> set l" "row < length ls" "length (ls ! row) \<le> 149"
  shows "term_puts l (ls, row) = (ls[row := take 149 (ls ! row @ l)], row)"
  using assms
proof (induction l arbitrary: ls)
  case (Cons c l)
  then have c: "c \<noteq> CHR 0x0A" by auto
  show ?case
  proof (cases "length (ls ! row) < 149")
    case True
    with c have "term_puts (c # l) (ls, row) = term_puts l (ls[row := ls ! row @ [c]], row)"
      by (simp add: term_puts_def)
    with Cons True show ?thesis by (simp add: take_Cons')
  next
    case False
    with Cons c have "term_puts (c # l) (ls, row) = term_puts l (ls, row)" by (simp add: term_puts_def)
    with Cons False show ?thesis by simp
  qed
qed (simp add: term_puts_def)

text \<open>The lines of a text: it is split at its line feeds.\<close>

fun lines_of :: "string \<Rightarrow> string list" where
  "lines_of [] = [[]]"
| "lines_of (c # cs) = (if c = CHR 0x0A then [] # lines_of cs
     else (case lines_of cs of [] \<Rightarrow> [[c]] | l # ls \<Rightarrow> (c # l) # ls))"

lemma lines_of_line: "CHR 0x0A \<notin> set l \<Longrightarrow> lines_of l = [l]"
  by (induction l) auto

lemma lines_of_feed: "CHR 0x0A \<notin> set l \<Longrightarrow> lines_of (l @ CHR 0x0A # m) = l # lines_of m"
  by (induction l) auto

text \<open>What the console shows of a list of lines: the last 24, and a row for the next one.\<close>

definition log_lines :: "string list \<Rightarrow> term_state" where
  "log_lines ls = (if length ls \<le> 24 then (ls @ replicate (25 - length ls) [], length ls)
     else (drop (length ls - 24) ls @ [[]], 24))"

lemma log_lines_snoc:
  assumes "CHR 0x0A \<notin> set l"
  shows "term_puts (l @ [CHR 0x0A]) (log_lines ls) = log_lines (ls @ [take 149 l])"
proof -
  have put: "term_puts (l @ [CHR 0x0A]) (xs @ [] # ys, length xs) = term_put (CHR 0x0A) (xs @ take 149 l # ys, length xs)" for xs ys
    using term_puts_text [OF assms, of "length xs" "xs @ [] # ys"]
    by (simp add: term_puts_append) (simp add: term_puts_def)
  consider (few) "length ls < 24" | (last) "length ls = 24" | (many) "length ls > 24" by linarith
  then show ?thesis
  proof cases
    case few
    then obtain k where k: "24 - length ls = Suc k" by (cases "24 - length ls") auto
    then have "25 - length ls = Suc (Suc k)" by simp
    with few k put [of ls "[] # replicate k []"] show ?thesis by (simp add: log_lines_def)
  next
    case last
    then have "ls \<noteq> []" by auto
    with last put [of ls "[]"] show ?thesis by (simp add: log_lines_def drop_Suc)
  next
    case many
    then have "length (drop (length ls - 24) ls) = 24" "drop (length ls - 24) ls \<noteq> []" by simp_all
    moreover have "Suc (length ls - 24) = length ls - 23" using many by simp
    ultimately show ?thesis
      using many put [of "drop (length ls - 24) ls" "[]"] by (simp add: log_lines_def tl_drop drop_Suc flip: drop_Suc)
  qed
qed

lemma log_lines_text: "term_puts (str @ [CHR 0x0A]) (log_lines ls) = log_lines (ls @ map (take 149) (lines_of str))"
proof (induction "length str" arbitrary: str ls rule: less_induct)
  case less
  show ?case
  proof (cases "CHR 0x0A \<in> set str")
    case True
    then obtain a b where str: "str = a @ CHR 0x0A # b" "CHR 0x0A \<notin> set a" by (meson split_list_first)
    have "term_puts (str @ [CHR 0x0A]) (log_lines ls) = term_puts (b @ [CHR 0x0A]) (term_puts (a @ [CHR 0x0A]) (log_lines ls))"
      by (simp add: str(1) flip: term_puts_append)
    also have "\<dots> = log_lines ((ls @ [take 149 a]) @ map (take 149) (lines_of b))"
      unfolding log_lines_snoc [OF str(2)] by (rule less) (simp add: str(1))
    finally show ?thesis by (simp add: str lines_of_feed)
  qed (simp add: lines_of_line log_lines_snoc)
qed

text \<open>The lines that a sequence of \<open>kprintln!\<close> calls, each a list of pieces, puts on the screen.\<close>

definition printed_lines :: "string list list \<Rightarrow> string list" where
  "printed_lines calls = concat (map (\<lambda>ps. map (take 149) (lines_of (concat ps))) calls)"

lemma kprintln_log:
  assumes "represents W H bg fg s (log_lines [])" "\<not> console_locked s"
  shows "list_all (list_all (\<lambda>p. as_ascii p = Some p)) calls \<Longrightarrow>
    \<exists>u. for_each calls kprintln_fmt s = (Ret (), u) \<and> represents W H bg fg u (log_lines (printed_lines calls)) \<and> keeps W H s u"
proof (induction calls rule: rev_induct)
  case Nil
  then show ?case using assms(1) by (simp add: ret_def keeps_def printed_lines_def)
next
  case (snoc ps calls)
  then obtain u where u: "for_each calls kprintln_fmt s = (Ret (), u)"
      "represents W H bg fg u (log_lines (printed_lines calls))" "keeps W H s u"
    by auto
  have "\<not> console_locked u" using u(3) assms(2) by (simp add: keeps_def)
  from wpD [OF kprintln_refines [OF u(2) this, of ps]] snoc.prems
  obtain v where "kprintln_fmt ps u = (Ret (), v)"
      "represents W H bg fg v (term_puts (concat ps @ [CHR 0x0A]) (log_lines (printed_lines calls)))" "keeps W H u v"
    by auto
  with u(1,3) show ?case
    by (auto simp: for_each_append bnd_def ret_def log_lines_text printed_lines_def intro: keeps_trans)
qed

text \<open>Starting the console, the way \<open>main\<close> does it.\<close>

lemma console_started:
  assumes "fb_ok W H (screen s)" "\<not> frame_buf_locked (screen s)" "1200 \<le> W" "400 \<le> H" "\<not> console_locked s"
  shows "\<exists>t. unwrap (with_console (unwrap (Console_init bg fg))) s = (Ret (), t) \<and>
    represents W H bg fg t (log_lines []) \<and> keeps W H s t \<and> \<not> console_locked t"
proof -
  obtain t where t: "Console_init bg fg (s\<lparr>console_locked := True\<rparr>) = (Ret (Ok ()), t)"
      "represents W H bg fg t (replicate 25 [], 0)" "keeps W H (s\<lparr>console_locked := True\<rparr>) t"
    using console_init_result [of W H "s\<lparr>console_locked := True\<rparr>" bg fg] assms(1-4) by auto
  then have "unwrap (with_console (unwrap (Console_init bg fg))) s = (Ret (), t\<lparr>console_locked := False\<rparr>)"
    using assms(5) by (simp add: unwrap_def with_console_def bnd_def get_def update_def ret_def)
  with t assms(5) show ?thesis by (simp add: keeps_def log_lines_def)
qed

text \<open>The picture of a terminal on a mode without padding.\<close>

lemma represents_shown:
  assumes "represents W H bg fg u t" "keeps W H s u" "fb_ok W H (screen s)" "fb_stride (frame_buf (screen s)) = W"
    "x < W" "y < H"
  shows "shown_color (screen u) x y = (if x < 1200 \<and> y < 400
    then if lit (cells_of (fst t)) x y then rgb_of fg else rgb_of bg else shown_color (screen s) x y)"
proof -
  have rest: "fb_rest (screen u) = fb_rest (screen s)" using assms(2) by (simp add: keeps_def beyond_def)
  then have "frame_buf (screen u) = frame_buf (screen s)" using fb_rest_eq by blast
  moreover have "fb_width (frame_buf (screen s)) = W" using assms(3) by (simp add: fb_ok_def)
  ultimately have shown: "shown_color (screen u) x y = pixel_color (screen u) x y"
      "shown_color (screen s) x y = pixel_color (screen s) x y"
    using assms(4) by (simp_all add: unpadded_shows)
  have "snd (beyond W H (screen u)) x y = snd (beyond W H (screen s)) x y" using assms(2) by (simp add: keeps_def)
  then have "pixel_color (screen u) x y = pixel_color (screen s) x y" if "\<not> (x < 1200 \<and> y < 400)"
    using assms(5,6) that by (simp add: beyond_def split: if_splits)
  then show ?thesis
    using shown assms(1) by (simp add: represents_def canvas_def)
qed

text \<open>
  C27. The log on the screen: after \<open>Console::init\<close> on a screen of at least 1200 by 400 pixels, any sequence of
  \<open>kprintln!\<close> calls with ASCII text returns, and the console holds and displays the last 24 of the printed lines, in
  order, from the top, and an empty row for the next one. A text is split into lines at its line feeds, and a line is
  cut after 149 characters. On a mode without padding (\<open>stride = width\<close>) the screen shows exactly these lines, in the
  foreground color on the background color, in the rectangle of the console, and outside it what it showed before.
\<close>

theorem console_shows_last_lines:
  assumes "fb_ok W H (screen s)" and "\<not> frame_buf_locked (screen s)" and "1200 \<le> W" and "400 \<le> H"
    and "\<not> console_locked s" and "list_all (list_all (\<lambda>p. as_ascii p = Some p)) calls"
  shows "\<exists>u. bnd (unwrap (with_console (unwrap (Console_init bg fg)))) (\<lambda>_. for_each calls kprintln_fmt) s = (Ret (), u) \<and>
    represents W H bg fg u (log_lines (printed_lines calls)) \<and> keeps W H s u \<and>
    (fb_stride (frame_buf (screen s)) = W \<longrightarrow> (\<forall>x y. x < W \<longrightarrow> y < H \<longrightarrow> shown_color (screen u) x y =
      (if x < 1200 \<and> y < 400
       then if lit (cells_of (fst (log_lines (printed_lines calls)))) x y then rgb_of fg else rgb_of bg
       else shown_color (screen s) x y)))"
proof -
  obtain t where t: "unwrap (with_console (unwrap (Console_init bg fg))) s = (Ret (), t)"
      "represents W H bg fg t (log_lines [])" "keeps W H s t" "\<not> console_locked t"
    using console_started [OF assms(1-5)] by blast
  obtain u where u: "for_each calls kprintln_fmt t = (Ret (), u)"
      "represents W H bg fg u (log_lines (printed_lines calls))" "keeps W H t u"
    using kprintln_log [OF t(2,4) assms(6)] by blast
  have "keeps W H s u" using t(3) u(3) by (rule keeps_trans)
  with t(1) u(1,2) represents_shown [OF u(2) _ assms(1)] show ?thesis by (auto simp: bnd_def)
qed

section \<open>The shape of the console\<close>

text \<open>The sizes the Rust types and the code promise: 25 lines of capacity 150, and a cursor inside.\<close>

definition console_typed :: "terminal \<Rightarrow> bool" where
  "console_typed s \<longleftrightarrow> length (buffer (console s)) = ROWS \<and>
     list_all (\<lambda>l. length (line_chars l) = COLUMNS \<and> line_length l \<le> COLUMNS) (buffer (console s)) \<and>
     cursor_row (console s) < ROWS \<and> cursor_column (console s) < COLUMNS"

lemma typed_on_screen: "preserves console_typed (on_screen m)"
  by (rule preservesI) (simp add: on_screen_def zoom_def console_typed_def split: prod.split)

lemma typed_set_console:
  "console_typed (s\<lparr>console := f (console s)\<rparr>) \<Longrightarrow> console_typed (snd (set_console f s))"
  by (simp add: set_console_def update_def)

lemma typed_null: "length (line_chars (Line_null COLUMNS)) = COLUMNS \<and> line_length (Line_null COLUMNS) \<le> COLUMNS"
  by (simp add: Line_null_def)

lemma typed_line_push:
  assumes "length (line_chars l) = COLUMNS \<and> line_length l \<le> COLUMNS"
  shows "length (line_chars (snd (Line_push c l))) = COLUMNS \<and> line_length (snd (Line_push c l)) \<le> COLUMNS"
  using assms by (simp add: Line_push_def bnd_def get_def update_def ret_def usize_add_def panic_def)

lemma typed_line: "console_typed s \<Longrightarrow> i < ROWS \<Longrightarrow>
    length (line_chars (buffer (console s) ! i)) = COLUMNS \<and> line_length (buffer (console s) ! i) \<le> COLUMNS"
  by (simp add: console_typed_def list_all_length)

lemma typed_update:
  "console_typed s \<Longrightarrow> length (line_chars l) = COLUMNS \<and> line_length l \<le> COLUMNS \<Longrightarrow>
    console_typed (s\<lparr>console := (console s)\<lparr>buffer := (buffer (console s))[i := l]\<rparr>\<rparr>)"
  by (auto simp: console_typed_def list_all_iff dest!: set_update_subset_insert [THEN subsetD])

lemma typed_push_char: "preserves console_typed (push_char c)"
proof (rule preservesI)
  fix s assume s: "console_typed s"
  then have row: "cursor_row (console s) < ROWS" "length (buffer (console s)) = ROWS" by (simp_all add: console_typed_def)
  have "console_typed (snd (zoom (\<lambda>s. buffer (console s) ! cursor_row (console s))
      (\<lambda>l s. s\<lparr>console := (console s)\<lparr>buffer := (buffer (console s))[cursor_row (console s) := l]\<rparr>\<rparr>) (Line_push c) s))"
    using typed_update [OF s typed_line_push [OF typed_line [OF s row(1)]]] by (simp add: zoom_def split_beta)
  moreover have "preserves console_typed (case r of Inl _ \<Rightarrow> panic | Inr x \<Rightarrow> ret x)" for r :: "Error + unit"
    by (cases r) (simp_all add: preserves_rules)
  ultimately show "console_typed (snd (push_char c s))"
    using row s by (simp add: push_char_def bnd_def [where m = get] get_def unwrap_def preserves_from)
qed

lemma typed_draw: "preserves console_typed (for_each xs (\<lambda>(i, c). unwrap (on_screen (m i c))))"
  by (rule preserves_for_each) (simp add: preserves_unwrap typed_on_screen split: prod.split)

lemma typed_scroll_row: "preserves console_typed (scroll_row row)"
  unfolding scroll_row_def
proof (rule preserves_bnd_get)
  fix s assume s: "console_typed s"
  let ?copy = "set_console (\<lambda>c. c\<lparr>buffer := (buffer c)[row := buffer c ! (row + 1)]\<rparr>)"
  let ?draw = "let line = buffer (console s) ! (row + 1) in
     if line_length line \<le> length (line_chars line) then
       for_each (enumerate 0 (take (line_length line) (line_chars line))) (\<lambda>(i, c).
         unwrap (on_screen (write_char (CHARACTER_WIDTH * i) (CHARACTER_HEIGHT * row) c (fg_color (console s)))))
     else panic"
  have "console_typed (snd (?copy s))" if row: "row + 1 < length (buffer (console s))"
  proof (rule typed_set_console)
    have "row + 1 < ROWS" using row s by (simp add: console_typed_def)
    then show "console_typed (s\<lparr>console := (console s)\<lparr>buffer := (buffer (console s))[row := buffer (console s) ! (row + 1)]\<rparr>\<rparr>)"
      by (intro typed_update [OF s] typed_line [OF s])
  qed
  moreover have "preserves console_typed ?draw"
    by (simp add: Let_def typed_draw preserves_panic)
  ultimately have "console_typed (snd (bnd ?copy (\<lambda>_. ?draw) s))" if "row + 1 < length (buffer (console s))"
    by (rule preserves_from [OF _ _]) (use that in blast)+
  with s show "console_typed (snd ((if row + 1 < length (buffer (console s)) then bnd ?copy (\<lambda>_. ?draw) else panic) s))"
    by (cases "row + 1 < length (buffer (console s))") (simp_all only: if_True if_False panic_def snd_conv simp_thms)
qed

lemma typed_clear_last_line: "preserves console_typed clear_last_line"
proof -
  have "preserves console_typed (set_console (\<lambda>c. c\<lparr>buffer := (buffer c)[length (buffer c) - 1 := Line_null COLUMNS]\<rparr>))"
    by (rule preservesI, rule typed_set_console, rule typed_update) (simp_all add: typed_null)
  then show ?thesis by (intro preserves_rules)
qed

lemma typed_new_line: "preserves console_typed new_line"
  unfolding new_line_def
proof (rule preserves_bnd)
  show "preserves console_typed (set_console (\<lambda>c. c\<lparr>cursor_column := 0\<rparr>))"
    by (rule preservesI, rule typed_set_console) (simp add: console_typed_def COLUMNS_def)
  let ?scroll = "\<lambda>s. bnd (unwrap (on_screen (fill_rect 0 0 (COLUMNS * CHARACTER_WIDTH) (ROWS * CHARACTER_HEIGHT)
      (bg_color (console s))))) (\<lambda>_. bnd (for_each [0..<ROWS - 1] scroll_row) (\<lambda>_. clear_last_line))"
  have scroll: "preserves console_typed (?scroll s)" for s
    by (rule preserves_bnd preserves_unwrap typed_on_screen preserves_for_each typed_scroll_row typed_clear_last_line)+
  have down: "console_typed (snd (set_console (\<lambda>c. c\<lparr>cursor_row := cursor_row c + 1\<rparr>) s))"
    if "console_typed s" "cursor_row (console s) < ROWS - 1" for s
    using that by (intro typed_set_console) (simp add: console_typed_def)
  show "preserves console_typed (bnd get (\<lambda>s. if cursor_row (console s) < ROWS - 1
      then set_console (\<lambda>c. c\<lparr>cursor_row := cursor_row c + 1\<rparr>) else ?scroll s))"
  proof (rule preserves_bnd_get)
    fix s assume "console_typed s"
    with down scroll [of s] show "console_typed (snd ((if cursor_row (console s) < ROWS - 1
        then set_console (\<lambda>c. c\<lparr>cursor_row := cursor_row c + 1\<rparr>) else ?scroll s) s))"
      by (auto dest: preservesD split: if_splits)
  qed
qed

lemma typed_print_char: "preserves console_typed (print_char c)"
proof (cases "c = CHR 0x0A")
  case True
  then show ?thesis by (simp add: print_char_def typed_new_line)
next
  case False
  have put: "console_typed (snd (bnd (unwrap (on_screen (write_char (CHARACTER_WIDTH * cursor_column (console s))
      (CHARACTER_HEIGHT * cursor_row (console s)) c (fg_color (console s))))) (\<lambda>_.
      bnd (push_char c) (\<lambda>_.
      bnd (usize_add (cursor_column (console s)) 1) (\<lambda>col. set_console (\<lambda>c. c\<lparr>cursor_column := col\<rparr>)))) s))"
    if s: "console_typed s" "cursor_column (console s) < COLUMNS - 1" for s
  proof -
    have "preserves console_typed (set_console (\<lambda>c. c\<lparr>cursor_column := cursor_column (console s) + 1\<rparr>))"
      using s(2) by (intro preservesI typed_set_console) (simp add: console_typed_def)
    then have col: "preserves console_typed (bnd (usize_add (cursor_column (console s)) 1) (\<lambda>col.
        set_console (\<lambda>c. c\<lparr>cursor_column := col\<rparr>)))"
      by (simp add: usize_add_def preserves_panic)
    have "preserves console_typed (bnd (unwrap (on_screen (write_char (CHARACTER_WIDTH * cursor_column (console s))
      (CHARACTER_HEIGHT * cursor_row (console s)) c (fg_color (console s))))) (\<lambda>_.
      bnd (push_char c) (\<lambda>_.
      bnd (usize_add (cursor_column (console s)) 1) (\<lambda>col. set_console (\<lambda>c. c\<lparr>cursor_column := col\<rparr>)))))"
      by (rule preserves_bnd [OF preserves_unwrap [OF typed_on_screen] preserves_bnd [OF typed_push_char col]])
    with s(1) show ?thesis by (rule preservesD [rotated])
  qed
  have "preserves console_typed (bnd get (\<lambda>s. if cursor_column (console s) < COLUMNS - 1 then
      bnd (unwrap (on_screen (write_char (CHARACTER_WIDTH * cursor_column (console s))
        (CHARACTER_HEIGHT * cursor_row (console s)) c (fg_color (console s))))) (\<lambda>_.
      bnd (push_char c) (\<lambda>_.
      bnd (usize_add (cursor_column (console s)) 1) (\<lambda>col. set_console (\<lambda>c. c\<lparr>cursor_column := col\<rparr>))))
      else ret ()))"
    by (rule preserves_bnd_get) (use put in \<open>simp only: ret_def snd_conv split: if_split, simp\<close>)
  with False show ?thesis by (simp only: print_char_def if_False)
qed

lemma typed_with_console: "preserves console_typed m \<Longrightarrow> preserves console_typed (with_console m)"
proof -
  have "preserves console_typed (update (\<lambda>s. s\<lparr>console_locked := b\<rparr>))" for b
    by (rule preservesI) (simp add: update_def console_typed_def)
  then show "preserves console_typed m \<Longrightarrow> preserves console_typed (with_console m)"
    unfolding with_console_def by (intro preserves_rules)
qed

lemma typed_Console_print: "preserves console_typed (Console_print str)"
  unfolding Console_print_def expect_def
  by (cases "as_ascii str") (simp_all add: preserves_panic preserves_for_each typed_print_char)

text \<open>
  C38. The shape of the console is invariant: whatever is printed, with or without the lock, and also when printing panics, the
  buffer keeps 25 lines of capacity 150 whose lengths are within it, and the cursor stays inside the console.
  Initialisation keeps it too, and the static console has it.
\<close>

theorem console_stays_typed:
  "preserves console_typed (kprintln_fmt pieces) \<and> preserves console_typed (kprint pieces) \<and>
   preserves console_typed (print str) \<and> preserves console_typed (println str) \<and>
   preserves console_typed (with_console (Console_init bg fg)) \<and>
   console_typed \<lparr>screen = d, console = Console_new_empty, console_locked = False\<rparr>"
proof (intro conjI)
  have str: "preserves console_typed (print str)" "preserves console_typed (println str)" for str
    unfolding print_def println_def Console_println_def
    by (intro typed_with_console preserves_bnd typed_Console_print typed_new_line)+
  then show "preserves console_typed (print str)" "preserves console_typed (println str)" by blast+
  show p: "preserves console_typed (kprint pieces)"
    unfolding kprint_eq by (intro preserves_unwrap typed_with_console preserves_for_each typed_Console_print)
  show "preserves console_typed (kprintln_fmt pieces)"
    unfolding kprintln_fmt_def by (intro preserves_bnd preserves_unwrap p str)
  have "preserves console_typed (set_console (\<lambda>_. \<lparr>buffer = replicate ROWS (Line_null COLUMNS), bg_color = bg, fg_color = fg,
      cursor_row = 0, cursor_column = 0\<rparr>))"
    by (intro preservesI typed_set_console) (simp add: console_typed_def list_all_iff Line_null_def ROWS_def COLUMNS_def)
  then show "preserves console_typed (with_console (Console_init bg fg))"
    unfolding Console_init_def by (intro typed_with_console preserves_rules typed_on_screen)
  show "console_typed \<lparr>screen = d, console = Console_new_empty, console_locked = False\<rparr>"
    by (simp add: console_typed_def Console_new_empty_def list_all_iff Line_null_def ROWS_def COLUMNS_def)
qed

section \<open>A screen of 1280 by 800\<close>

definition fresh_terminal :: terminal where
  "fresh_terminal = \<lparr>screen = small_screen\<lparr>frame_buf := (frame_buf small_screen)\<lparr>fb_width := 1280, fb_height := 800,
     fb_stride := 1280\<rparr>\<rparr>, console = Console_new_empty, console_locked = False\<rparr>"

lemma fresh_terminal_ok:
  "fb_ok 1280 800 (screen fresh_terminal)" "\<not> frame_buf_locked (screen fresh_terminal)" "\<not> console_locked fresh_terminal"
  by (simp_all add: fresh_terminal_def small_screen_def fb_ok_def)

theorem console_init_blank_witness:
  "\<exists>t. Console_init 0x3c383600 0xebdbb200 fresh_terminal = (Ret (Ok ()), t) \<and>
    represents 1280 800 0x3c383600 0xebdbb200 t (replicate 25 [], 0)"
  using console_init_blank [OF fresh_terminal_ok(1,2), of "0x3c383600" "0xebdbb200"] by auto

lemma started_console:
  obtains t where "represents 1280 800 0x3c383600 0xebdbb200 t (replicate 25 [], 0)" "\<not> console_locked t"
  using console_init_result [OF fresh_terminal_ok(1,2), of "0x3c383600" "0xebdbb200"] fresh_terminal_ok(3)
  by (auto simp: keeps_def)

theorem kprintln_refines_terminal_witness:
  "\<exists>s u. represents 1280 800 0x3c383600 0xebdbb200 s (replicate 25 [], 0) \<and> kprintln_fmt [''rsdp: '', ''0x7F''] s = (Ret (), u) \<and>
    represents 1280 800 0x3c383600 0xebdbb200 u (''rsdp: 0x7F'' # replicate 24 [], 1)"
proof -
  obtain s where s: "represents 1280 800 0x3c383600 0xebdbb200 s (replicate 25 [], 0)" "\<not> console_locked s"
    by (rule started_console)
  have "list_all (\<lambda>p. as_ascii p = Some p) [''rsdp: '', ''0x7F'']"
      "term_puts (concat [''rsdp: '', ''0x7F''] @ [CHR 0x0A]) (replicate 25 [], 0) = (''rsdp: 0x7F'' # replicate 24 [], 1)"
    by code_simp+
  with kprintln_refines_terminal [OF s, of "[''rsdp: '', ''0x7F'']"] s(1) show ?thesis by auto
qed

theorem console_shows_last_lines_witness:
  "\<exists>u. bnd (unwrap (with_console (unwrap (Console_init 0x3c383600 0xebdbb200)))) (\<lambda>_.
      for_each (replicate 30 [''t'', [CHR 0x0A], replicate 200 (CHR ''x'')]) kprintln_fmt) fresh_terminal = (Ret (), u) \<and>
    represents 1280 800 0x3c383600 0xebdbb200 u
      (concat (replicate 12 [''t'', replicate 149 (CHR ''x'')]) @ [[]], 24) \<and>
    shown_color (screen u) 16 0 = rgb_of 0x3c383600 \<and> shown_color (screen u) 1279 799 = shown_color (screen fresh_terminal) 1279 799"
proof -
  let ?call = "[''t'', [CHR 0x0A], replicate 200 (CHR ''x'')]"
  have "fb_stride (frame_buf (screen fresh_terminal)) = 1280" by (simp add: fresh_terminal_def)
  moreover have ascii: "list_all (list_all (\<lambda>p. as_ascii p = Some p)) (replicate 30 ?call)"
    by (auto simp: list_all_iff as_ascii_def)
  have "lines_of (concat ?call) = [''t'', replicate 200 (CHR ''x'')]"
    using lines_of_feed [of "''t''" "replicate 200 (CHR ''x'')"] by (simp add: lines_of_line)
  then have "printed_lines (replicate 30 ?call) = concat (replicate 30 [''t'', replicate 149 (CHR ''x'')])"
    by (simp only: printed_lines_def map_replicate) simp
  then have log: "log_lines (printed_lines (replicate 30 ?call)) = (concat (replicate 12 [''t'', replicate 149 (CHR ''x'')]) @ [[]], 24)"
    by (simp add: log_lines_def numeral_eq_Suc)
  moreover have "\<not> lit (cells_of (concat (replicate 12 [''t'', replicate 149 (CHR ''x'')]) @ [[]])) 16 0"
  proof -
    have "replicate 12 z = z # replicate 11 z" for z :: "string list" by (simp add: numeral_eq_Suc)
    then show ?thesis by (simp add: lit_def cells_of_def)
  qed
  ultimately show ?thesis
    using console_shows_last_lines [OF fresh_terminal_ok(1,2) _ _ fresh_terminal_ok(3) ascii,
        of "0x3c383600" "0xebdbb200"] unfolding log by auto
qed

theorem kprint_panics_witness:
  "kprintln_fmt [[CHR 0xE9]] fresh_terminal = (Panic, fresh_terminal\<lparr>console_locked := True\<rparr>)"
proof -
  have "as_ascii [CHR 0xE9] = None" by code_simp
  with kprint_panics [of fresh_terminal "[]" "[CHR 0xE9]" "[]"] fresh_terminal_ok(3) show ?thesis by simp
qed

end
