(* ===== verification/Cursor.thy ===== *)
theory Cursor
  imports Console Port_Io
begin

text \<open>
  The mouse cursor: \<open>kernel/src/graphic/mouse.rs\<close>. The shape is an array of strings; \<open>draw_cursor\<close> walks over it and
  draws one pixel per character, ignoring the result of every \<open>write_pixel\<close>. The picture lemmas of \<open>Frame_Buffer\<close>
  are extended from one color to a list of colored points.
\<close>

section \<open>Drawing\<close>

definition CURSOR_WIDTH :: usize where "CURSOR_WIDTH = 15"

definition CURSOR_HEIGHT :: usize where "CURSOR_HEIGHT = 15"

definition CURSOR_SHAPE_STR :: "string list" where
  "CURSOR_SHAPE_STR = [
     ''      @@@      '',
     ''    @@...@@    '',
     ''   @.......@   '',
     ''  @...@@@...@  '',
     '' @...@   @...@ '',
     '' @..@     @..@ '',
     ''@..@       @..@'',
     ''@..@       @..@'',
     ''@..@       @..@'',
     '' @..@     @..@ '',
     '' @...@   @...@ '',
     ''  @...@@@...@  '',
     ''   @.......@   '',
     ''    @@...@@    '',
     ''      @@@      '']"

text \<open>The \<open>match\<close> on one character of the shape.\<close>

definition draw_cursor_char :: "usize \<Rightarrow> usize \<Rightarrow> char \<Rightarrow> (terminal, unit) prog" where
  "draw_cursor_char x y c =
     (if c = CHR '' '' then ret ()
      else if c = CHR ''.'' then
        bnd (on_screen (write_pixel x y (Pixel_from_RgbColor 0x689d6a00))) (\<lambda>_. ret ())
      else if c = CHR ''@'' then
        bnd (on_screen (write_pixel x y (Pixel_from_RgbColor 0xfbf1c700))) (\<lambda>_. ret ())
      else kprintln_fmt [''There is an unexpected character \"'', [c], ''\" in CURSOR_SHAPE_STR''])"

definition draw_cursor :: "(terminal, unit) prog" where
  "draw_cursor =
     for_each (enumerate 0 CURSOR_SHAPE_STR) (\<lambda>(y, row).
       bnd (if y \<ge> CURSOR_HEIGHT then
              kprintln_fmt [''CURSOR_HEIGHT was defined to be '', decimal CURSOR_HEIGHT,
                '' but, CURSOR_SHAPE_STR is '', decimal (y + 1), '' in height.'']
            else ret ()) (\<lambda>_.
       for_each (enumerate 0 row) (\<lambda>(x, c).
         bnd (if x \<ge> CURSOR_WIDTH then
                kprintln_fmt [''CURSOR_WIDTH was defined to be '', decimal CURSOR_WIDTH,
                  '' but, CURSOR_SHAPE_STR is '', decimal (x + 1), '' in width.'']
              else ret ()) (\<lambda>_.
         draw_cursor_char x y c))))"

section \<open>Colored points\<close>

lemma write_pixel_drawn:
  assumes "fb_ok W H s" "\<not> frame_buf_locked s"
  shows "\<exists>r t. write_pixel x y (Pixel_from_RgbColor c) s = (Ret r, t) \<and> drawn W H (\<lambda>x' y'. x' = x \<and> y' = y) c s t"
proof -
  let ?r = "if \<forall>(x', y') \<in> set [(x, y)]. x' < W \<and> y' < H then Ok () else Err (FrameBufferError OutsideBufferError)"
  have one: "FrameBuf_write_pixel x y (Pixel_from_RgbColor c) =
      for_eachE [(x, y)] (\<lambda>(x, y). FrameBuf_write_pixel x y (Pixel_from_RgbColor c))"
    by (simp add: bndE_done)
  have "\<exists>t. write_pixel x y (Pixel_from_RgbColor c) s = (Ret ?r, t) \<and>
      drawn W H (\<lambda>x' y'. (x', y') \<in> set (takeWhile (\<lambda>(x, y). x < W \<and> y < H) [(x, y)])) c s t"
    unfolding entry_points bndE_done one
    by (rule with_frame_buf_drawn [OF assms(2)]) (rule plot_list, simp add: assms(1))
  then show ?thesis by (auto elim!: drawn_cong)
qed

text \<open>From \<open>s\<close> to \<open>t\<close> the pixels got the colors of \<open>pic\<close>, and nothing else changed.\<close>

definition stamped :: "nat \<Rightarrow> nat \<Rightarrow> (nat \<times> nat \<rightharpoonup> RgbColor) \<Rightarrow> display \<Rightarrow> display \<Rightarrow> bool" where
  "stamped W H pic s t \<longleftrightarrow> fb_ok W H t \<and> fb_rest t = fb_rest s \<and> (\<forall>x y. x < W \<longrightarrow> y < H \<longrightarrow>
     pixel_color t x y = (case pic (x, y) of None \<Rightarrow> pixel_color s x y | Some c \<Rightarrow> rgb_of c))"

lemma stamped_refl: "fb_ok W H s \<Longrightarrow> stamped W H Map.empty s s"
  by (simp add: stamped_def)

lemma stamped_drawn:
  "stamped W H pic s t \<Longrightarrow> drawn W H (\<lambda>x' y'. x' = x \<and> y' = y) c t u \<Longrightarrow> stamped W H (pic((x, y) \<mapsto> c)) s u"
  by (simp add: stamped_def drawn_def)

definition stamp :: "((nat \<times> nat) \<times> RgbColor) list \<Rightarrow> (terminal, unit) prog" where
  "stamp ps = for_each ps (\<lambda>((x, y), c). bnd (on_screen (write_pixel x y (Pixel_from_RgbColor c))) (\<lambda>_. ret ()))"

lemma stamp_result:
  assumes "fb_ok W H (screen s)" "\<not> frame_buf_locked (screen s)"
  shows "\<exists>d. stamp ps s = (Ret (), s\<lparr>screen := d\<rparr>) \<and> stamped W H (map_of (rev ps)) (screen s) d"
proof (induction ps rule: rev_induct)
  case Nil
  show ?case using assms by (auto simp: stamp_def ret_def intro!: exI [of _ "screen s"] stamped_refl)
next
  case (snoc p ps)
  obtain x y c where p: "p = ((x, y), c)" by (metis surj_pair)
  from snoc obtain d where d: "stamp ps s = (Ret (), s\<lparr>screen := d\<rparr>)" "stamped W H (map_of (rev ps)) (screen s) d"
    by blast
  have "fb_ok W H d" "\<not> frame_buf_locked d"
    using d(2) assms fb_rest_eq [of d "screen s"] by (simp_all add: stamped_def)
  from write_pixel_drawn [OF this, of x y c]
  obtain r e where e: "write_pixel x y (Pixel_from_RgbColor c) d = (Ret r, e)" "drawn W H (\<lambda>x' y'. x' = x \<and> y' = y) c d e"
    by blast
  have "stamp (ps @ [p]) s = (Ret (), s\<lparr>screen := e\<rparr>)"
    using d(1) e(1) by (simp add: stamp_def for_each_append p bnd_def on_screen_def zoom_def ret_def)
  moreover have "stamped W H (map_of (rev (ps @ [p]))) (screen s) e"
    using stamped_drawn [OF d(2) e(2)] by (simp add: p)
  ultimately show ?case by blast
qed

section \<open>The cursor\<close>

text \<open>What the shape says: the color of each of its pixels.\<close>

fun shape_color :: "char \<Rightarrow> RgbColor option" where
  "shape_color c = (if c = CHR ''.'' then Some 0x689d6a00 else if c = CHR ''@'' then Some 0xfbf1c700 else None)"

definition cursor_pixel :: "nat \<times> nat \<rightharpoonup> RgbColor" where
  "cursor_pixel = (\<lambda>(x, y). if x < 15 \<and> y < 15 then shape_color (CURSOR_SHAPE_STR ! y ! x) else None)"

definition cursor_points :: "((nat \<times> nat) \<times> RgbColor) list" where
  "cursor_points = concat (map (\<lambda>(y, row). concat (map (\<lambda>(x, c). case shape_color c of
     None \<Rightarrow> [] | Some k \<Rightarrow> [((x, y), k)]) (enumerate 0 row))) (enumerate 0 CURSOR_SHAPE_STR))"

lemma for_each_concat: "for_each (concat (map f xs)) body = for_each xs (\<lambda>x. for_each (f x) body)"
  by (induction xs) (simp_all add: for_each_append)

lemma for_each_cong [fundef_cong]:
  "xs = ys \<Longrightarrow> (\<And>x. x \<in> set ys \<Longrightarrow> body x = body' x) \<Longrightarrow> for_each xs body = for_each ys body'"
  by (induction xs arbitrary: ys) auto

text \<open>Neither warning is ever printed: the shape is 15 by 15 and made of three characters.\<close>

lemma shape_facts:
  "list_all (\<lambda>(y, row). y < 15 \<and> list_all (\<lambda>(x, c). x < 15 \<and> c \<in> {CHR '' '', CHR ''.'', CHR ''@''}) (enumerate 0 row))
    (enumerate 0 CURSOR_SHAPE_STR)"
  by code_simp

lemma draw_cursor_stamps: "draw_cursor = stamp cursor_points"
proof -
  have char: "bnd (if x \<ge> CURSOR_WIDTH then w else ret ()) (\<lambda>_. draw_cursor_char x y c) =
      for_each (case shape_color c of None \<Rightarrow> [] | Some k \<Rightarrow> [((x, y), k)])
        (\<lambda>((x, y), c). bnd (on_screen (write_pixel x y (Pixel_from_RgbColor c))) (\<lambda>_. ret ()))"
    if "x < 15" "c \<in> {CHR '' '', CHR ''.'', CHR ''@''}" for x y c w
    using that by (auto simp: CURSOR_WIDTH_def draw_cursor_char_def bnd_assoc)
  have row: "(case p of (y, row) \<Rightarrow> bnd (if y \<ge> CURSOR_HEIGHT then w y else ret ()) (\<lambda>_.
      for_each (enumerate 0 row) (\<lambda>(x, c). bnd (if x \<ge> CURSOR_WIDTH then v x else ret ()) (\<lambda>_. draw_cursor_char x y c)))) =
      for_each (case p of (y, row) \<Rightarrow> concat (map (\<lambda>(x, c). case shape_color c of
        None \<Rightarrow> [] | Some k \<Rightarrow> [((x, y), k)]) (enumerate 0 row)))
        (\<lambda>((x, y), c). bnd (on_screen (write_pixel x y (Pixel_from_RgbColor c))) (\<lambda>_. ret ()))"
    if "p \<in> set (enumerate 0 CURSOR_SHAPE_STR)" for p w v
  proof -
    obtain y row where p: "p = (y, row)" by (cases p)
    have y: "y < 15" and chars: "\<And>x c. (x, c) \<in> set (enumerate 0 row) \<Longrightarrow> x < 15 \<and> c \<in> {CHR '' '', CHR ''.'', CHR ''@''}"
      using shape_facts that unfolding p list_all_iff by fastforce+
    show ?thesis
      unfolding p prod.case for_each_concat using y
      by (simp only: CURSOR_HEIGHT_def not_le [symmetric] if_False bnd_ret_left)
        (intro for_each_cong refl, use char chars in \<open>simp only: split_paired_all prod.case\<close>)
  qed
  show ?thesis
    unfolding draw_cursor_def stamp_def cursor_points_def for_each_concat
    by (intro for_each_cong refl row)
qed

text \<open>The points of a picture given as rows of characters, and the color they give a pixel.\<close>

lemma row_points:
  "((x, y), k) \<in> set (concat (map (\<lambda>(y, row). concat (map (\<lambda>(x, c). case g c of None \<Rightarrow> [] | Some k \<Rightarrow> [((x, y), k)])
      (enumerate 0 row))) (enumerate 0 ls))) \<longleftrightarrow> y < length ls \<and> x < length (ls ! y) \<and> g (ls ! y ! x) = Some k"
  by (auto simp: in_set_enumerate_eq split: option.splits intro!: bexI [of _ "(y, ls ! y)"] bexI [of _ "(x, ls ! y ! x)"])

lemma shape_size: "length CURSOR_SHAPE_STR = 15" "y < 15 \<Longrightarrow> length (CURSOR_SHAPE_STR ! y) = 15"
proof -
  have "length CURSOR_SHAPE_STR = 15 \<and> list_all (\<lambda>row. length row = 15) CURSOR_SHAPE_STR" by code_simp
  then show "length CURSOR_SHAPE_STR = 15" "y < 15 \<Longrightarrow> length (CURSOR_SHAPE_STR ! y) = 15"
    by (auto simp: list_all_length)
qed

lemma cursor_points_pixels: "map_of (rev cursor_points) = cursor_pixel"
proof
  fix p :: "nat \<times> nat"
  have mem: "(p, k) \<in> set (rev cursor_points) \<longleftrightarrow> cursor_pixel p = Some k" for k
    unfolding cursor_points_def set_rev
    by (cases p) (simp only: row_points, auto simp: cursor_pixel_def shape_size simp del: shape_color.simps)
  show "map_of (rev cursor_points) p = cursor_pixel p"
  proof (cases "map_of (rev cursor_points) p")
    case None
    then show ?thesis using mem weak_map_of_SomeI [of p _ "rev cursor_points"] by (cases "cursor_pixel p") auto
  next
    case (Some k)
    then show ?thesis using mem map_of_SomeD [of "rev cursor_points" p k] by simp
  qed
qed

text \<open>
  C33. \<open>draw_cursor\<close> on an initialised frame buffer of any size: it returns, prints nothing, and the pixels of the shape
  that lie on the screen have its two colors; the blanks of the shape, every other pixel, memory outside the
  pixels and the console are as before. Pixels are in the addressing of the driver, which is that of the screen on a mode
  without padding.
\<close>

theorem draw_cursor_paints_shape:
  assumes "fb_ok W H (screen s)" and "\<not> frame_buf_locked (screen s)"
  shows "\<exists>d. draw_cursor s = (Ret (), s\<lparr>screen := d\<rparr>) \<and> stamped W H cursor_pixel (screen s) d"
  using stamp_result [OF assms, of cursor_points] by (simp add: draw_cursor_stamps cursor_points_pixels)

theorem draw_cursor_paints_shape_witness:
  "\<exists>d. draw_cursor fresh_terminal = (Ret (), fresh_terminal\<lparr>screen := d\<rparr>) \<and>
    pixel_color d 6 0 = rgb_of 0xfbf1c700 \<and> pixel_color d 7 1 = rgb_of 0x689d6a00 \<and>
    pixel_color d 7 7 = pixel_color (screen fresh_terminal) 7 7"
proof -
  have "cursor_pixel (6, 0) = Some 0xfbf1c700" "cursor_pixel (7, 1) = Some 0x689d6a00" "cursor_pixel (7, 7) = None"
    by code_simp+
  with draw_cursor_paints_shape [OF fresh_terminal_ok(1,2)] show ?thesis by (auto simp: stamped_def)
qed

end
