(* ===== verification/Acpi.thy ===== *)
theory Acpi
  imports Port_Io
begin

text \<open>
  Finding the ACPI tables: \<open>kernel/src/acpi.rs\<close>. The \<open>acpi\<close> crate (validation of tables, the entries of the MADT) and
  the memory that holds the tables are a parameter, \<open>acpi_crate\<close>, a record of the answers the kernel asks for, by address.
  \<open>kprintln!\<close> is a parameter too: every call site is a constructor of \<open>acpi_msg\<close> with the values it prints. The state
  has the two \<open>Once\<close> cells and the state \<open>'l\<close> of the logger.
\<close>

section \<open>Data\<close>

datatype AcpiError =
    RsdpIncorrectSignature
  | RsdpInvalidOemId
  | RsdpInvalidChecksum
  | SdtInvalidSignature
  | SdtInvalidOemId
  | SdtInvalidTableId
  | SdtInvalidChecksum
  | OtherAcpiError

datatype Signature = XSDT | FADT | MADT

record LocalApicEntry =
  lapic_processor_id :: u8
  lapic_apic_id :: u8

record IoApicEntry =
  entry_io_apic_id :: u8
  entry_io_apic_address :: u32

datatype MadtEntry = LocalApicE LocalApicEntry | IoApicE IoApicEntry | OtherE

record Madt =
  madt_local_apic_address :: u32
  madt_entries :: "MadtEntry list"

text \<open>The crate and the tables: addresses are physical; \<open>read_u64\<close> is an unaligned read.\<close>

record acpi_crate =
  rsdp_validate :: "u64 \<Rightarrow> AcpiError option"
  rsdp_revision :: "u64 \<Rightarrow> u8"
  rsdp_xsdt_address :: "u64 \<Rightarrow> u64"
  sdt_validate :: "u64 \<Rightarrow> Signature \<Rightarrow> AcpiError option"
  sdt_length :: "u64 \<Rightarrow> u32"
  read_u64 :: "u64 \<Rightarrow> u64"
  madt_at :: "u64 \<Rightarrow> Madt"
  rsdp_signature_text :: "u64 \<Rightarrow> string"
  rsdp_oem_id_text :: "u64 \<Rightarrow> string"
  sdt_signature_text :: "u64 \<Rightarrow> string"

definition SdtHeader_size :: usize where "SdtHeader_size = 36"

record ApicInfo =
  info_local_apic_base :: u32
  info_local_apic :: LocalApicEntry
  info_io_apic :: IoApicEntry

datatype acpi_msg =
    Msg_rsdp_signature u64
  | Msg_rsdp_oem_id u64
  | Msg_rsdp_checksum
  | Msg_unreachable
  | Msg_revision u8
  | Msg_xsdt_signature u64
  | Msg_xsdt_oem_id
  | Msg_xsdt_table_id
  | Msg_xsdt_checksum
  | Msg_rsdp_invalid
  | Msg_xsdt_invalid
  | Msg_fadt_missing
  | Msg_madt_missing
  | Msg_fadt_found u64
  | Msg_madt_found u64

text \<open>What each of them prints; the texts of fields of the tables come from the crate.\<close>

fun acpi_text :: "acpi_crate \<Rightarrow> acpi_msg \<Rightarrow> string" where
  "acpi_text crate (Msg_rsdp_signature p) = ''invalid signature: '' @ rsdp_signature_text crate p"
| "acpi_text crate (Msg_rsdp_oem_id p) = ''invalid oem id: '' @ rsdp_oem_id_text crate p"
| "acpi_text crate Msg_rsdp_checksum = ''invalid checksum.''"
| "acpi_text crate Msg_unreachable = ''unreachable!''"
| "acpi_text crate (Msg_revision r) = ''ACPI revision must be 2: '' @ decimal (unat r)"
| "acpi_text crate (Msg_xsdt_signature p) = ''invalid signature: '' @ sdt_signature_text crate p"
| "acpi_text crate Msg_xsdt_oem_id = ''invalid oem id''"
| "acpi_text crate Msg_xsdt_table_id = ''invalid table id''"
| "acpi_text crate Msg_xsdt_checksum = ''invalid checksum:''"
| "acpi_text crate Msg_rsdp_invalid = ''RSDP isn't valid.''"
| "acpi_text crate Msg_xsdt_invalid = ''XSDT is not valid.''"
| "acpi_text crate Msg_fadt_missing = ''FADT isn't found.''"
| "acpi_text crate Msg_madt_missing = ''MADT isn't found.''"
| "acpi_text crate (Msg_fadt_found p) = ''FADT is found: 0x'' @ upper_hex (unat p)"
| "acpi_text crate (Msg_madt_found p) = ''MADT is found: 0x'' @ upper_hex (unat p)"

record 'l acpi_state =
  fadt_once :: "u64 option"
  apic_info_once :: "ApicInfo option"
  logger :: 'l

section \<open>Operations\<close>

definition log_msg :: "(acpi_msg \<Rightarrow> ('l, unit) prog) \<Rightarrow> acpi_msg \<Rightarrow> ('l acpi_state, unit) prog" where
  "log_msg pr msg = zoom logger (\<lambda>l s. s\<lparr>logger := l\<rparr>) (pr msg)"

definition Rsdp_is_valid :: "acpi_crate \<Rightarrow> (acpi_msg \<Rightarrow> ('l, unit) prog) \<Rightarrow> u64 \<Rightarrow> ('l acpi_state, bool) prog" where
  "Rsdp_is_valid crate pr self =
     (case rsdp_validate crate self of
        Some RsdpIncorrectSignature \<Rightarrow> bnd (log_msg pr (Msg_rsdp_signature self)) (\<lambda>_. ret False)
      | Some RsdpInvalidOemId \<Rightarrow> bnd (log_msg pr (Msg_rsdp_oem_id self)) (\<lambda>_. ret False)
      | Some RsdpInvalidChecksum \<Rightarrow> bnd (log_msg pr Msg_rsdp_checksum) (\<lambda>_. ret False)
      | Some _ \<Rightarrow> bnd (log_msg pr Msg_unreachable) (\<lambda>_. panic)
      | None \<Rightarrow>
          if rsdp_revision crate self \<noteq> 2
          then bnd (log_msg pr (Msg_revision (rsdp_revision crate self))) (\<lambda>_. ret False)
          else ret True)"

definition Xsdt_count :: "acpi_crate \<Rightarrow> u64 \<Rightarrow> ('s, usize) prog" where
  "Xsdt_count crate self =
     bnd (usize_sub (unat (sdt_length crate self)) SdtHeader_size) (\<lambda>n. ret (n div 8))"

definition Xsdt_get :: "acpi_crate \<Rightarrow> u64 \<Rightarrow> usize \<Rightarrow> u64" where
  "Xsdt_get crate self i = read_u64 crate (self + of_nat SdtHeader_size + 8 * of_nat i)"

definition Xsdt_is_valid :: "acpi_crate \<Rightarrow> (acpi_msg \<Rightarrow> ('l, unit) prog) \<Rightarrow> u64 \<Rightarrow> ('l acpi_state, bool) prog" where
  "Xsdt_is_valid crate pr self =
     (case sdt_validate crate self XSDT of
        Some SdtInvalidSignature \<Rightarrow> bnd (log_msg pr (Msg_xsdt_signature self)) (\<lambda>_. ret False)
      | Some SdtInvalidOemId \<Rightarrow> bnd (log_msg pr Msg_xsdt_oem_id) (\<lambda>_. ret False)
      | Some SdtInvalidTableId \<Rightarrow> bnd (log_msg pr Msg_xsdt_table_id) (\<lambda>_. ret False)
      | Some SdtInvalidChecksum \<Rightarrow> bnd (log_msg pr Msg_xsdt_checksum) (\<lambda>_. ret False)
      | Some _ \<Rightarrow> bnd (log_msg pr Msg_unreachable) (\<lambda>_. panic)
      | None \<Rightarrow> ret True)"

fun find_io_apic :: "MadtEntry list \<Rightarrow> IoApicEntry option" where
  "find_io_apic [] = None"
| "find_io_apic (IoApicE o1 # es) = Some o1"
| "find_io_apic (_ # es) = find_io_apic es"

fun find_local_apic :: "MadtEntry list \<Rightarrow> LocalApicEntry option" where
  "find_local_apic [] = None"
| "find_local_apic (LocalApicE o1 # es) = Some o1"
| "find_local_apic (_ # es) = find_local_apic es"

definition from_madt :: "Madt \<Rightarrow> ('s, ApicInfo) prog" where
  "from_madt madt =
     bnd (expect (find_io_apic (madt_entries madt))) (\<lambda>io_apic_entry.
     bnd (expect (find_local_apic (madt_entries madt))) (\<lambda>local_apic_entry.
     ret \<lparr>info_local_apic_base = madt_local_apic_address madt, info_local_apic = local_apic_entry,
       info_io_apic = io_apic_entry\<rparr>))"

definition local_apic_base :: "ApicInfo \<Rightarrow> u32" where
  "local_apic_base self = info_local_apic_base self"

declare local_apic_base_def [simp]

definition io_apic_base :: "ApicInfo \<Rightarrow> u32" where
  "io_apic_base self = entry_io_apic_address (info_io_apic self)"

definition io_apic_id :: "ApicInfo \<Rightarrow> u8" where
  "io_apic_id self = entry_io_apic_id (info_io_apic self)"

definition processor_id :: "ApicInfo \<Rightarrow> u8" where
  "processor_id self = lapic_processor_id (info_local_apic self)"

text \<open>The loop over the entries of the XSDT; a later table of the same kind replaces an earlier one.\<close>

definition find_step :: "acpi_crate \<Rightarrow> u64 \<Rightarrow> nat \<Rightarrow> u64 \<times> u64 \<Rightarrow> u64 \<times> u64" where
  "find_step crate xsdt i = (\<lambda>(fadt_ptr, madt_ptr).
     let entry = Xsdt_get crate xsdt i;
         fadt_ptr = (if sdt_validate crate entry FADT = None then entry else fadt_ptr);
         madt_ptr = (if sdt_validate crate entry MADT = None then entry else madt_ptr)
     in (fadt_ptr, madt_ptr))"

definition find_tables :: "acpi_crate \<Rightarrow> u64 \<Rightarrow> nat \<Rightarrow> u64 \<times> u64" where
  "find_tables crate xsdt n = fold (find_step crate xsdt) [0..<n] (0, 0)"

text \<open>\<open>Once::call_once\<close>: the initialiser runs only if the cell is empty.\<close>

definition call_once_apic :: "('l acpi_state, ApicInfo) prog \<Rightarrow> ('l acpi_state, unit) prog" where
  "call_once_apic f = bnd get (\<lambda>s. case apic_info_once s of
      Some _ \<Rightarrow> ret ()
    | None \<Rightarrow> bnd f (\<lambda>info. update (\<lambda>s. s\<lparr>apic_info_once := Some info\<rparr>)))"

definition call_once_fadt :: "u64 \<Rightarrow> ('l acpi_state, unit) prog" where
  "call_once_fadt p = update (\<lambda>s. case fadt_once s of Some _ \<Rightarrow> s | None \<Rightarrow> s\<lparr>fadt_once := Some p\<rparr>)"

definition acpi_init :: "acpi_crate \<Rightarrow> (acpi_msg \<Rightarrow> ('l, unit) prog) \<Rightarrow> u64 \<Rightarrow> ('l acpi_state, unit) prog" where
  "acpi_init crate pr rsdp =
     bnd (Rsdp_is_valid crate pr rsdp) (\<lambda>valid.
     if \<not> valid then bnd (log_msg pr Msg_rsdp_invalid) (\<lambda>_. panic)
     else let xsdt = rsdp_xsdt_address crate rsdp in
     bnd (Xsdt_is_valid crate pr xsdt) (\<lambda>valid.
     if \<not> valid then bnd (log_msg pr Msg_xsdt_invalid) (\<lambda>_. panic)
     else
     bnd (Xsdt_count crate xsdt) (\<lambda>n.
     let (fadt_ptr, madt_ptr) = find_tables crate xsdt n in
     if fadt_ptr = 0 then bnd (log_msg pr Msg_fadt_missing) (\<lambda>_. panic)
     else if madt_ptr = 0 then bnd (log_msg pr Msg_madt_missing) (\<lambda>_. panic)
     else
       bnd (log_msg pr (Msg_fadt_found fadt_ptr)) (\<lambda>_.
       bnd (call_once_fadt fadt_ptr) (\<lambda>_.
       bnd (log_msg pr (Msg_madt_found madt_ptr)) (\<lambda>_.
       call_once_apic (from_madt (madt_at crate madt_ptr))))))))"

definition get_fadt :: "('l acpi_state, u64) prog" where
  "get_fadt = bnd get (\<lambda>s. expect (fadt_once s))"

definition get_apic_info :: "('l acpi_state, ApicInfo) prog" where
  "get_apic_info = bnd get (\<lambda>s. expect (apic_info_once s))"

section \<open>Specification\<close>

text \<open>The last entry of a table list that validates with a signature.\<close>

definition last_valid :: "acpi_crate \<Rightarrow> Signature \<Rightarrow> u64 list \<Rightarrow> u64 option" where
  "last_valid crate sig entries = find (\<lambda>p. sdt_validate crate p sig = None) (rev entries)"

definition xsdt_entries :: "acpi_crate \<Rightarrow> u64 \<Rightarrow> u64 list" where
  "xsdt_entries crate xsdt = map (Xsdt_get crate xsdt) [0..<(unat (sdt_length crate xsdt) - 36) div 8]"

definition rsdp_ok :: "acpi_crate \<Rightarrow> u64 \<Rightarrow> bool" where
  "rsdp_ok crate rsdp \<longleftrightarrow> rsdp_validate crate rsdp = None \<and> rsdp_revision crate rsdp = 2 \<and>
     sdt_validate crate (rsdp_xsdt_address crate rsdp) XSDT = None \<and>
     36 \<le> unat (sdt_length crate (rsdp_xsdt_address crate rsdp))"

lemma find_tables_eq:
  "find_tables crate xsdt n = (case last_valid crate FADT (map (Xsdt_get crate xsdt) [0..<n]) of None \<Rightarrow> 0 | Some p \<Rightarrow> p,
    case last_valid crate MADT (map (Xsdt_get crate xsdt) [0..<n]) of None \<Rightarrow> 0 | Some p \<Rightarrow> p)"
  by (induction n) (simp_all add: find_tables_def last_valid_def find_step_def Let_def split: prod.split)

text \<open>What the tables say: the address of the FADT and the interrupt controllers, if everything is there.\<close>

definition tables_found :: "acpi_crate \<Rightarrow> u64 \<Rightarrow> (u64 \<times> ApicInfo) option" where
  "tables_found crate rsdp =
     (let entries = xsdt_entries crate (rsdp_xsdt_address crate rsdp) in
      case (last_valid crate FADT entries, last_valid crate MADT entries) of
        (Some fadt, Some madt) \<Rightarrow>
          (case (find_io_apic (madt_entries (madt_at crate madt)), find_local_apic (madt_entries (madt_at crate madt))) of
             (Some io, Some loc) \<Rightarrow>
               if rsdp_ok crate rsdp \<and> fadt \<noteq> 0 \<and> madt \<noteq> 0
               then Some (fadt, \<lparr>info_local_apic_base = madt_local_apic_address (madt_at crate madt),
                 info_local_apic = loc, info_io_apic = io\<rparr>)
               else None
           | _ \<Rightarrow> None)
      | _ \<Rightarrow> None)"

lemma acpi_init_bad_rsdp:
  assumes "\<And>msg l. pr msg l = (Ret (), L msg l)" "\<not> rsdp_ok crate rsdp"
  shows "fst (acpi_init crate pr rsdp s) = Panic"
proof -
  have log: "log_msg pr msg s = (Ret (), s\<lparr>logger := L msg (logger s)\<rparr>)" for msg s
    by (simp add: log_msg_def zoom_def assms(1))
  consider "rsdp_validate crate rsdp \<noteq> None" | "rsdp_validate crate rsdp = None" "rsdp_revision crate rsdp \<noteq> 2"
    | "rsdp_validate crate rsdp = None" "rsdp_revision crate rsdp = 2"
      "sdt_validate crate (rsdp_xsdt_address crate rsdp) XSDT \<noteq> None"
    | "rsdp_validate crate rsdp = None" "rsdp_revision crate rsdp = 2"
      "sdt_validate crate (rsdp_xsdt_address crate rsdp) XSDT = None"
      "\<not> 36 \<le> unat (sdt_length crate (rsdp_xsdt_address crate rsdp))"
    using assms(2) unfolding rsdp_ok_def by argo
  then show ?thesis
    by cases
      (auto simp: acpi_init_def Rsdp_is_valid_def Xsdt_is_valid_def Xsdt_count_def usize_sub_def SdtHeader_size_def
        Let_def bnd_def log ret_def panic_def split: AcpiError.splits)
qed

lemma acpi_init_good_rsdp:
  assumes "rsdp_ok crate rsdp"
  shows "acpi_init crate pr rsdp =
    (let (fadt_ptr, madt_ptr) = find_tables crate (rsdp_xsdt_address crate rsdp)
           ((unat (sdt_length crate (rsdp_xsdt_address crate rsdp)) - 36) div 8) in
     if fadt_ptr = 0 then bnd (log_msg pr Msg_fadt_missing) (\<lambda>_. panic)
     else if madt_ptr = 0 then bnd (log_msg pr Msg_madt_missing) (\<lambda>_. panic)
     else
       bnd (log_msg pr (Msg_fadt_found fadt_ptr)) (\<lambda>_.
       bnd (call_once_fadt fadt_ptr) (\<lambda>_.
       bnd (log_msg pr (Msg_madt_found madt_ptr)) (\<lambda>_.
       call_once_apic (from_madt (madt_at crate madt_ptr))))))"
  using assms by (simp add: acpi_init_def rsdp_ok_def Rsdp_is_valid_def Xsdt_is_valid_def Xsdt_count_def
      usize_sub_def SdtHeader_size_def Let_def)

text \<open>A successful run, step by step: the two messages, and the cells.\<close>

definition found_madt :: "acpi_crate \<Rightarrow> u64 \<Rightarrow> u64" where
  "found_madt crate rsdp = the (last_valid crate MADT (xsdt_entries crate (rsdp_xsdt_address crate rsdp)))"

lemma acpi_init_found:
  assumes "tables_found crate rsdp = Some (fadt, info)" "fadt_once s = None" "apic_info_once s = None"
    and "pr (Msg_fadt_found fadt) (logger s) = (Ret (), l)" "pr (Msg_madt_found (found_madt crate rsdp)) l = (Ret (), l')"
  shows "acpi_init crate pr rsdp s = (Ret (), s\<lparr>fadt_once := Some fadt, logger := l', apic_info_once := Some info\<rparr>)"
proof -
  obtain madt io lap where m: "last_valid crate FADT (xsdt_entries crate (rsdp_xsdt_address crate rsdp)) = Some fadt"
      "last_valid crate MADT (xsdt_entries crate (rsdp_xsdt_address crate rsdp)) = Some madt"
      "rsdp_ok crate rsdp" "fadt \<noteq> 0" "madt \<noteq> 0"
      "find_io_apic (madt_entries (madt_at crate madt)) = Some io"
      "find_local_apic (madt_entries (madt_at crate madt)) = Some lap"
      "info = \<lparr>info_local_apic_base = madt_local_apic_address (madt_at crate madt), info_local_apic = lap, info_io_apic = io\<rparr>"
    using assms(1) by (auto simp: tables_found_def Let_def split: option.splits if_splits)
  then have "found_madt crate rsdp = madt" by (simp add: found_madt_def)
  with m assms(2-5) show ?thesis
    unfolding acpi_init_good_rsdp [OF m(3)] find_tables_eq xsdt_entries_def [symmetric]
    by (simp add: bnd_def log_msg_def zoom_def call_once_fadt_def update_def call_once_apic_def get_def ret_def
        from_madt_def expect_def)
qed

text \<open>
  C29. \<open>acpi::init\<close> from empty cells, with a logger that returns: it returns exactly if \<open>tables_found\<close>, that is, if the RSDP is
  valid with revision 2, the XSDT is valid and at least a header long, some entry of the XSDT validates as FADT and some as
  MADT (neither at address 0), and the MADT has an I/O APIC and a local APIC entry. Then the cells hold the last valid FADT,
  and of the last valid MADT the local APIC address and the first I/O APIC and local APIC entries. Otherwise it panics.
\<close>

theorem acpi_init_finds_tables:
  assumes "\<And>msg l. \<exists>l'. pr msg l = (Ret (), l')" and "fadt_once s = None" and "apic_info_once s = None"
  shows "case tables_found crate rsdp of
      Some (fadt, info) \<Rightarrow>
        \<exists>l. acpi_init crate pr rsdp s = (Ret (), s\<lparr>fadt_once := Some fadt, logger := l, apic_info_once := Some info\<rparr>)
    | None \<Rightarrow> fst (acpi_init crate pr rsdp s) = Panic"
proof -
  obtain L where L: "\<And>msg l. pr msg l = (Ret (), L msg l)" using assms(1) by metis
  have log: "log_msg pr msg s = (Ret (), s\<lparr>logger := L msg (logger s)\<rparr>)" for msg s
    by (simp add: log_msg_def zoom_def L)
  show ?thesis
  proof (cases "rsdp_ok crate rsdp")
    case False
    then have "tables_found crate rsdp = None"
      by (auto simp: tables_found_def Let_def split: option.split)
    with acpi_init_bad_rsdp [OF L False] show ?thesis by simp
  next
    case True
    show ?thesis
      unfolding acpi_init_good_rsdp [OF True] find_tables_eq tables_found_def xsdt_entries_def Let_def prod.case
      using True assms(2,3)
      by (auto simp: bnd_def log panic_def call_once_fadt_def update_def call_once_apic_def get_def from_madt_def
          expect_def ret_def split: option.splits)
  qed
qed

section \<open>A machine\<close>

definition sample_tables :: acpi_crate where
  "sample_tables = \<lparr>rsdp_validate = (\<lambda>_. None), rsdp_revision = (\<lambda>_. 2), rsdp_xsdt_address = (\<lambda>_. 0x7000),
     sdt_validate = (\<lambda>p sig. if (p, sig) \<in> {(0x7000, XSDT), (0x8000, FADT), (0x9000, MADT)} then None else Some SdtInvalidSignature),
     sdt_length = (\<lambda>_. 52), read_u64 = (\<lambda>p. if p = 0x7024 then 0x8000 else 0x9000),
     madt_at = (\<lambda>_. \<lparr>madt_local_apic_address = 0xfee00000, madt_entries = [OtherE,
       LocalApicE \<lparr>lapic_processor_id = 0, lapic_apic_id = 0\<rparr>, LocalApicE \<lparr>lapic_processor_id = 1, lapic_apic_id = 1\<rparr>,
       IoApicE \<lparr>entry_io_apic_id = 0, entry_io_apic_address = 0xfec00000\<rparr>]\<rparr>),
     rsdp_signature_text = (\<lambda>_. []), rsdp_oem_id_text = (\<lambda>_. []), sdt_signature_text = (\<lambda>_. [])\<rparr>"

theorem acpi_init_finds_tables_witness:
  "\<exists>l. acpi_init sample_tables (\<lambda>msg l. (Ret (), msg # l)) 0x1000 \<lparr>fadt_once = None, apic_info_once = None, logger = []\<rparr> =
    (Ret (), \<lparr>fadt_once = Some 0x8000, apic_info_once = Some \<lparr>info_local_apic_base = 0xfee00000,
      info_local_apic = \<lparr>lapic_processor_id = 0, lapic_apic_id = 0\<rparr>,
      info_io_apic = \<lparr>entry_io_apic_id = 0, entry_io_apic_address = 0xfec00000\<rparr>\<rparr>, logger = l\<rparr>)"
proof -
  have "tables_found sample_tables 0x1000 = Some (0x8000, \<lparr>info_local_apic_base = 0xfee00000,
      info_local_apic = \<lparr>lapic_processor_id = 0, lapic_apic_id = 0\<rparr>,
      info_io_apic = \<lparr>entry_io_apic_id = 0, entry_io_apic_address = 0xfec00000\<rparr>\<rparr>)"
    by code_simp
  with acpi_init_finds_tables [of "\<lambda>msg l. (Ret (), msg # l)"
      "\<lparr>fadt_once = None, apic_info_once = None, logger = []\<rparr>" sample_tables "0x1000"]
  show ?thesis by simp
qed

end
