(* ===== verification/Apic.thy ===== *)
theory Apic
  imports Ps2_Devices Acpi
begin

unbundle bit_operations_syntax

text \<open>
  Interrupts: \<open>kernel/src/arch.rs\<close> and \<open>kernel/src/interrupts.rs\<close>. The machine is a parameter: what memory-mapped
  accesses, model-specific registers and ports answer, and how they change the rest of the machine \<open>'d\<close>, about which
  nothing is assumed. The state records the accesses, newest first. The wait for the delivery status has fuel; running
  out of it is \<open>Diverge\<close>.
\<close>

section \<open>The machine\<close>

datatype cpu_event =
    MmioRead u64 u32
  | MmioWrite u64 u32
  | WriteMsr u32 u32 u32
  | LoadIdt

record 'd cpu_hw =
  ports :: "'d io_hw"
  mmio_in :: "u64 \<Rightarrow> 'd \<Rightarrow> u32 \<times> 'd"
  mmio_out :: "u64 \<Rightarrow> u32 \<Rightarrow> 'd \<Rightarrow> 'd"
  rdmsr :: "u32 \<Rightarrow> 'd \<Rightarrow> (u32 \<times> u32) \<times> 'd"
  wrmsr :: "u32 \<Rightarrow> u32 \<Rightarrow> u32 \<Rightarrow> 'd \<Rightarrow> 'd"

record 'd cpu_state =
  io :: "'d io_state"
  events :: "cpu_event list"
  apic_info :: "ApicInfo option"
  LOCAL_APIC :: "u32 option"

type_synonym ('d, 'a) cpu = "('d cpu_state, 'a) prog"

definition on_io :: "('d io_state, 'a) prog \<Rightarrow> ('d, 'a) cpu" where
  "on_io = zoom io (\<lambda>i s. s\<lparr>io := i\<rparr>)"

text \<open>
  \<open>write_volatile\<close> and \<open>read_volatile\<close> of a \<open>u32\<close>: in a debug build the library checks that the pointer is aligned and not
  null, and panics before the access otherwise.
\<close>

definition mmio_ok :: "u64 \<Rightarrow> bool" where
  "mmio_ok a \<longleftrightarrow> unat a mod 4 = 0 \<and> a \<noteq> 0"

definition write_volatile :: "'d cpu_hw \<Rightarrow> u64 \<Rightarrow> u32 \<Rightarrow> ('d, unit) cpu" where
  "write_volatile hw a v s = (if mmio_ok a
     then (Ret (), s\<lparr>io := (io s)\<lparr>dev := mmio_out hw a v (dev (io s))\<rparr>, events := MmioWrite a v # events s\<rparr>)
     else (Panic, s))"

definition read_volatile :: "'d cpu_hw \<Rightarrow> u64 \<Rightarrow> ('d, u32) cpu" where
  "read_volatile hw a s = (if mmio_ok a
     then let (v, d) = mmio_in hw a (dev (io s)) in
       (Ret v, s\<lparr>io := (io s)\<lparr>dev := d\<rparr>, events := MmioRead a v # events s\<rparr>)
     else (Panic, s))"

definition read_msr :: "'d cpu_hw \<Rightarrow> u32 \<Rightarrow> ('d, u64) cpu" where
  "read_msr hw msr s = (let ((high, low), d) = rdmsr hw msr (dev (io s)) in
     (Ret (push_bit 32 (ucast high) OR ucast low), s\<lparr>io := (io s)\<lparr>dev := d\<rparr>\<rparr>))"

definition write_msr :: "'d cpu_hw \<Rightarrow> u32 \<Rightarrow> u64 \<Rightarrow> ('d, unit) cpu" where
  "write_msr hw msr value s = (let low = ucast value; high = ucast (drop_bit 32 value) in
     (Ret (), s\<lparr>io := (io s)\<lparr>dev := wrmsr hw msr high low (dev (io s))\<rparr>, events := WriteMsr msr high low # events s\<rparr>))"

section \<open>Local APIC\<close>

text \<open>A \<open>LocalApic\<close> is its base address; \<open>(ptr as *mut u32).add(offset)\<close> is \<open>4 * offset\<close> bytes further.\<close>

type_synonym LocalApic = u32

definition LocalApic_new :: "u32 \<Rightarrow> LocalApic" where "LocalApic_new base_addr = base_addr"

definition LocalApic_write :: "'d cpu_hw \<Rightarrow> u32 \<Rightarrow> usize \<Rightarrow> u32 \<Rightarrow> ('d, unit) cpu" where
  "LocalApic_write hw self offset value = write_volatile hw (ucast self + 4 * of_nat offset) value"

definition LocalApic_read :: "'d cpu_hw \<Rightarrow> u32 \<Rightarrow> usize \<Rightarrow> ('d, u32) cpu" where
  "LocalApic_read hw self offset = read_volatile hw (ucast self + 4 * of_nat offset)"

definition write_task_priority_register :: "'d cpu_hw \<Rightarrow> u32 \<Rightarrow> u32 \<Rightarrow> ('d, unit) cpu" where
  "write_task_priority_register hw self value = LocalApic_write hw self (0x80 div 4) value"

definition write_end_of_interrupt_register :: "'d cpu_hw \<Rightarrow> u32 \<Rightarrow> u32 \<Rightarrow> ('d, unit) cpu" where
  "write_end_of_interrupt_register hw self value = LocalApic_write hw self (0xb0 div 4) value"

definition write_spurious_interrupt_vector_register :: "'d cpu_hw \<Rightarrow> u32 \<Rightarrow> u32 \<Rightarrow> ('d, unit) cpu" where
  "write_spurious_interrupt_vector_register hw self value = LocalApic_write hw self (0xf0 div 4) value"

definition write_error_status_register :: "'d cpu_hw \<Rightarrow> u32 \<Rightarrow> u32 \<Rightarrow> ('d, unit) cpu" where
  "write_error_status_register hw self value = LocalApic_write hw self (0x280 div 4) value"

definition write_interrupt_command_register_low :: "'d cpu_hw \<Rightarrow> u32 \<Rightarrow> u32 \<Rightarrow> ('d, unit) cpu" where
  "write_interrupt_command_register_low hw self value = LocalApic_write hw self (0x300 div 4) value"

definition read_interrupt_command_register_low :: "'d cpu_hw \<Rightarrow> u32 \<Rightarrow> ('d, u32) cpu" where
  "read_interrupt_command_register_low hw self = LocalApic_read hw self (0x300 div 4)"

definition write_interrupt_command_register_high :: "'d cpu_hw \<Rightarrow> u32 \<Rightarrow> u32 \<Rightarrow> ('d, unit) cpu" where
  "write_interrupt_command_register_high hw self value = LocalApic_write hw self (0x310 div 4) value"

definition write_lvt_timer_register :: "'d cpu_hw \<Rightarrow> u32 \<Rightarrow> u32 \<Rightarrow> ('d, unit) cpu" where
  "write_lvt_timer_register hw self value = LocalApic_write hw self (0x320 div 4) value"

definition write_lvt_performance_monitoring_counters_register :: "'d cpu_hw \<Rightarrow> u32 \<Rightarrow> u32 \<Rightarrow> ('d, unit) cpu" where
  "write_lvt_performance_monitoring_counters_register hw self value = LocalApic_write hw self (0x340 div 4) value"

definition write_lvt_lint0_register :: "'d cpu_hw \<Rightarrow> u32 \<Rightarrow> u32 \<Rightarrow> ('d, unit) cpu" where
  "write_lvt_lint0_register hw self value = LocalApic_write hw self (0x350 div 4) value"

definition write_lvt_lint1_register :: "'d cpu_hw \<Rightarrow> u32 \<Rightarrow> u32 \<Rightarrow> ('d, unit) cpu" where
  "write_lvt_lint1_register hw self value = LocalApic_write hw self (0x360 div 4) value"

definition write_lvt_error_register :: "'d cpu_hw \<Rightarrow> u32 \<Rightarrow> u32 \<Rightarrow> ('d, unit) cpu" where
  "write_lvt_error_register hw self value = LocalApic_write hw self (0x370 div 4) value"

definition write_initial_count_register_for_timer :: "'d cpu_hw \<Rightarrow> u32 \<Rightarrow> u32 \<Rightarrow> ('d, unit) cpu" where
  "write_initial_count_register_for_timer hw self value = LocalApic_write hw self (0x380 div 4) value"

definition write_current_count_register_for_timer :: "'d cpu_hw \<Rightarrow> u32 \<Rightarrow> u32 \<Rightarrow> ('d, unit) cpu" where
  "write_current_count_register_for_timer hw self value = LocalApic_write hw self (0x390 div 4) value"

definition read_current_count_register_for_timer :: "'d cpu_hw \<Rightarrow> u32 \<Rightarrow> ('d, u32) cpu" where
  "read_current_count_register_for_timer hw self = LocalApic_read hw self (0x390 div 4)"

definition write_divide_config_register_for_timer :: "'d cpu_hw \<Rightarrow> u32 \<Rightarrow> u32 \<Rightarrow> ('d, unit) cpu" where
  "write_divide_config_register_for_timer hw self value = LocalApic_write hw self (0x3e0 div 4) value"

section \<open>I/O APIC\<close>

text \<open>An \<open>IoApic\<close> is its base address: the field \<open>reg\<close> at offset 0, three words of padding, \<open>data\<close> at offset 16.\<close>

type_synonym IoApic = u32

definition IoApic_new :: "u32 \<Rightarrow> IoApic" where "IoApic_new base_addr = base_addr"

declare LocalApic_new_def [simp] IoApic_new_def [simp]

definition IoApicMmioInterface_reg :: u64 where "IoApicMmioInterface_reg = 0"

definition IoApicMmioInterface_pad :: u64 where "IoApicMmioInterface_pad = IoApicMmioInterface_reg + 4"

definition IoApicMmioInterface_data :: u64 where "IoApicMmioInterface_data = IoApicMmioInterface_pad + 3 * 4"

lemmas mmio_layout [simp] = IoApicMmioInterface_reg_def IoApicMmioInterface_pad_def IoApicMmioInterface_data_def

definition IoApic_read :: "'d cpu_hw \<Rightarrow> u32 \<Rightarrow> u32 \<Rightarrow> ('d, u32) cpu" where
  "IoApic_read hw self reg =
     bnd (write_volatile hw (ucast self + IoApicMmioInterface_reg) reg) (\<lambda>_.
     read_volatile hw (ucast self + IoApicMmioInterface_data))"

definition IoApic_write :: "'d cpu_hw \<Rightarrow> u32 \<Rightarrow> u32 \<Rightarrow> u32 \<Rightarrow> ('d, unit) cpu" where
  "IoApic_write hw self reg data =
     bnd (write_volatile hw (ucast self + IoApicMmioInterface_reg) reg) (\<lambda>_.
     write_volatile hw (ucast self + IoApicMmioInterface_data) data)"

text \<open>\<open>0x10 + 2 * index + 1\<close> is checked \<open>u32\<close> arithmetic.\<close>

definition set_redirection_entry_at :: "'d cpu_hw \<Rightarrow> u32 \<Rightarrow> u32 \<Rightarrow> u64 \<Rightarrow> ('d, unit) cpu" where
  "set_redirection_entry_at hw self index value =
     (if 0x10 + 2 * unat index \<ge> 2 ^ 32 then panic
      else bnd (IoApic_write hw self (0x10 + 2 * index) (ucast value)) (\<lambda>_.
      if 0x10 + 2 * unat index + 1 \<ge> 2 ^ 32 then panic
      else IoApic_write hw self (0x10 + 2 * index + 1) (ucast (drop_bit 32 value))))"

definition get_max_amount_of_redirection_entries :: "'d cpu_hw \<Rightarrow> u32 \<Rightarrow> ('d, usize) cpu" where
  "get_max_amount_of_redirection_entries hw self =
     bnd (IoApic_read hw self 0x1) (\<lambda>v. ret (unat (drop_bit 16 v AND 0xff)))"

definition get_id :: "'d cpu_hw \<Rightarrow> u32 \<Rightarrow> ('d, u8) cpu" where
  "get_id hw self = bnd (IoApic_read hw self 0x0) (\<lambda>v. ret (ucast (drop_bit 24 v AND 0xf)))"

section \<open>Vectors and handlers\<close>

definition EXTERNAL_IRQ_OFFSET :: u8 where "EXTERNAL_IRQ_OFFSET = 32"

datatype IRQ = Timer | KeyboardIrq | MouseIrq | ErrorIrq

fun IRQ_as_u8 :: "IRQ \<Rightarrow> u8" where
  "IRQ_as_u8 Timer = 0"
| "IRQ_as_u8 KeyboardIrq = 1"
| "IRQ_as_u8 MouseIrq = 12"
| "IRQ_as_u8 ErrorIrq = 19"

datatype InterruptVector = EXTERNAL_IRQ_TIMER | EXTERNAL_IRQ_KEYBOARD | EXTERNAL_IRQ_MOUSE | EXTERNAL_IRQ_ERROR | LocalAPICTimer

fun InterruptVector_as_u8 :: "InterruptVector \<Rightarrow> u8" where
  "InterruptVector_as_u8 EXTERNAL_IRQ_TIMER = EXTERNAL_IRQ_OFFSET + IRQ_as_u8 Timer"
| "InterruptVector_as_u8 EXTERNAL_IRQ_KEYBOARD = EXTERNAL_IRQ_OFFSET + IRQ_as_u8 KeyboardIrq"
| "InterruptVector_as_u8 EXTERNAL_IRQ_MOUSE = EXTERNAL_IRQ_OFFSET + IRQ_as_u8 MouseIrq"
| "InterruptVector_as_u8 EXTERNAL_IRQ_ERROR = EXTERNAL_IRQ_OFFSET + IRQ_as_u8 ErrorIrq"
| "InterruptVector_as_u8 LocalAPICTimer = 0x41"

datatype handler = Breakpoint_handler | Double_fault_handler | Timer_interrupt_handler | Keyboard_interrupt_handler
  | Mouse_interrupt_handler

text \<open>The descriptor table: vectors 3 and 8 are breakpoint and double fault.\<close>

definition IDT :: "u8 \<rightharpoonup> handler" where
  "IDT = Map.empty(
     3 \<mapsto> Breakpoint_handler,
     8 \<mapsto> Double_fault_handler,
     InterruptVector_as_u8 LocalAPICTimer \<mapsto> Timer_interrupt_handler,
     InterruptVector_as_u8 EXTERNAL_IRQ_TIMER \<mapsto> Timer_interrupt_handler,
     InterruptVector_as_u8 EXTERNAL_IRQ_KEYBOARD \<mapsto> Keyboard_interrupt_handler,
     InterruptVector_as_u8 EXTERNAL_IRQ_MOUSE \<mapsto> Mouse_interrupt_handler)"

text \<open>\<open>LOCAL_APIC.wait()\<close> spins while the cell is empty; \<open>LOCAL_APIC.call_once\<close> fills it once.\<close>

definition LOCAL_APIC_wait :: "('d, u32) cpu" where
  "LOCAL_APIC_wait = bnd get (\<lambda>s. case LOCAL_APIC s of None \<Rightarrow> diverge | Some a \<Rightarrow> ret a)"

definition LOCAL_APIC_call_once :: "u32 \<Rightarrow> ('d, unit) cpu" where
  "LOCAL_APIC_call_once a = update (\<lambda>s. case LOCAL_APIC s of None \<Rightarrow> s\<lparr>LOCAL_APIC := Some a\<rparr> | Some _ \<Rightarrow> s)"

definition cpu_kprintln :: "'d cpu_hw \<Rightarrow> string \<Rightarrow> ('d, unit) cpu" where
  "cpu_kprintln hw msg = on_io (kprintln (ports hw) msg)"

definition end_of_interrupt :: "'d cpu_hw \<Rightarrow> ('d, unit) cpu" where
  "end_of_interrupt hw = bnd LOCAL_APIC_wait (\<lambda>a. write_end_of_interrupt_register hw a 0)"

definition keyboard_interrupt_handler :: "'d cpu_hw \<Rightarrow> ('d, unit) cpu" where
  "keyboard_interrupt_handler hw =
     bnd (on_io (Keyboard_read_data (ports hw) (Controller_keyboard ps2_controller))) (\<lambda>code.
     bnd (cpu_kprintln hw ''pressed'') (\<lambda>_. end_of_interrupt hw))"

definition mouse_interrupt_handler :: "'d cpu_hw \<Rightarrow> ('d, unit) cpu" where
  "mouse_interrupt_handler hw =
     bnd (on_io (flush_data_port (ports hw) ps2_controller)) (\<lambda>_.
     bnd (cpu_kprintln hw ''moved.'') (\<lambda>_. end_of_interrupt hw))"

definition breakpoint_handler :: "'d cpu_hw \<Rightarrow> ('d, unit) cpu" where
  "breakpoint_handler hw =
     bnd (cpu_kprintln hw ''breakpoint exception occured.'') (\<lambda>_. end_of_interrupt hw)"

definition double_fault_handler :: "('d, unit) cpu" where
  "double_fault_handler = panic"

definition timer_interrupt_handler :: "'d cpu_hw \<Rightarrow> ('d, unit) cpu" where
  "timer_interrupt_handler hw = end_of_interrupt hw"

fun run_handler :: "'d cpu_hw \<Rightarrow> handler \<Rightarrow> ('d, unit) cpu" where
  "run_handler hw Breakpoint_handler = breakpoint_handler hw"
| "run_handler hw Double_fault_handler = double_fault_handler"
| "run_handler hw Timer_interrupt_handler = timer_interrupt_handler hw"
| "run_handler hw Keyboard_interrupt_handler = keyboard_interrupt_handler hw"
| "run_handler hw Mouse_interrupt_handler = mouse_interrupt_handler hw"

section \<open>Initialisation\<close>

definition init_idt :: "('d, unit) cpu" where
  "init_idt = update (\<lambda>s. s\<lparr>events := LoadIdt # events s\<rparr>)"

definition disable_pic_8259 :: "'d cpu_hw \<Rightarrow> ('d, unit) cpu" where
  "disable_pic_8259 hw = on_io (bnd (port_write (ports hw) 0xa1 0xff) (\<lambda>_. port_write (ports hw) 0x21 0xff))"

definition cpu_apic_info :: "('d, ApicInfo) cpu" where
  "cpu_apic_info = bnd get (\<lambda>s. expect (apic_info s))"

text \<open>\<open>while (read_interrupt_command_register_low() & DELIVERY_STATUS) != 0 {}\<close>, at most \<open>n\<close> reads.\<close>

fun wait_delivery :: "'d cpu_hw \<Rightarrow> u32 \<Rightarrow> nat \<Rightarrow> ('d, unit) cpu" where
  "wait_delivery hw local_apic 0 = diverge"
| "wait_delivery hw local_apic (Suc n) =
     bnd (read_interrupt_command_register_low hw local_apic) (\<lambda>v.
     if v AND 0x00001000 \<noteq> 0 then wait_delivery hw local_apic n else ret ())"

definition init_local_apic :: "'d cpu_hw \<Rightarrow> nat \<Rightarrow> u32 \<Rightarrow> ('d, unit) cpu" where
  "init_local_apic hw fuel local_apic =
     bnd (LOCAL_APIC_call_once local_apic) (\<lambda>_.
     bnd (write_spurious_interrupt_vector_register hw local_apic (0x100 OR 0xff)) (\<lambda>_.
     bnd (write_lvt_lint0_register hw local_apic (push_bit 16 1)) (\<lambda>_.
     bnd (write_lvt_lint1_register hw local_apic (push_bit 16 1)) (\<lambda>_.
     bnd (write_lvt_performance_monitoring_counters_register hw local_apic (push_bit 16 1)) (\<lambda>_.
     bnd (write_lvt_error_register hw local_apic (ucast (EXTERNAL_IRQ_OFFSET + IRQ_as_u8 ErrorIrq))) (\<lambda>_.
     bnd (write_error_status_register hw local_apic 0) (\<lambda>_.
     bnd (write_error_status_register hw local_apic 0) (\<lambda>_.
     bnd (write_end_of_interrupt_register hw local_apic 0) (\<lambda>_.
     bnd (write_interrupt_command_register_high hw local_apic 0) (\<lambda>_.
     bnd (write_interrupt_command_register_low hw local_apic (0x00080000 OR 0x00008000 OR 0x00000500)) (\<lambda>_.
     bnd (wait_delivery hw local_apic fuel) (\<lambda>_.
     write_task_priority_register hw local_apic 0))))))))))))"

definition init_io_apic :: "'d cpu_hw \<Rightarrow> ApicInfo \<Rightarrow> ('d, unit) cpu" where
  "init_io_apic hw info =
     (let io_apic = IoApic_new (io_apic_base info) in
      bnd (get_id hw io_apic) (\<lambda>ident.
      if ident \<noteq> io_apic_id info then panic
      else
        bnd (get_max_amount_of_redirection_entries hw io_apic) (\<lambda>n.
        bnd (for_each [0..<n] (\<lambda>i.
          set_redirection_entry_at hw io_apic (of_nat i) ((ucast EXTERNAL_IRQ_OFFSET + of_nat i) OR push_bit 16 1))) (\<lambda>_.
        let cpu0 = push_bit (32 + 24) (ucast (processor_id info)) in
        bnd (set_redirection_entry_at hw io_apic (ucast (IRQ_as_u8 KeyboardIrq))
          (ucast (InterruptVector_as_u8 EXTERNAL_IRQ_KEYBOARD) OR cpu0)) (\<lambda>_.
        set_redirection_entry_at hw io_apic (ucast (IRQ_as_u8 MouseIrq))
          (ucast (InterruptVector_as_u8 EXTERNAL_IRQ_MOUSE) OR cpu0))))))"

definition init_apic :: "'d cpu_hw \<Rightarrow> nat \<Rightarrow> ('d, unit) cpu" where
  "init_apic hw fuel =
     bnd cpu_apic_info (\<lambda>info.
     bnd (write_msr hw 0x1B (ucast (local_apic_base info) OR push_bit 11 1)) (\<lambda>_.
     bnd cpu_apic_info (\<lambda>info.
     bnd (init_local_apic hw fuel (LocalApic_new (local_apic_base info))) (\<lambda>_.
     bnd cpu_apic_info (\<lambda>info.
     bnd (cpu_kprintln hw (''I/O APIC base: 0x'' @ upper_hex (unat (io_apic_base info)))) (\<lambda>_.
     init_io_apic hw info))))))"

definition interrupts_init :: "'d cpu_hw \<Rightarrow> nat \<Rightarrow> ('d, unit) cpu" where
  "interrupts_init hw fuel =
     bnd init_idt (\<lambda>_.
     bnd (disable_pic_8259 hw) (\<lambda>_.
     init_apic hw fuel))"

section \<open>What the accesses do to the record\<close>

text \<open>From \<open>s\<close> to \<open>t\<close> the events \<open>es\<close> happened, oldest first, and nothing else but the machine changed.\<close>

definition happened :: "cpu_event list \<Rightarrow> 'd cpu_state \<Rightarrow> 'd cpu_state \<Rightarrow> bool" where
  "happened es s t \<longleftrightarrow> events t = rev es @ events s \<and> apic_info t = apic_info s \<and> LOCAL_APIC t = LOCAL_APIC s \<and>
     trace (io t) = trace (io s)"

lemma happened_trans: "happened es s t \<Longrightarrow> happened fs t u \<Longrightarrow> happened (es @ fs) s u"
  by (simp add: happened_def)

lemma write_volatile_result: "mmio_ok a \<Longrightarrow> \<exists>t. write_volatile hw a v s = (Ret (), t) \<and> happened [MmioWrite a v] s t"
  by (simp add: write_volatile_def happened_def)

lemma read_volatile_result: "mmio_ok a \<Longrightarrow> \<exists>v t. read_volatile hw a s = (Ret v, t) \<and> happened [MmioRead a v] s t"
  by (simp add: read_volatile_def happened_def split: prod.split)

text \<open>
  The bases at which the registers can be accessed: aligned, and for the I/O APIC, which has a register at offset 0, not
  null.
\<close>

definition lapic_aligned :: "u32 \<Rightarrow> bool" where
  "lapic_aligned a \<longleftrightarrow> unat a mod 4 = 0"

definition ioapic_aligned :: "u32 \<Rightarrow> bool" where
  "ioapic_aligned a \<longleftrightarrow> unat a mod 4 = 0 \<and> a \<noteq> 0"

lemma base_plus: "k < 2 ^ 32 \<Longrightarrow> unat (ucast a + of_nat k :: u64) = unat a + k" for a :: u32
proof -
  assume k: "k < 2 ^ 32"
  have less: "unat a < 2 ^ 32" using unsigned_less [of a] by simp
  then have "unat a < 2 ^ 64" by simp
  then have a: "unat (ucast a :: u64) = unat a" by (simp add: unsigned_ucast_eq take_bit_nat_eq_self)
  have k': "unat (of_nat k :: u64) = k" using k by (simp add: unat_of_nat)
  from less a k k' show ?thesis by (subst unat_plus_if') simp
qed

lemma lapic_mmio_ok: "0 < ofs \<Longrightarrow> ofs < 2 ^ 16 \<Longrightarrow> mmio_ok (ucast a + 4 * of_nat ofs) \<longleftrightarrow> lapic_aligned a" for a :: u32
proof -
  assume ofs: "0 < ofs" "ofs < 2 ^ 16"
  then have u: "unat (ucast a + 4 * of_nat ofs :: u64) = unat a + 4 * ofs"
    using base_plus [of "4 * ofs" a] by simp
  with ofs have "ucast a + 4 * of_nat ofs \<noteq> (0 :: u64)" by (metis add_is_0 mult_is_0 unat_0 zero_neq_numeral less_irrefl)
  with u show ?thesis by (simp add: mmio_ok_def lapic_aligned_def)
qed

lemma ioapic_mmio_ok:
  "mmio_ok (ucast a) \<longleftrightarrow> ioapic_aligned a" "ioapic_aligned a \<Longrightarrow> mmio_ok (ucast a + 16)" for a :: u32
proof -
  have u: "unat (ucast a :: u64) = unat a" "unat (ucast a + 16 :: u64) = unat a + 16"
    using base_plus [of 0 a] base_plus [of 16 a] by simp_all
  then have "(ucast a :: u64) = 0 \<longleftrightarrow> a = 0" by (metis unat_0 unat_eq_zero)
  with u(1) show "mmio_ok (ucast a) \<longleftrightarrow> ioapic_aligned a" by (simp add: mmio_ok_def ioapic_aligned_def)
  have "ucast a + 16 \<noteq> (0 :: u64)" using u(2) by (metis add_is_0 unat_0 zero_neq_numeral)
  moreover have "(unat a + 16) mod 4 = unat a mod 4" by presburger
  ultimately show "ioapic_aligned a \<Longrightarrow> mmio_ok (ucast a + 16)" using u(2) by (simp add: mmio_ok_def ioapic_aligned_def)
qed

text \<open>The events of a program that always returns: with its value, or with a given list.\<close>

lemma happened_bnd:
  assumes "\<exists>t. m s = (Ret x, t) \<and> happened es s t" and "\<And>t. happened es s t \<Longrightarrow> \<exists>y u. f x t = (Ret y, u) \<and> happened fs t u \<and> P y"
  shows "\<exists>y u. bnd m f s = (Ret y, u) \<and> happened (es @ fs) s u \<and> P y"
  using assms by (fastforce simp: bnd_def intro: happened_trans)

lemma LocalApic_write_result:
  "lapic_aligned a \<Longrightarrow> 0 < ofs \<Longrightarrow> ofs < 2 ^ 16 \<Longrightarrow>
    \<exists>t. LocalApic_write hw a ofs v s = (Ret (), t) \<and> happened [MmioWrite (ucast a + 4 * of_nat ofs) v] s t"
  unfolding LocalApic_write_def by (rule write_volatile_result) (simp add: lapic_mmio_ok)

lemma LocalApic_write_misaligned:
  "\<not> lapic_aligned a \<Longrightarrow> 0 < ofs \<Longrightarrow> ofs < 2 ^ 16 \<Longrightarrow> LocalApic_write hw a ofs v s = (Panic, s)"
  unfolding LocalApic_write_def write_volatile_def by (simp add: lapic_mmio_ok)

lemma IoApic_write_result:
  assumes "ioapic_aligned a"
  shows "\<exists>t. IoApic_write hw a r v s = (Ret (), t) \<and> happened [MmioWrite (ucast a) r, MmioWrite (ucast a + 16) v] s t"
  using write_volatile_result [of "ucast a" hw r s] write_volatile_result [of "ucast a + 16" hw v] ioapic_mmio_ok [of a] assms
  by (fastforce simp: IoApic_write_def bnd_def dest: happened_trans)

lemma IoApic_read_result:
  assumes "ioapic_aligned a"
  shows "\<exists>v t. IoApic_read hw a r s = (Ret v, t) \<and> happened [MmioWrite (ucast a) r, MmioRead (ucast a + 16) v] s t"
  using write_volatile_result [of "ucast a" hw r s] read_volatile_result [of "ucast a + 16" hw] ioapic_mmio_ok [of a] assms
  by (fastforce simp: IoApic_read_def bnd_def dest: happened_trans)

text \<open>The four writes that set redirection entry \<open>i\<close>.\<close>

definition entry_events :: "u32 \<Rightarrow> nat \<Rightarrow> u64 \<Rightarrow> cpu_event list" where
  "entry_events a i v = [MmioWrite (ucast a) (of_nat (0x10 + 2 * i)), MmioWrite (ucast a + 16) (ucast v),
     MmioWrite (ucast a) (of_nat (0x11 + 2 * i)), MmioWrite (ucast a + 16) (ucast (drop_bit 32 v))]"

lemma set_redirection_entry_result:
  assumes "ioapic_aligned a" "i < 2 ^ 16"
  shows "\<exists>t. set_redirection_entry_at hw a (of_nat i) v s = (Ret (), t) \<and> happened (entry_events a i v) s t"
proof -
  have "unat (of_nat i :: u32) = i" unfolding unat_of_nat using assms(2) by simp
  moreover have "(0x10 + 2 * of_nat i :: u32) = of_nat (0x10 + 2 * i)" "(0x10 + 2 * of_nat i + 1 :: u32) = of_nat (0x11 + 2 * i)"
    by simp_all
  moreover obtain t where t: "IoApic_write hw a (of_nat (0x10 + 2 * i)) (ucast v) s = (Ret (), t)"
      "happened [MmioWrite (ucast a) (of_nat (0x10 + 2 * i)), MmioWrite (ucast a + 16) (ucast v)] s t"
    using IoApic_write_result [OF assms(1), of hw "of_nat (0x10 + 2 * i)" "ucast v" s] by (elim exE conjE)
  moreover obtain u where u: "IoApic_write hw a (of_nat (0x11 + 2 * i)) (ucast (drop_bit 32 v)) t = (Ret (), u)"
      "happened [MmioWrite (ucast a) (of_nat (0x11 + 2 * i)), MmioWrite (ucast a + 16) (ucast (drop_bit 32 v))] t u"
    using IoApic_write_result [OF assms(1), of hw "of_nat (0x11 + 2 * i)" "ucast (drop_bit 32 v)" t] by (elim exE conjE)
  ultimately show ?thesis
    using assms(2) happened_trans [OF t(2) u(2)]
    by (simp add: set_redirection_entry_at_def entry_events_def bnd_def del: of_nat_add of_nat_mult)
qed

lemma entries_result:
  "ioapic_aligned a \<Longrightarrow> n \<le> 2 ^ 16 \<Longrightarrow> \<exists>t. for_each [0..<n] (\<lambda>i. set_redirection_entry_at hw a (of_nat i) (f i)) s = (Ret (), t) \<and>
    happened (concat (map (\<lambda>i. entry_events a i (f i)) [0..<n])) s t"
proof (induction n)
  case 0
  then show ?case by (simp add: ret_def happened_def)
next
  case (Suc n)
  then obtain t where t: "for_each [0..<n] (\<lambda>i. set_redirection_entry_at hw a (of_nat i) (f i)) s = (Ret (), t)"
      "happened (concat (map (\<lambda>i. entry_events a i (f i)) [0..<n])) s t"
    by auto
  obtain u where u: "set_redirection_entry_at hw a (of_nat n) (f n) t = (Ret (), u)" "happened (entry_events a n (f n)) t u"
    using set_redirection_entry_result [of a n hw "f n" t] Suc.prems by auto
  show ?case
    using t(1) u(1) happened_trans [OF t(2) u(2)] by (simp add: for_each_append bnd_def ret_def)
qed

section \<open>Initialisation of the I/O APIC\<close>

definition entry_count :: "u32 \<Rightarrow> nat" where
  "entry_count ver = unat (drop_bit 16 ver AND 0xff)"

definition masked_entry :: "nat \<Rightarrow> u64" where
  "masked_entry i = (32 + of_nat i) OR push_bit 16 1"

definition routed_entry :: "ApicInfo \<Rightarrow> u8 \<Rightarrow> u64" where
  "routed_entry info vector = ucast vector OR push_bit 56 (ucast (processor_id info))"

definition io_apic_events :: "ApicInfo \<Rightarrow> u32 \<Rightarrow> u32 \<Rightarrow> cpu_event list" where
  "io_apic_events info idv ver = (let a = io_apic_base info in
     [MmioWrite (ucast a) 0, MmioRead (ucast a + 16) idv, MmioWrite (ucast a) 1, MmioRead (ucast a + 16) ver]
     @ concat (map (\<lambda>i. entry_events a i (masked_entry i)) [0..<entry_count ver])
     @ entry_events a 1 (routed_entry info 33) @ entry_events a 12 (routed_entry info 44))"

lemma entry_count_less: "entry_count ver < 256"
proof -
  have "entry_count ver < 2 ^ 8"
    unfolding entry_count_def masks_u32 take_bit_eq_mask [symmetric] unsigned_take_bit_eq
    by (rule take_bit_nat_less_exp)
  then show ?thesis by simp
qed

lemma init_io_apic_misaligned: "\<not> ioapic_aligned (io_apic_base info) \<Longrightarrow> init_io_apic hw info s = (Panic, s)"
  by (simp add: init_io_apic_def get_id_def IoApic_read_def write_volatile_def ioapic_mmio_ok Let_def bnd_def)

lemma init_io_apic_result:
  assumes "ioapic_aligned (io_apic_base info)"
  shows "\<exists>idv ver t. if ucast (drop_bit 24 idv AND 0xf) = io_apic_id info
    then init_io_apic hw info s = (Ret (), t) \<and> happened (io_apic_events info idv ver) s t
    else init_io_apic hw info s = (Panic, t) \<and> happened (take 2 (io_apic_events info idv 0)) s t"
proof -
  let ?a = "io_apic_base info"
  obtain idv s1 where 1: "IoApic_read hw ?a 0 s = (Ret idv, s1)" "happened [MmioWrite (ucast ?a) 0, MmioRead (ucast ?a + 16) idv] s s1"
    using IoApic_read_result [OF assms, of hw 0 s] by (elim exE conjE)
  obtain ver s2 where 2: "IoApic_read hw ?a 1 s1 = (Ret ver, s2)" "happened [MmioWrite (ucast ?a) 1, MmioRead (ucast ?a + 16) ver] s1 s2"
    using IoApic_read_result [OF assms, of hw 1 s1] by (elim exE conjE)
  obtain s3 where 3: "for_each [0..<entry_count ver] (\<lambda>i. set_redirection_entry_at hw ?a (of_nat i) (masked_entry i)) s2 = (Ret (), s3)"
      "happened (concat (map (\<lambda>i. entry_events ?a i (masked_entry i)) [0..<entry_count ver])) s2 s3"
    using entries_result [OF assms, of "entry_count ver" hw masked_entry s2] entry_count_less [of ver] by auto
  obtain s4 where 4: "set_redirection_entry_at hw ?a (of_nat 1) (routed_entry info 33) s3 = (Ret (), s4)"
      "happened (entry_events ?a 1 (routed_entry info 33)) s3 s4"
    using set_redirection_entry_result [OF assms, of 1 hw "routed_entry info 33" s3] by auto
  obtain s5 where 5: "set_redirection_entry_at hw ?a (of_nat 12) (routed_entry info 44) s4 = (Ret (), s5)"
      "happened (entry_events ?a 12 (routed_entry info 44)) s4 s5"
    using set_redirection_entry_result [OF assms, of 12 hw "routed_entry info 44" s4] by auto
  have masked: "(\<lambda>i. set_redirection_entry_at hw ?a (of_nat i) ((ucast EXTERNAL_IRQ_OFFSET + of_nat i) OR push_bit 16 1))
      = (\<lambda>i. set_redirection_entry_at hw ?a (of_nat i) (masked_entry i))"
    by (simp add: masked_entry_def EXTERNAL_IRQ_OFFSET_def)
  have routed: "ucast (InterruptVector_as_u8 EXTERNAL_IRQ_KEYBOARD) OR push_bit (32 + 24) (ucast (processor_id info)) = routed_entry info 33"
      "ucast (InterruptVector_as_u8 EXTERNAL_IRQ_MOUSE) OR push_bit (32 + 24) (ucast (processor_id info)) = routed_entry info 44"
      "(ucast (IRQ_as_u8 KeyboardIrq) :: u32) = of_nat 1" "(ucast (IRQ_as_u8 MouseIrq) :: u32) = of_nat 12"
    by (simp_all add: routed_entry_def EXTERNAL_IRQ_OFFSET_def)
  have all: "happened (io_apic_events info idv ver) s s5"
    using happened_trans [OF happened_trans [OF happened_trans [OF happened_trans [OF 1(2) 2(2)] 3(2)] 4(2)] 5(2)]
    by (simp add: io_apic_events_def Let_def)
  have get_id: "get_id hw ?a s = (Ret (ucast (drop_bit 24 idv AND 0xf)), s1)"
    using 1(1) by (simp add: get_id_def bnd_def ret_def)
  have get_max: "get_max_amount_of_redirection_entries hw ?a s1 = (Ret (entry_count ver), s2)"
    using 2(1) by (simp add: get_max_amount_of_redirection_entries_def bnd_def ret_def entry_count_def)
  show ?thesis
  proof (cases "ucast (drop_bit 24 idv AND 0xf) = io_apic_id info")
    case True
    have "init_io_apic hw info s = (Ret (), s5)"
      unfolding init_io_apic_def IoApic_new_def Let_def masked routed
      using True 3(1) 4(1) 5(1) by (simp add: bnd_def get_id get_max)
    with True all show ?thesis by (intro exI [of _ idv] exI [of _ ver] exI [of _ s5]) simp
  next
    case False
    then show ?thesis
      using 1(2) by (intro exI [of _ idv] exI [of _ ver] exI [of _ s1])
        (simp add: init_io_apic_def Let_def bnd_def get_id panic_def io_apic_events_def)
  qed
qed

text \<open>The register file of the I/O APIC at \<open>a\<close> after a sequence of accesses: the selected register, and what was written.\<close>

fun replay :: "u32 \<Rightarrow> cpu_event list \<Rightarrow> u32 \<times> (u32 \<rightharpoonup> u32) \<Rightarrow> u32 \<times> (u32 \<rightharpoonup> u32)" where
  "replay a [] st = st"
| "replay a (MmioWrite p v # es) (sel, regs) =
     replay a es (if p = ucast a then (v, regs) else if p = ucast a + 16 then (sel, regs(sel \<mapsto> v)) else (sel, regs))"
| "replay a (_ # es) st = replay a es st"

definition redirection :: "(u32 \<rightharpoonup> u32) \<Rightarrow> nat \<Rightarrow> (u32 \<times> u32) option" where
  "redirection regs i = (case (regs (of_nat (0x10 + 2 * i)), regs (of_nat (0x11 + 2 * i))) of
     (Some lo, Some hi) \<Rightarrow> Some (lo, hi) | _ \<Rightarrow> None)"

lemma replay_append: "replay a (es @ fs) st = replay a fs (replay a es st)"
  by (induction a es st rule: replay.induct) simp_all

lemma replay_entry:
  "replay a (entry_events a i v) (sel, regs) = (of_nat (0x11 + 2 * i),
    regs(of_nat (0x10 + 2 * i) \<mapsto> ucast v, of_nat (0x11 + 2 * i) \<mapsto> ucast (drop_bit 32 v)))"
  by (simp add: entry_events_def del: of_nat_add of_nat_mult)

lemma of_nat_u32_inj: "i < 2 ^ 32 \<Longrightarrow> j < 2 ^ 32 \<Longrightarrow> (of_nat i :: u32) = of_nat j \<longleftrightarrow> i = j"
  unfolding word_unat_eq_iff unat_of_nat by simp

lemma redirection_update:
  assumes "i < 2 ^ 16" "j < 2 ^ 16"
  shows "redirection (regs(of_nat (0x10 + 2 * i) \<mapsto> lo, of_nat (0x11 + 2 * i) \<mapsto> hi)) j =
    (if j = i then Some (lo, hi) else redirection regs j)"
proof -
  have eqs: "(of_nat (0x10 + 2 * j) :: u32) = of_nat (0x10 + 2 * i) \<longleftrightarrow> j = i"
      "(of_nat (0x11 + 2 * j) :: u32) = of_nat (0x11 + 2 * i) \<longleftrightarrow> j = i"
      "(of_nat (0x10 + 2 * j) :: u32) \<noteq> of_nat (0x11 + 2 * i)" "(of_nat (0x11 + 2 * j) :: u32) \<noteq> of_nat (0x10 + 2 * i)"
    using assms by (subst of_nat_u32_inj; simp; presburger)+
  show ?thesis
    unfolding redirection_def fun_upd_apply eqs(1,2) if_not_P [OF eqs(3)] if_not_P [OF eqs(4)]
    by (cases "j = i") (simp_all del: of_nat_add of_nat_mult)
qed

lemma replay_masked:
  assumes "n \<le> 2 ^ 16" "j < 2 ^ 16"
  shows "redirection (snd (replay a (concat (map (\<lambda>i. entry_events a i (f i)) [0..<n])) (sel, regs))) j =
    (if j < n then Some (ucast (f j), ucast (drop_bit 32 (f j))) else redirection regs j)"
  using assms
proof (induction n)
  case (Suc n)
  obtain sel' regs' where st: "replay a (concat (map (\<lambda>i. entry_events a i (f i)) [0..<n])) (sel, regs) = (sel', regs')"
    by (cases "replay a (concat (map (\<lambda>i. entry_events a i (f i)) [0..<n])) (sel, regs)")
  have last: "concat (map (\<lambda>i. entry_events a i (f i)) [0..<Suc n]) =
      concat (map (\<lambda>i. entry_events a i (f i)) [0..<n]) @ entry_events a n (f n)"
    by simp
  have small: "n < 2 ^ 16" using Suc.prems(1) by simp
  have "redirection regs' j = (if j < n then Some (ucast (f j), ucast (drop_bit 32 (f j))) else redirection regs j)"
    using Suc st by simp
  then show ?case
    unfolding last replay_append st replay_entry snd_conv redirection_update [OF small Suc.prems(2)] by auto
qed simp

section \<open>Initialisation of the local APIC\<close>

definition delivered :: "u32 list \<Rightarrow> bool" where
  "delivered icrs \<longleftrightarrow> icrs \<noteq> [] \<and> list_all (\<lambda>v. bit v 12) (butlast icrs) \<and> \<not> bit (last icrs) 12"

definition local_apic_events :: "u32 \<Rightarrow> u32 list \<Rightarrow> cpu_event list" where
  "local_apic_events a icrs =
     [MmioWrite (ucast a + 0xf0) 0x1ff, MmioWrite (ucast a + 0x350) 0x10000, MmioWrite (ucast a + 0x360) 0x10000,
      MmioWrite (ucast a + 0x340) 0x10000, MmioWrite (ucast a + 0x370) 51, MmioWrite (ucast a + 0x280) 0,
      MmioWrite (ucast a + 0x280) 0, MmioWrite (ucast a + 0xb0) 0, MmioWrite (ucast a + 0x310) 0,
      MmioWrite (ucast a + 0x300) 0x88500]
     @ map (MmioRead (ucast a + 0x300)) icrs @ [MmioWrite (ucast a + 0x80) 0]"

lemma delivery_bit: "v AND 0x1000 = 0 \<longleftrightarrow> \<not> bit v 12" for v :: u32
  using and_exp_eq_0_iff_not_bit [of v 12] by simp

lemma wait_delivery_result:
  assumes "lapic_aligned a"
  shows "\<exists>icrs t. happened (map (MmioRead (ucast a + 0x300)) icrs) s t \<and>
    (wait_delivery hw a n s = (Ret (), t) \<and> delivered icrs \<and> length icrs \<le> n
     \<or> wait_delivery hw a n s = (Diverge, t) \<and> length icrs = n \<and> list_all (\<lambda>v. bit v 12) icrs)"
proof (induction n arbitrary: s)
  case 0
  show ?case by (intro exI [of _ "[]"]) (simp add: diverge_def happened_def)
next
  case (Suc n)
  obtain v u where u: "read_interrupt_command_register_low hw a s = (Ret v, u)" "happened [MmioRead (ucast a + 0x300) v] s u"
    using read_volatile_result [of "ucast a + 0x300" hw s] lapic_mmio_ok [of "0x300 div 4" a] assms
    by (auto simp: read_interrupt_command_register_low_def LocalApic_read_def)
  show ?case
  proof (cases "bit v 12")
    case True
    obtain icrs t where t: "happened (map (MmioRead (ucast a + 0x300)) icrs) u t"
      "wait_delivery hw a n u = (Ret (), t) \<and> delivered icrs \<and> length icrs \<le> n
       \<or> wait_delivery hw a n u = (Diverge, t) \<and> length icrs = n \<and> list_all (\<lambda>v. bit v 12) icrs"
      using Suc.IH by blast
    have "wait_delivery hw a (Suc n) s = wait_delivery hw a n u"
      using True u(1) by (simp add: bnd_def delivery_bit)
    moreover have "delivered icrs \<Longrightarrow> delivered (v # icrs)" using True by (simp add: delivered_def)
    ultimately show ?thesis
      using t happened_trans [OF u(2) t(1)] True by (intro exI [of _ "v # icrs"] exI [of _ t]) auto
  next
    case False
    then show ?thesis
      using u by (intro exI [of _ "[v]"] exI [of _ u]) (simp add: bnd_def delivery_bit ret_def delivered_def)
  qed
qed

text \<open>A run of register writes, then the program \<open>k\<close>.\<close>

definition lapic_run :: "'d cpu_hw \<Rightarrow> u32 \<Rightarrow> (usize \<times> u32) list \<Rightarrow> ('d, unit) cpu \<Rightarrow> ('d, unit) cpu" where
  "lapic_run hw a ws k = foldr (\<lambda>(ofs, v) m. bnd (LocalApic_write hw a ofs v) (\<lambda>_. m)) ws k"

lemma lapic_run_result:
  "lapic_aligned a \<Longrightarrow> list_all (\<lambda>(ofs, v). 0 < ofs \<and> ofs < 2 ^ 16) ws \<Longrightarrow> \<exists>t. lapic_run hw a ws k s = k t \<and> happened (map (\<lambda>(ofs, v). MmioWrite (ucast a + 4 * of_nat ofs) v) ws) s t"
proof (induction ws arbitrary: s)
  case Nil
  show ?case by (auto simp: lapic_run_def happened_def)
next
  case (Cons w ws)
  obtain ofs v where w: "w = (ofs, v)" by (cases w)
  obtain t where t: "LocalApic_write hw a ofs v s = (Ret (), t)" "happened [MmioWrite (ucast a + 4 * of_nat ofs) v] s t"
    using LocalApic_write_result [OF Cons.prems(1), of ofs hw v s] Cons.prems(2) by (auto simp: w)
  obtain u where u: "lapic_run hw a ws k t = k u"
      "happened (map (\<lambda>(ofs, v). MmioWrite (ucast a + 4 * of_nat ofs) v) ws) t u"
    using Cons by fastforce
  from t(1) u(1) happened_trans [OF t(2) u(2)] show ?case
    by (intro exI [of _ u]) (simp add: w lapic_run_def bnd_Ret)
qed

lemmas lapic_writes = write_spurious_interrupt_vector_register_def write_lvt_lint0_register_def
  write_lvt_lint1_register_def write_lvt_performance_monitoring_counters_register_def write_lvt_error_register_def
  write_error_status_register_def write_end_of_interrupt_register_def write_interrupt_command_register_high_def
  write_interrupt_command_register_low_def write_task_priority_register_def

text \<open>After \<open>call_once\<close> the cell has the first address it was given.\<close>

definition once :: "u32 \<Rightarrow> 'd cpu_state \<Rightarrow> 'd cpu_state" where
  "once a s = s\<lparr>LOCAL_APIC := Some (case LOCAL_APIC s of None \<Rightarrow> a | Some b \<Rightarrow> b)\<rparr>"

lemma call_once_eq: "LOCAL_APIC_call_once a s = (Ret (), once a s)"
  by (cases s) (simp add: LOCAL_APIC_call_once_def update_def once_def split: option.split)

lemma init_local_apic_misaligned: "\<not> lapic_aligned a \<Longrightarrow> init_local_apic hw n a s = (Panic, once a s)"
  by (simp add: init_local_apic_def bnd_Ret [of "LOCAL_APIC_call_once a" s, OF call_once_eq] lapic_writes
      LocalApic_write_misaligned bnd_Panic)

lemma init_local_apic_result:
  assumes "lapic_aligned a"
  shows "\<exists>icrs t. (init_local_apic hw n a s = (Ret (), t) \<and> happened (local_apic_events a icrs) (once a s) t \<and>
      delivered icrs \<and> length icrs \<le> n)
    \<or> (init_local_apic hw n a s = (Diverge, t) \<and> happened (butlast (local_apic_events a icrs)) (once a s) t \<and>
      length icrs = n \<and> list_all (\<lambda>v. bit v 12) icrs)"
proof -
  let ?Q = "\<lambda>run. \<exists>icrs t. (run = (Ret (), t) \<and> happened (local_apic_events a icrs) (once a s) t \<and>
      delivered icrs \<and> length icrs \<le> n) \<or> (run = (Diverge, t) \<and>
      happened (butlast (local_apic_events a icrs)) (once a s) t \<and> length icrs = n \<and> list_all (\<lambda>v. bit v 12) icrs)"
  have start: "happened [] (once a s) (once a s)" by (simp add: happened_def)
  have wait: "?Q (bnd (wait_delivery hw a n) (\<lambda>_. LocalApic_write hw a (0x80 div 4) 0) u)"
    if "happened (take 10 (local_apic_events a [])) (once a s) u" for u
  proof -
    obtain icrs t where t: "happened (map (MmioRead (ucast a + 0x300)) icrs) u t"
      "wait_delivery hw a n u = (Ret (), t) \<and> delivered icrs \<and> length icrs \<le> n
       \<or> wait_delivery hw a n u = (Diverge, t) \<and> length icrs = n \<and> list_all (\<lambda>v. bit v 12) icrs"
      using wait_delivery_result [OF assms, of u hw n] by blast
    obtain v where v: "LocalApic_write hw a (0x80 div 4) 0 t = (Ret (), v)" "happened [MmioWrite (ucast a + 0x80) 0] t v"
      using LocalApic_write_result [OF assms, of "0x80 div 4" hw 0 t] by auto
    from t(2) show ?thesis
    proof
      assume "wait_delivery hw a n u = (Ret (), t) \<and> delivered icrs \<and> length icrs \<le> n"
      with v(1) happened_trans [OF happened_trans [OF that t(1)] v(2)] show ?thesis
        by (intro exI [of _ icrs] exI [of _ v]) (simp add: bnd_def local_apic_events_def)
    next
      assume "wait_delivery hw a n u = (Diverge, t) \<and> length icrs = n \<and> list_all (\<lambda>v. bit v 12) icrs"
      with happened_trans [OF that t(1)] show ?thesis
        by (intro exI [of _ icrs] exI [of _ t]) (simp add: bnd_def local_apic_events_def butlast_append)
    qed
  qed
  obtain u where u: "init_local_apic hw n a s = bnd (wait_delivery hw a n) (\<lambda>_. LocalApic_write hw a (0x80 div 4) 0) u"
      "happened (take 10 (local_apic_events a [])) (once a s) u"
    using lapic_run_result [OF assms, of "[(0xf0 div 4, 0x1ff), (0x350 div 4, 0x10000), (0x360 div 4, 0x10000), (0x340 div 4, 0x10000),
      (0x370 div 4, 51), (0x280 div 4, 0), (0x280 div 4, 0), (0xb0 div 4, 0), (0x310 div 4, 0), (0x300 div 4, 0x88500)]"
      hw "bnd (wait_delivery hw a n) (\<lambda>_. LocalApic_write hw a (0x80 div 4) 0)" "once a s"]
    by (auto simp: init_local_apic_def bnd_Ret [of "LOCAL_APIC_call_once a" s, OF call_once_eq] lapic_writes lapic_run_def local_apic_events_def EXTERNAL_IRQ_OFFSET_def)
  show ?thesis unfolding u(1) by (rule wait [OF u(2)])
qed

section \<open>Initialisation\<close>

text \<open>\<open>kprintln!\<close> always returns: the console is free and the text is ASCII.\<close>

definition printing_returns :: "'d cpu_hw \<Rightarrow> bool" where
  "printing_returns hw \<longleftrightarrow> (\<forall>msg d. fst (klog (ports hw) msg d) = Ret ())"

lemma cpu_kprintln_result: "printing_returns hw \<Longrightarrow> \<exists>t. cpu_kprintln hw msg s = (Ret (), t) \<and> happened [] s t"
  by (simp add: printing_returns_def cpu_kprintln_def on_io_def kprintln_def zoom_def happened_def split_beta)

definition init_events :: "ApicInfo \<Rightarrow> u32 list \<Rightarrow> cpu_event list" where
  "init_events info icrs = [LoadIdt, WriteMsr 0x1b 0 (info_local_apic_base info OR 0x800)]
     @ local_apic_events (info_local_apic_base info) icrs"

text \<open>The state after the descriptor table, the 8259 controllers and the APIC base are set up.\<close>

definition configured :: "'d cpu_hw \<Rightarrow> ApicInfo \<Rightarrow> 'd cpu_state \<Rightarrow> 'd cpu_state" where
  "configured hw info s = s\<lparr>
     io := (io s)\<lparr>trace := Out 0x21 0xff # Out 0xa1 0xff # trace (io s),
       dev := wrmsr hw 0x1b 0 (info_local_apic_base info OR 0x800)
         (outb (ports hw) 0x21 0xff (outb (ports hw) 0xa1 0xff (dev (io s))))\<rparr>,
     events := WriteMsr 0x1b 0 (info_local_apic_base info OR 0x800) # LoadIdt # events s\<rparr>"

lemma apic_base_msr:
  "ucast (ucast base OR 0x800 :: u64) = base OR 0x800" "ucast (drop_bit 32 (ucast base :: u64)) = (0 :: u32)" for base :: u32
proof -
  show "ucast (ucast base OR 0x800 :: u64) = base OR 0x800"
    by (rule bit_word_eqI) (simp add: bit_simps)
  have "\<not> bit base (32 + n)" for n using bit_imp_le_length [of base "32 + n"] by auto
  then show "ucast (drop_bit 32 (ucast base :: u64)) = (0 :: u32)"
    by (intro bit_word_eqI) (simp add: bit_simps add.commute)
qed

lemma interrupts_init_unfold:
  assumes "apic_info s = Some info"
  shows "interrupts_init hw fuel s = bnd (init_local_apic hw fuel (local_apic_base info)) (\<lambda>_.
     bnd cpu_apic_info (\<lambda>info.
     bnd (cpu_kprintln hw (''I/O APIC base: 0x'' @ upper_hex (unat (io_apic_base info)))) (\<lambda>_.
     init_io_apic hw info))) (configured hw info s)"
  using assms
  by (simp add: interrupts_init_def init_apic_def init_idt_def disable_pic_8259_def on_io_def zoom_def port_write_def
      cpu_apic_info_def expect_def write_msr_def configured_def bnd_def update_def get_def ret_def apic_base_msr Let_def)

definition initialised :: "ApicInfo \<Rightarrow> cpu_event list \<Rightarrow> 'd cpu_state \<Rightarrow> 'd cpu_state \<Rightarrow> bool" where
  "initialised info es s t \<longleftrightarrow> events t = rev es @ events s \<and> trace (io t) = Out 0x21 0xff # Out 0xa1 0xff # trace (io s) \<and>
     apic_info t = apic_info s \<and>
     LOCAL_APIC t = Some (case LOCAL_APIC s of None \<Rightarrow> info_local_apic_base info | Some b \<Rightarrow> b)"

lemma happened_configured:
  "happened es (once (info_local_apic_base info) (configured hw info s)) t \<Longrightarrow>
    initialised info ([LoadIdt, WriteMsr 0x1b 0 (info_local_apic_base info OR 0x800)] @ es) s t"
  by (simp add: happened_def initialised_def once_def configured_def)

definition apics_aligned :: "ApicInfo \<Rightarrow> bool" where
  "apics_aligned info \<longleftrightarrow> lapic_aligned (info_local_apic_base info) \<and> ioapic_aligned (io_apic_base info)"

lemma interrupts_init_from_lapic:
  assumes info: "apic_info s = Some info" and quiet: "printing_returns hw" and lapic: "lapic_aligned (info_local_apic_base info)"
  shows "\<exists>icrs idv ver t.
      interrupts_init hw fuel s = (Ret (), t) \<and> apics_aligned info \<and> delivered icrs \<and> length icrs \<le> fuel \<and>
        ucast (drop_bit 24 idv AND 0xf) = io_apic_id info \<and>
        initialised info (init_events info icrs @ io_apic_events info idv ver) s t
    \<or> interrupts_init hw fuel s = (Panic, t) \<and> apics_aligned info \<and> delivered icrs \<and> length icrs \<le> fuel \<and>
        ucast (drop_bit 24 idv AND 0xf) \<noteq> io_apic_id info \<and>
        initialised info (init_events info icrs @ take 2 (io_apic_events info idv 0)) s t
    \<or> interrupts_init hw fuel s = (Diverge, t) \<and> lapic_aligned (info_local_apic_base info) \<and>
        length icrs = fuel \<and> list_all (\<lambda>v. bit v 12) icrs \<and> initialised info (butlast (init_events info icrs)) s t
    \<or> interrupts_init hw fuel s = (Panic, t) \<and> \<not> lapic_aligned (info_local_apic_base info) \<and>
        initialised info (take 2 (init_events info [])) s t
    \<or> interrupts_init hw fuel s = (Panic, t) \<and> lapic_aligned (info_local_apic_base info) \<and>
        \<not> ioapic_aligned (io_apic_base info) \<and> delivered icrs \<and> length icrs \<le> fuel \<and>
        initialised info (init_events info icrs) s t"
proof -
  let ?b = "info_local_apic_base info"
  obtain icrs u where "(init_local_apic hw fuel ?b (configured hw info s) = (Ret (), u) \<and>
        happened (local_apic_events ?b icrs) (once ?b (configured hw info s)) u \<and> delivered icrs \<and> length icrs \<le> fuel)
      \<or> (init_local_apic hw fuel ?b (configured hw info s) = (Diverge, u) \<and>
        happened (butlast (local_apic_events ?b icrs)) (once ?b (configured hw info s)) u \<and>
        length icrs = fuel \<and> list_all (\<lambda>v. bit v 12) icrs)"
    using init_local_apic_result [OF lapic] by blast
  then show ?thesis
  proof (elim disjE conjE)
    assume run: "init_local_apic hw fuel ?b (configured hw info s) = (Ret (), u)"
      and hap: "happened (local_apic_events ?b icrs) (once ?b (configured hw info s)) u"
      and deliv: "delivered icrs" "length icrs \<le> fuel"
    have "apic_info u = Some info" using hap info by (simp add: happened_def once_def configured_def)
    moreover obtain v where v: "cpu_kprintln hw (''I/O APIC base: 0x'' @ upper_hex (unat (io_apic_base info))) u = (Ret (), v)"
        "happened [] u v"
      using cpu_kprintln_result [OF quiet] by blast
    ultimately have eq: "interrupts_init hw fuel s = init_io_apic hw info v"
      unfolding interrupts_init_unfold [OF info]
      by (simp add: bnd_def run cpu_apic_info_def get_def expect_def ret_def)
    show ?thesis
    proof (cases "ioapic_aligned (io_apic_base info)")
      case False
      have "interrupts_init hw fuel s = (Panic, v)" unfolding eq by (rule init_io_apic_misaligned [OF False])
      moreover have "initialised info (init_events info icrs) s v"
        using happened_configured [OF happened_trans [OF hap v(2)]] by (simp add: init_events_def)
      ultimately show ?thesis using deliv lapic False by blast
    next
      case True
    obtain idv ver t where "if ucast (drop_bit 24 idv AND 0xf) = io_apic_id info
        then init_io_apic hw info v = (Ret (), t) \<and> happened (io_apic_events info idv ver) v t
        else init_io_apic hw info v = (Panic, t) \<and> happened (take 2 (io_apic_events info idv 0)) v t"
      using init_io_apic_result [OF True] by blast
    with happened_trans [OF happened_trans [OF hap v(2)]] deliv True lapic show ?thesis
      unfolding eq init_events_def append_assoc
      by (intro exI [of _ icrs] exI [of _ idv] exI [of _ ver] exI [of _ t])
        (cases "ucast (drop_bit 24 idv AND 0xf) = io_apic_id info"; force simp: apics_aligned_def dest: happened_configured)
    qed
  next
    assume run: "init_local_apic hw fuel ?b (configured hw info s) = (Diverge, u)"
      and hap: "happened (butlast (local_apic_events ?b icrs)) (once ?b (configured hw info s)) u"
      and busy: "length icrs = fuel" "list_all (\<lambda>v. bit v 12) icrs"
    have "interrupts_init hw fuel s = (Diverge, u)"
      unfolding interrupts_init_unfold [OF info] by (simp add: bnd_def run)
    moreover have "butlast (init_events info icrs) =
        [LoadIdt, WriteMsr 0x1b 0 (?b OR 0x800)] @ butlast (local_apic_events ?b icrs)"
      by (simp add: init_events_def local_apic_events_def)
    ultimately show ?thesis using happened_configured [OF hap] busy lapic by metis
  qed
qed

lemma interrupts_init_runs:
  assumes info: "apic_info s = Some info" and quiet: "printing_returns hw"
  shows "\<exists>icrs idv ver t.
      interrupts_init hw fuel s = (Ret (), t) \<and> apics_aligned info \<and> delivered icrs \<and> length icrs \<le> fuel \<and>
        ucast (drop_bit 24 idv AND 0xf) = io_apic_id info \<and>
        initialised info (init_events info icrs @ io_apic_events info idv ver) s t
    \<or> interrupts_init hw fuel s = (Panic, t) \<and> apics_aligned info \<and> delivered icrs \<and> length icrs \<le> fuel \<and>
        ucast (drop_bit 24 idv AND 0xf) \<noteq> io_apic_id info \<and>
        initialised info (init_events info icrs @ take 2 (io_apic_events info idv 0)) s t
    \<or> interrupts_init hw fuel s = (Diverge, t) \<and> lapic_aligned (info_local_apic_base info) \<and>
        length icrs = fuel \<and> list_all (\<lambda>v. bit v 12) icrs \<and> initialised info (butlast (init_events info icrs)) s t
    \<or> interrupts_init hw fuel s = (Panic, t) \<and> \<not> lapic_aligned (info_local_apic_base info) \<and>
        initialised info (take 2 (init_events info [])) s t
    \<or> interrupts_init hw fuel s = (Panic, t) \<and> lapic_aligned (info_local_apic_base info) \<and>
        \<not> ioapic_aligned (io_apic_base info) \<and> delivered icrs \<and> length icrs \<le> fuel \<and>
        initialised info (init_events info icrs) s t"
proof -
  let ?b = "info_local_apic_base info"
  have "interrupts_init hw fuel s = (Panic, once ?b (configured hw info s)) \<and>
      initialised info (take 2 (init_events info [])) s (once ?b (configured hw info s))" if "\<not> lapic_aligned ?b"
    using happened_configured [of "[]" info hw s] init_local_apic_misaligned [OF that, of hw fuel "configured hw info s"]
    unfolding interrupts_init_unfold [OF info] by (simp add: bnd_def init_events_def happened_def)
  then show ?thesis using interrupts_init_from_lapic [OF assms] by blast
qed

text \<open>
  C30. \<open>interrupts::init\<close> with the ACPI tables read and a console that prints: it loads the descriptor table, masks both
  8259 controllers, enables the APIC at the base the MADT gives and programs the local APIC in the documented order. It
  then waits until the delivery status of the interrupt command is clear: it diverges only when every read says busy.
  After that it panics when the I/O APIC reports another identifier than the MADT, having only read it, and otherwise
  programs the redirection table. A base address of the MADT that is not aligned (or, for the I/O APIC, null) makes the
  first access through it panic. No other register is accessed.
\<close>

theorem interrupts_init_result:
  assumes "apic_info s = Some info" and "printing_returns hw"
  shows "\<exists>icrs idv ver t.
      interrupts_init hw fuel s = (Ret (), t) \<and> apics_aligned info \<and> delivered icrs \<and> length icrs \<le> fuel \<and>
        ucast (drop_bit 24 idv AND 0xf) = io_apic_id info \<and>
        initialised info (init_events info icrs @ io_apic_events info idv ver) s t
    \<or> interrupts_init hw fuel s = (Panic, t) \<and> apics_aligned info \<and> delivered icrs \<and> length icrs \<le> fuel \<and>
        ucast (drop_bit 24 idv AND 0xf) \<noteq> io_apic_id info \<and>
        initialised info (init_events info icrs @ take 2 (io_apic_events info idv 0)) s t
    \<or> interrupts_init hw fuel s = (Diverge, t) \<and> lapic_aligned (info_local_apic_base info) \<and>
        length icrs = fuel \<and> list_all (\<lambda>v. bit v 12) icrs \<and> initialised info (butlast (init_events info icrs)) s t
    \<or> interrupts_init hw fuel s = (Panic, t) \<and> \<not> lapic_aligned (info_local_apic_base info) \<and>
        initialised info (take 2 (init_events info [])) s t
    \<or> interrupts_init hw fuel s = (Panic, t) \<and> lapic_aligned (info_local_apic_base info) \<and>
        \<not> ioapic_aligned (io_apic_base info) \<and> delivered icrs \<and> length icrs \<le> fuel \<and>
        initialised info (init_events info icrs) s t"
  using assms by (rule interrupts_init_runs)

text \<open>A machine with an I/O APIC of three entries and a local APIC that is busy for the first \<open>busy\<close> reads.\<close>

definition demo_info :: ApicInfo where
  "demo_info = \<lparr>info_local_apic_base = 0xfee00000, info_local_apic = \<lparr>lapic_processor_id = 1, lapic_apic_id = 0\<rparr>,
     info_io_apic = \<lparr>entry_io_apic_id = 2, entry_io_apic_address = 0xfec00000\<rparr>\<rparr>"

definition demo_cpu :: "unit outcome \<Rightarrow> (u32 \<times> nat) cpu_hw" where
  "demo_cpu print = \<lparr>ports = \<lparr>inb = \<lambda>p d. (0, d), outb = \<lambda>p v d. d, klog = \<lambda>msg d. (print, d)\<rparr>,
     mmio_in = \<lambda>a (sel, busy). if a = 0xfec00010 then (if sel = 0 then 0x02000000 else 0x00020011, (sel, busy))
       else (if busy = 0 then 0 else 0x1000, (sel, busy - 1)),
     mmio_out = \<lambda>a v (sel, busy). if a = 0xfec00000 then (v, busy) else (sel, busy),
     rdmsr = \<lambda>r d. ((0, 0), d), wrmsr = \<lambda>r hi lo d. d\<rparr>"

definition demo_cpu_state :: "(u32 \<times> nat) cpu_state" where
  "demo_cpu_state = \<lparr>io = \<lparr>dev = (0, 1), trace = []\<rparr>, events = [], apic_info = Some demo_info, LOCAL_APIC = None\<rparr>"

lemma demo_printing_returns: "printing_returns (demo_cpu (Ret ()))"
  by (simp add: printing_returns_def demo_cpu_def)

lemma demo_apic_info: "apic_info demo_cpu_state = Some demo_info"
  by (simp add: demo_cpu_state_def)

lemmas demo_cpu_defs = demo_cpu_def demo_cpu_state_def demo_info_def

lemmas cpu_run_defs = bnd_def ret_def get_def update_def panic_def diverge_def expect_def on_io_def zoom_def port_write_def
  kprintln_def Let_def interrupts_init_def init_idt_def disable_pic_8259_def init_apic_def cpu_apic_info_def write_msr_def
  cpu_kprintln_def init_local_apic_def LOCAL_APIC_call_once_def lapic_writes LocalApic_write_def LocalApic_read_def
  read_interrupt_command_register_low_def write_volatile_def read_volatile_def mmio_ok_def io_apic_base_def io_apic_id_def
  processor_id_def init_io_apic_def get_id_def get_max_amount_of_redirection_entries_def IoApic_read_def IoApic_write_def
  set_redirection_entry_at_def EXTERNAL_IRQ_OFFSET_def

lemma demo_init_returns: "fst (interrupts_init (demo_cpu (Ret ())) 3 demo_cpu_state) = Ret ()"
  by (simp add: cpu_run_defs demo_cpu_defs upt_rec numeral_3_eq_3)

theorem interrupts_init_result_witness:
  "\<exists>icrs idv ver t. interrupts_init (demo_cpu (Ret ())) 3 demo_cpu_state = (Ret (), t) \<and> delivered icrs \<and> length icrs \<le> 3 \<and>
     ucast (drop_bit 24 idv AND 0xf) = io_apic_id demo_info \<and>
     initialised demo_info (init_events demo_info icrs @ io_apic_events demo_info idv ver) demo_cpu_state t"
  using interrupts_init_result [OF demo_apic_info demo_printing_returns, of 3] demo_init_returns by auto

section \<open>The redirection table\<close>

definition elsewhere :: "u32 \<Rightarrow> cpu_event \<Rightarrow> bool" where
  "elsewhere a e \<longleftrightarrow> (case e of MmioWrite p v \<Rightarrow> p \<noteq> ucast a \<and> p \<noteq> ucast a + 16 | _ \<Rightarrow> True)"

lemma replay_elsewhere: "list_all (elsewhere a) es \<Longrightarrow> replay a es st = st"
  by (induction a es st rule: replay.induct) (simp_all add: elsewhere_def)

lemma replay_io_apic_events:
  "replay (io_apic_base info) (io_apic_events info idv ver) st =
    (let a = io_apic_base info in
     replay a (entry_events a 12 (routed_entry info 44)) (replay a (entry_events a 1 (routed_entry info 33))
      (replay a (concat (map (\<lambda>i. entry_events a i (masked_entry i)) [0..<entry_count ver])) (1, snd st))))"
  by (cases st) (simp add: io_apic_events_def replay_append Let_def del: upt_Suc)

definition entry_words :: "u64 \<Rightarrow> u32 \<times> u32" where
  "entry_words v = (ucast v, ucast (drop_bit 32 v))"

lemma redirection_after_init:
  assumes "j < 2 ^ 16"
  shows "redirection (snd (replay (io_apic_base info) (io_apic_events info idv ver) st)) j =
    (if j = 12 then Some (entry_words (routed_entry info 44)) else if j = 1 then Some (entry_words (routed_entry info 33))
     else if j < entry_count ver then Some (entry_words (masked_entry j)) else redirection (snd st) j)"
proof -
  let ?a = "io_apic_base info"
  obtain sel regs where st: "replay ?a (concat (map (\<lambda>i. entry_events ?a i (masked_entry i)) [0..<entry_count ver])) (1, snd st)
      = (sel, regs)"
    by fastforce
  have "redirection regs j = (if j < entry_count ver then Some (entry_words (masked_entry j)) else redirection (snd st) j)"
    using replay_masked [of "entry_count ver" j ?a masked_entry 1 "snd st"] assms entry_count_less [of ver]
    by (simp add: st entry_words_def)
  moreover have "(12::nat) < 2 ^ 16" "(1::nat) < 2 ^ 16" by simp_all
  ultimately show ?thesis
    unfolding replay_io_apic_events Let_def st replay_entry snd_conv entry_words_def
      redirection_update [OF \<open>(12::nat) < 2 ^ 16\<close> assms] redirection_update [OF \<open>(1::nat) < 2 ^ 16\<close> assms]
    by simp
qed

lemma entry_words_masked:
  assumes "j < 256"
  shows "entry_words (masked_entry j) = (of_nat (32 + j) OR 0x10000, 0)"
proof -
  have low: "\<not> bit (32 + j) (32 + n)" for n
    using assms bit_take_bit_iff [of 9 "32 + j" "32 + n"] by (simp add: take_bit_nat_eq_self)
  have m: "masked_entry j = of_nat (32 + j) OR 0x10000" by (simp add: masked_entry_def)
  have "ucast (masked_entry j) = (of_nat (32 + j) OR 0x10000 :: u32)"
    unfolding m by (rule bit_word_eqI) (simp add: bit_simps del: of_nat_add)
  moreover have "ucast (drop_bit 32 (masked_entry j)) = (0 :: u32)"
    unfolding m by (rule bit_word_eqI) (simp add: bit_simps low del: of_nat_add)
  ultimately show ?thesis by (simp only: entry_words_def)
qed

lemma bit_beyond: "LENGTH('a) \<le> n \<Longrightarrow> \<not> bit w n" for w :: "'a::len word"
  using bit_imp_le_length [of w n] by auto

lemma entry_words_routed: "entry_words (routed_entry info v) = (ucast v, push_bit 24 (ucast (processor_id info)))"
proof -
  have "ucast (routed_entry info v) = (ucast v :: u32)"
    unfolding routed_entry_def by (rule bit_word_eqI) (simp add: bit_simps)
  moreover have "ucast (drop_bit 32 (routed_entry info v)) = (push_bit 24 (ucast (processor_id info)) :: u32)"
    unfolding routed_entry_def
    by (rule bit_word_eqI) (auto simp add: bit_simps bit_beyond)
  ultimately show ?thesis by (simp only: entry_words_def)
qed

text \<open>The value of the newest read.\<close>

fun last_read :: "cpu_event list \<Rightarrow> u32 option" where
  "last_read [] = None"
| "last_read (MmioRead _ v # es) = Some v"
| "last_read (_ # es) = last_read es"

lemma last_read_append: "last_read (es @ fs) = (case last_read es of None \<Rightarrow> last_read fs | Some v \<Rightarrow> Some v)"
  by (induction es rule: last_read.induct) simp_all

lemma last_read_entry: "last_read (rev (entry_events a i v)) = None"
  by (simp add: entry_events_def)

lemma last_read_entries: "last_read (rev (concat (map (\<lambda>i. entry_events a i (f i)) is))) = None"
  by (induction "is") (simp_all add: last_read_append last_read_entry)

lemma last_read_io_apic_events: "last_read (rev (io_apic_events info idv ver) @ es) = Some ver"
  by (simp add: io_apic_events_def Let_def last_read_append last_read_entries last_read_entry)

text \<open>The registers of the local APIC are not those of the I/O APIC.\<close>

definition apics_apart :: "ApicInfo \<Rightarrow> bool" where
  "apics_apart info \<longleftrightarrow> (\<forall>k \<in> {0x80, 0xb0, 0xf0, 0x280, 0x300, 0x310, 0x340, 0x350, 0x360, 0x370} :: u64 set.
     ucast (info_local_apic_base info) + k \<notin> {ucast (io_apic_base info), ucast (io_apic_base info) + 16})"

lemma init_events_elsewhere: "apics_apart info \<Longrightarrow> list_all (elsewhere (io_apic_base info)) (init_events info icrs)"
  by (auto simp: apics_apart_def init_events_def local_apic_events_def elsewhere_def list_all_iff)

text \<open>
  C16. After \<open>interrupts::init\<close> returns, the redirection table of the I/O APIC sends the keyboard line 1 to vector 33 and
  the mouse line 12 to vector 44, unmasked, at the processor the MADT names. The other entries below the number the
  version register gives have vector 32 plus their index, the mask bit and no destination. That number is the index of
  the last entry, so the last entry itself (and every later one) has not been written, unless it is the keyboard's or the mouse's.
\<close>

theorem redirection_table_after_init:
  assumes "apic_info s = Some info" and "printing_returns hw" and "apics_apart info"
    and "interrupts_init hw fuel s = (Ret (), t)" and "events s = []" and "j < 2 ^ 16"
  shows "\<exists>ver. last_read (events t) = Some ver \<and>
    redirection (snd (replay (io_apic_base info) (rev (events t)) (0, Map.empty))) j =
      (if j = 12 then Some (44, push_bit 24 (ucast (processor_id info)))
       else if j = 1 then Some (33, push_bit 24 (ucast (processor_id info)))
       else if j < entry_count ver then Some (of_nat (32 + j) OR 0x10000, 0)
       else None)"
proof -
  obtain icrs idv ver where "initialised info (init_events info icrs @ io_apic_events info idv ver) s t"
    using interrupts_init_runs [OF assms(1,2), of fuel] assms(4) by auto
  then have es: "rev (events t) = init_events info icrs @ io_apic_events info idv ver"
      "last_read (events t) = Some ver"
    using assms(5) by (simp_all add: initialised_def last_read_io_apic_events)
  have "j < entry_count ver \<Longrightarrow> j < 256" using entry_count_less [of ver] by simp
  moreover have "redirection Map.empty j = None" by (simp add: redirection_def)
  ultimately show ?thesis
    using es(2) unfolding es(1) replay_append replay_elsewhere [OF init_events_elsewhere [OF assms(3)]]
      redirection_after_init [OF assms(6)] entry_words_routed
    by (simp add: entry_words_masked del: of_nat_add)
qed

lemma demo_apart: "apics_apart demo_info"
  by (simp add: apics_apart_def demo_info_def io_apic_base_def)

theorem redirection_table_after_init_witness:
  "redirection (snd (replay 0xfec00000 (rev (events (snd (interrupts_init (demo_cpu (Ret ())) 3 demo_cpu_state)))) (0, Map.empty))) 12 =
    Some (44, 0x01000000)"
proof -
  obtain t where t: "interrupts_init (demo_cpu (Ret ())) 3 demo_cpu_state = (Ret (), t)"
    using demo_init_returns by (metis prod.collapse)
  have "events demo_cpu_state = []" "(12 :: nat) < 2 ^ 16" by (simp_all add: demo_cpu_state_def)
  from redirection_table_after_init [OF demo_apic_info demo_printing_returns demo_apart t this]
  show ?thesis by (simp add: t demo_info_def io_apic_base_def processor_id_def)
qed

section \<open>Handlers\<close>

text \<open>
  The descriptor table has a handler for the vectors of the timers, the keyboard and the mouse, each the one written for it, and
  for breakpoints and double faults, and for nothing else. The vector of the error interrupt (51) and the spurious
  vector (255), both programmed into the local APIC, have none.
\<close>

theorem idt_handlers:
  "dom IDT = {3, 8, 32, 33, 44, 0x41}
   \<and> IDT (InterruptVector_as_u8 EXTERNAL_IRQ_KEYBOARD) = Some Keyboard_interrupt_handler
   \<and> IDT (InterruptVector_as_u8 EXTERNAL_IRQ_MOUSE) = Some Mouse_interrupt_handler
   \<and> IDT (InterruptVector_as_u8 EXTERNAL_IRQ_TIMER) = Some Timer_interrupt_handler
   \<and> IDT (InterruptVector_as_u8 LocalAPICTimer) = Some Timer_interrupt_handler
   \<and> IDT (InterruptVector_as_u8 EXTERNAL_IRQ_ERROR) = None
   \<and> IDT 0xff = None"
  by (auto simp: IDT_def EXTERNAL_IRQ_OFFSET_def)

lemma end_of_interrupt_result:
  assumes "LOCAL_APIC s = Some a" "lapic_aligned a"
  shows "\<exists>t. end_of_interrupt hw s = (Ret (), t) \<and> events t = MmioWrite (ucast a + 0xb0) 0 # events s \<and>
    apic_info t = apic_info s \<and> LOCAL_APIC t = LOCAL_APIC s"
  using assms LocalApic_write_result [of a "0xb0 div 4" hw 0 s]
  by (auto simp: end_of_interrupt_def LOCAL_APIC_wait_def write_end_of_interrupt_register_def bnd_def get_def ret_def happened_def)

text \<open>A part of a handler that leaves the interrupt controller alone.\<close>

definition keeps_apic :: "'d cpu_state \<Rightarrow> 'd cpu_state \<Rightarrow> bool" where
  "keeps_apic s t \<longleftrightarrow> events t = events s \<and> apic_info t = apic_info s \<and> LOCAL_APIC t = LOCAL_APIC s"

lemma on_io_result: "returns m \<Longrightarrow> \<exists>x t. on_io m s = (Ret x, t) \<and> keeps_apic s t"
  using returnsD [of m "io s"] by (auto simp: on_io_def zoom_def keeps_apic_def)

lemma kprintln_keeps: "printing_returns hw \<Longrightarrow> \<exists>t. cpu_kprintln hw msg s = (Ret (), t) \<and> keeps_apic s t"
  using cpu_kprintln_result [of hw msg s] by (auto simp: happened_def keeps_apic_def)

lemma handler_work:
  assumes "returns m" and "printing_returns hw"
  shows "\<exists>t. bnd (on_io m) (\<lambda>_. bnd (cpu_kprintln hw msg) (\<lambda>_. k)) s = k t \<and> keeps_apic s t"
proof -
  obtain x u where u: "on_io m s = (Ret x, u)" "keeps_apic s u" using on_io_result [OF assms(1)] by blast
  obtain t where "cpu_kprintln hw msg u = (Ret (), t)" "keeps_apic u t" using kprintln_keeps [OF assms(2)] by blast
  with u show ?thesis by (intro exI [of _ t]) (simp add: bnd_def keeps_apic_def)
qed

text \<open>Every handler but the one for double faults does some work, then signals the end of the interrupt.\<close>

lemma handler_ends:
  assumes "h \<noteq> Double_fault_handler" and "printing_returns hw"
  shows "\<exists>t. run_handler hw h s = end_of_interrupt hw t \<and> keeps_apic s t"
proof (cases h)
  case Breakpoint_handler
  then show ?thesis
    using kprintln_keeps [OF assms(2), of "''breakpoint exception occured.''" s] by (auto simp: breakpoint_handler_def bnd_def)
next
  case Timer_interrupt_handler
  then show ?thesis by (auto simp: timer_interrupt_handler_def keeps_apic_def)
next
  case Keyboard_interrupt_handler
  have "returns (Keyboard_read_data (ports hw) Controller_new)"
    unfolding Keyboard_read_data_def by (intro returns_rules)
  from handler_work [OF this assms(2)] Keyboard_interrupt_handler show ?thesis
    by (simp add: keyboard_interrupt_handler_def)
next
  case Mouse_interrupt_handler
  from handler_work [OF returns_flush_data_port assms(2)] Mouse_interrupt_handler show ?thesis
    by (simp add: mouse_interrupt_handler_def)
qed (simp add: assms(1))

text \<open>
  With the local APIC set up at an aligned base and a console that prints, every handler but the one for double faults returns, on any
  device, after exactly one access to the interrupt controllers: the write that signals the end of the interrupt.
\<close>

theorem handlers_acknowledge:
  assumes "LOCAL_APIC s = Some a" and "lapic_aligned a" and "printing_returns hw" and "h \<noteq> Double_fault_handler"
  shows "\<exists>t. run_handler hw h s = (Ret (), t) \<and> events t = MmioWrite (ucast a + 0xb0) 0 # events s \<and>
    apic_info t = apic_info s \<and> LOCAL_APIC t = Some a"
proof -
  obtain u where "run_handler hw h s = end_of_interrupt hw u" "keeps_apic s u"
    using handler_ends [OF assms(4,3)] by blast
  then show ?thesis using end_of_interrupt_result [of u a hw] assms(1,2) by (auto simp: keeps_apic_def)
qed

definition demo_running :: "(u32 \<times> nat) cpu_state" where
  "demo_running = demo_cpu_state\<lparr>LOCAL_APIC := Some 0xfee00000\<rparr>"

theorem handlers_acknowledge_witness:
  "\<exists>t. mouse_interrupt_handler (demo_cpu (Ret ())) demo_running = (Ret (), t) \<and> events t = [MmioWrite 0xfee000b0 0]"
  using handlers_acknowledge [of demo_running "0xfee00000" "demo_cpu (Ret ())" Mouse_interrupt_handler]
  by (auto simp: demo_running_def demo_cpu_state_def demo_printing_returns lapic_aligned_def)

text \<open>
  When printing panics, as it does while the interrupted code holds the console, the keyboard, mouse and breakpoint
  handlers panic too and the end of the interrupt is never signalled.
\<close>

theorem handlers_panic_with_console:
  assumes "\<forall>msg d. fst (klog (ports hw) msg d) = Panic"
    and "h \<in> {Keyboard_interrupt_handler, Mouse_interrupt_handler, Breakpoint_handler}"
  shows "\<exists>t. run_handler hw h s = (Panic, t) \<and> events t = events s"
proof -
  have "\<exists>t. cpu_kprintln hw msg u = (Panic, t) \<and> keeps_apic u t" for msg u
    using assms(1) by (simp add: cpu_kprintln_def on_io_def kprintln_def zoom_def keeps_apic_def split_beta)
  then have prints: "\<exists>t. bnd (cpu_kprintln hw msg) f u = (Panic, t) \<and> events t = events u" for msg f u
    by (metis bnd_Panic keeps_apic_def)
  have work: "\<exists>t. bnd (on_io m) (\<lambda>_. bnd (cpu_kprintln hw msg) f) s = (Panic, t) \<and> events t = events s" if r: "returns m" for m msg f
  proof -
    obtain x u where u: "on_io m s = (Ret x, u)" "keeps_apic s u" using on_io_result [OF r] by blast
    then show ?thesis using prints [of msg f u] by (simp add: bnd_Ret [of "on_io m" s] keeps_apic_def)
  qed
  have "returns (Keyboard_read_data (ports hw) Controller_new)"
    unfolding Keyboard_read_data_def by (intro returns_rules)
  with assms(2) show ?thesis
    using work [OF returns_flush_data_port] work prints
    by (auto simp: keyboard_interrupt_handler_def mouse_interrupt_handler_def breakpoint_handler_def)
qed

theorem handlers_panic_with_console_witness:
  "\<exists>t. keyboard_interrupt_handler (demo_cpu Panic) demo_running = (Panic, t) \<and> events t = []"
  using handlers_panic_with_console [of "demo_cpu Panic" Keyboard_interrupt_handler demo_running]
  by (simp add: demo_cpu_def demo_running_def demo_cpu_state_def)

section \<open>Interrupts on two machines\<close>

definition same_cpu :: "('d \<Rightarrow> 'e \<Rightarrow> bool) \<Rightarrow> 'd cpu_state \<Rightarrow> 'e cpu_state \<Rightarrow> bool" where
  "same_cpu R s t \<longleftrightarrow> same_io R (io s) (io t) \<and> events s = events t \<and> apic_info s = apic_info t \<and>
     LOCAL_APIC s = LOCAL_APIC t"

locale same_machine = same_ports "ports hw" "ports hw'" R
  for hw :: "'d cpu_hw" and hw' :: "'e cpu_hw" and R :: "'d \<Rightarrow> 'e \<Rightarrow> bool" +
  assumes same_mmio_in: "R d e \<Longrightarrow> fst (mmio_in hw a d) = fst (mmio_in hw' a e) \<and> R (snd (mmio_in hw a d)) (snd (mmio_in hw' a e))"
    and same_mmio_out: "R d e \<Longrightarrow> R (mmio_out hw a w d) (mmio_out hw' a w e)"
    and same_wrmsr: "R d e \<Longrightarrow> R (wrmsr hw r hi lo d) (wrmsr hw' r hi lo e)"
begin

lemma sim_on_io: "sim (same_io R) m m' \<Longrightarrow> sim (same_cpu R) (on_io m) (on_io m')"
  unfolding sim_def on_io_def zoom_def same_cpu_def by (simp add: split_beta)

lemma sim_volatile:
  "sim (same_cpu R) (write_volatile hw a v) (write_volatile hw' a v)"
  "sim (same_cpu R) (read_volatile hw a) (read_volatile hw' a)"
  "sim (same_cpu R) (write_msr hw r x) (write_msr hw' r x)"
  using same_mmio_in same_mmio_out same_wrmsr
  by (auto intro!: simI simp: same_cpu_def same_io_def write_volatile_def read_volatile_def write_msr_def split_beta Let_def)

lemma sim_cells:
  "sim (same_cpu R) LOCAL_APIC_wait LOCAL_APIC_wait"
  "sim (same_cpu R) (LOCAL_APIC_call_once a) (LOCAL_APIC_call_once a)"
  "sim (same_cpu R) cpu_apic_info cpu_apic_info"
  "sim (same_cpu R) init_idt init_idt"
  by (auto intro!: simI simp: same_cpu_def LOCAL_APIC_wait_def LOCAL_APIC_call_once_def cpu_apic_info_def init_idt_def
      bnd_def get_def update_def ret_def diverge_def expect_def panic_def split: option.split)

lemma sim_cpu_kprintln: "plain msg \<Longrightarrow> sim (same_cpu R) (cpu_kprintln hw msg) (cpu_kprintln hw' msg)"
  unfolding cpu_kprintln_def by (intro sim_on_io sim_kprintln)

lemma sim_registers:
  "sim (same_cpu R) (LocalApic_write hw a ofs v) (LocalApic_write hw' a ofs v)"
  "sim (same_cpu R) (LocalApic_read hw a ofs) (LocalApic_read hw' a ofs)"
  "sim (same_cpu R) (IoApic_write hw a r v) (IoApic_write hw' a r v)"
  "sim (same_cpu R) (IoApic_read hw a r) (IoApic_read hw' a r)"
  unfolding LocalApic_write_def LocalApic_read_def IoApic_write_def IoApic_read_def by (intro sim_rules sim_volatile)+

lemma sim_wait_delivery: "sim (same_cpu R) (wait_delivery hw a n) (wait_delivery hw' a n)"
  by (induction n) (auto simp: read_interrupt_command_register_low_def intro!: sim_rules sim_registers)

lemma sim_init_io_apic: "sim (same_cpu R) (init_io_apic hw info) (init_io_apic hw' info)"
  unfolding init_io_apic_def Let_def get_id_def get_max_amount_of_redirection_entries_def set_redirection_entry_at_def
  by (intro sim_rules sim_registers)

lemma sim_interrupts_init:
  assumes "\<And>info. plain (''I/O APIC base: 0x'' @ upper_hex (unat (io_apic_base info)))"
  shows "sim (same_cpu R) (interrupts_init hw fuel) (interrupts_init hw' fuel)"
  unfolding interrupts_init_def init_apic_def init_local_apic_def lapic_writes disable_pic_8259_def
  by (intro sim_rules sim_cells sim_volatile sim_registers sim_wait_delivery sim_init_io_apic sim_cpu_kprintln assms
      sim_on_io sim_port_write)

lemma plain_handler_messages: "plain ''pressed''" "plain ''moved.''" "plain ''breakpoint exception occured.''"
  by code_simp+

lemma sim_run_handler: "sim (same_cpu R) (run_handler hw h) (run_handler hw' h)"
  by (cases h) (simp_all add: breakpoint_handler_def double_fault_handler_def timer_interrupt_handler_def
      keyboard_interrupt_handler_def mouse_interrupt_handler_def end_of_interrupt_def write_end_of_interrupt_register_def
      sim_bnd sim_panic sim_cells sim_registers sim_cpu_kprintln plain_handler_messages sim_on_io sim_responses sim_flush)

end

end
