(* ===== verification/Timer.thy ===== *)
theory Timer
  imports Apic
begin

unbundle bit_operations_syntax

text \<open>
  The timer: \<open>kernel/src/timer.rs\<close>, a file that no module declares. It calls \<open>interrupts::get_local_apic\<close>,
  \<open>LocalApic::set_lvt_timer_register\<close> and \<open>LocalApic::get_current_count_register_for_timer\<close>, which the repository does not
  have; they are parameters, and the lemmas about registers take for the last two the accesses of \<open>arch.rs\<close> to the same
  registers. \<open>TIMER_MANAGER.lock()\<close> spins while the lock is held: that is \<open>Diverge\<close>.
\<close>

section \<open>The tick counter\<close>

definition COUNT_MAX :: u32 where "COUNT_MAX = 0xffffffff"

record TimerManager =
  tick_count :: u64

record timer =
  TIMER_MANAGER :: TimerManager
  timer_locked :: bool

definition TimerManager_new :: TimerManager where
  "TimerManager_new = \<lparr>tick_count = 0\<rparr>"

definition tick :: "(TimerManager, unit) prog" where
  "tick = bnd get (\<lambda>self. bnd (u64_add (tick_count self) 1) (\<lambda>n. update (\<lambda>self. self\<lparr>tick_count := n\<rparr>)))"

definition TimerManager_current_tick :: "(TimerManager, u64) prog" where
  "TimerManager_current_tick = bnd get (\<lambda>self. ret (tick_count self))"

definition with_timer :: "(TimerManager, 'a) prog \<Rightarrow> (timer, 'a) prog" where
  "with_timer m = bnd get (\<lambda>s.
     if timer_locked s then diverge
     else
       bnd (update (\<lambda>s. s\<lparr>timer_locked := True\<rparr>)) (\<lambda>_.
       bnd (zoom TIMER_MANAGER (\<lambda>t s. s\<lparr>TIMER_MANAGER := t\<rparr>) m) (\<lambda>r.
       bnd (update (\<lambda>s. s\<lparr>timer_locked := False\<rparr>)) (\<lambda>_. ret r))))"

definition local_apic_timer_on_interrupt :: "(timer, unit) prog" where
  "local_apic_timer_on_interrupt = with_timer tick"

definition current_tick :: "(timer, u64) prog" where
  "current_tick = with_timer TimerManager_current_tick"

section \<open>The local APIC timer\<close>

definition init_local_apic_timer ::
    "'d cpu_hw \<Rightarrow> ('d, u32) cpu \<Rightarrow> (u32 \<Rightarrow> u32 \<Rightarrow> ('d, unit) cpu) \<Rightarrow> ('d, unit) cpu" where
  "init_local_apic_timer hw get_local_apic set_lvt_timer_register =
     bnd get_local_apic (\<lambda>a.
     bnd (write_divide_config_register_for_timer hw a 0xb) (\<lambda>_.
     bnd get_local_apic (\<lambda>a.
     bnd (set_lvt_timer_register a (push_bit 16 2 OR ucast (InterruptVector_as_u8 LocalAPICTimer))) (\<lambda>_.
     bnd get_local_apic (\<lambda>a.
     write_initial_count_register_for_timer hw a 0x1000000)))))"

definition start_local_apic_timer :: "'d cpu_hw \<Rightarrow> ('d, u32) cpu \<Rightarrow> ('d, unit) cpu" where
  "start_local_apic_timer hw get_local_apic =
     bnd get_local_apic (\<lambda>a. write_initial_count_register_for_timer hw a COUNT_MAX)"

definition u32_sub :: "u32 \<Rightarrow> u32 \<Rightarrow> ('s, u32) prog" where
  "u32_sub a b = (if b \<le> a then ret (a - b) else panic)"

definition local_apic_timer_elapsed :: "('d, u32) cpu \<Rightarrow> (u32 \<Rightarrow> ('d, u32) cpu) \<Rightarrow> ('d, u32) cpu" where
  "local_apic_timer_elapsed get_local_apic get_current_count_register_for_timer =
     bnd get_local_apic (\<lambda>a.
     bnd (get_current_count_register_for_timer a) (\<lambda>n.
     u32_sub COUNT_MAX n))"

definition stop_local_apic_timer :: "'d cpu_hw \<Rightarrow> ('d, u32) cpu \<Rightarrow> ('d, unit) cpu" where
  "stop_local_apic_timer hw get_local_apic =
     bnd get_local_apic (\<lambda>a. write_initial_count_register_for_timer hw a 0)"

section \<open>Counting\<close>

lemma on_interrupt_counts:
  assumes "\<not> timer_locked s" and "unat (tick_count (TIMER_MANAGER s)) + 1 < 2 ^ 64"
  shows "local_apic_timer_on_interrupt s =
    (Ret (), s\<lparr>TIMER_MANAGER := \<lparr>tick_count = tick_count (TIMER_MANAGER s) + 1\<rparr>\<rparr>)"
  using assms
  by (cases s) (simp add: local_apic_timer_on_interrupt_def with_timer_def tick_def u64_add_def zoom_def bnd_def get_def
      update_def ret_def)

definition timer_at :: "nat \<Rightarrow> timer" where
  "timer_at n = \<lparr>TIMER_MANAGER = \<lparr>tick_count = of_nat n\<rparr>, timer_locked = False\<rparr>"

lemma unat_of_nat_u64: "n < 2 ^ 64 \<Longrightarrow> unat (of_nat n :: u64) = n"
  unfolding unat_of_nat by simp

lemma ticks:
  "n < 2 ^ 64 \<Longrightarrow> for_each (replicate n ()) (\<lambda>_. local_apic_timer_on_interrupt) (timer_at 0) = (Ret (), timer_at n)"
proof (induction n)
  case 0
  show ?case by (simp add: ret_def)
next
  case (Suc n)
  then have "unat (tick_count (TIMER_MANAGER (timer_at n))) + 1 < 2 ^ 64"
    using unat_of_nat_u64 [of n] by (simp add: timer_at_def)
  from on_interrupt_counts [OF _ this]
  have last: "local_apic_timer_on_interrupt (timer_at n) = (Ret (), timer_at (Suc n))"
    by (simp add: timer_at_def add.commute)
  have "replicate (Suc n) () = replicate n () @ [()]" by (simp add: replicate_append_same)
  with Suc last show ?case by (simp add: for_each_append bnd_def ret_def del: replicate.simps)
qed

text \<open>
  C34. The counter of \<open>timer.rs\<close>: after \<open>n\<close> timer interrupts, \<open>n\<close> below \<open>2^64\<close>, \<open>current_tick\<close> is \<open>n\<close> and the lock is free;
  the next interrupt after \<open>2^64 - 1\<close> of them panics with the lock held, and from then on \<open>current_tick\<close> and the
  interrupt spin for ever.
\<close>

theorem timer_counts_interrupts:
  "(n < 2 ^ 64 \<longrightarrow> (\<exists>t. for_each (replicate n ()) (\<lambda>_. local_apic_timer_on_interrupt)
       \<lparr>TIMER_MANAGER = TimerManager_new, timer_locked = False\<rparr> = (Ret (), t) \<and> current_tick t = (Ret (of_nat n), t)))
   \<and> (\<exists>t. local_apic_timer_on_interrupt (timer_at (2 ^ 64 - 1)) = (Panic, t) \<and> current_tick t = (Diverge, t)
       \<and> local_apic_timer_on_interrupt t = (Diverge, t))"
proof (intro conjI impI)
  have new: "\<lparr>TIMER_MANAGER = TimerManager_new, timer_locked = False\<rparr> = timer_at 0"
    by (simp add: timer_at_def TimerManager_new_def)
  show "\<exists>t. for_each (replicate n ()) (\<lambda>_. local_apic_timer_on_interrupt)
      \<lparr>TIMER_MANAGER = TimerManager_new, timer_locked = False\<rparr> = (Ret (), t) \<and> current_tick t = (Ret (of_nat n), t)"
    if "n < 2 ^ 64"
    unfolding new using ticks [OF that]
    by (simp add: current_tick_def TimerManager_current_tick_def with_timer_def timer_at_def zoom_def bnd_def get_def
        update_def ret_def)
  have "unat (of_nat (2 ^ 64 - 1) :: u64) = 2 ^ 64 - 1" by (rule unat_of_nat_u64) simp
  then have full: "\<not> unat (tick_count (TIMER_MANAGER (timer_at (2 ^ 64 - 1)))) + unat (1 :: u64) < 2 ^ 64"
    unfolding timer_at_def by simp
  have "local_apic_timer_on_interrupt (timer_at (2 ^ 64 - 1)) = (Panic, timer_at (2 ^ 64 - 1)\<lparr>timer_locked := True\<rparr>)"
    using full by (simp add: local_apic_timer_on_interrupt_def with_timer_def tick_def u64_add_def zoom_def bnd_def
        get_def update_def panic_def) (simp add: timer_at_def)
  then show "\<exists>t. local_apic_timer_on_interrupt (timer_at (2 ^ 64 - 1)) = (Panic, t) \<and> current_tick t = (Diverge, t)
      \<and> local_apic_timer_on_interrupt t = (Diverge, t)"
    by (intro exI [of _ "timer_at (2 ^ 64 - 1)\<lparr>timer_locked := True\<rparr>"])
      (simp add: local_apic_timer_on_interrupt_def current_tick_def with_timer_def bnd_def get_def diverge_def)
qed

theorem timer_counts_interrupts_witness:
  "\<exists>t. for_each (replicate 1000 ()) (\<lambda>_. local_apic_timer_on_interrupt)
    \<lparr>TIMER_MANAGER = TimerManager_new, timer_locked = False\<rparr> = (Ret (), t) \<and> current_tick t = (Ret 1000, t)"
  using timer_counts_interrupts [of 1000] by simp

section \<open>Registers\<close>

text \<open>
  With the accesses of \<open>arch.rs\<close> for the missing functions: the timer is set up with a divisor of one, periodic and
  unmasked at its vector, and \<open>elapsed\<close> never underflows, whatever the counter shows.
\<close>

lemma init_local_apic_timer_writes:
  assumes "LOCAL_APIC s = Some a" "lapic_aligned a"
  shows "\<exists>t. init_local_apic_timer hw LOCAL_APIC_wait (write_lvt_timer_register hw) s = (Ret (), t) \<and>
    events t = [MmioWrite (ucast a + 0x380) 0x1000000, MmioWrite (ucast a + 0x320) 0x20041, MmioWrite (ucast a + 0x3e0) 0xb]
      @ events s"
  using assms lapic_mmio_ok [of "0x380 div 4" a] lapic_mmio_ok [of "0x320 div 4" a] lapic_mmio_ok [of "0x3e0 div 4" a]
  by (simp add: init_local_apic_timer_def LOCAL_APIC_wait_def write_divide_config_register_for_timer_def
      write_lvt_timer_register_def write_initial_count_register_for_timer_def LocalApic_write_def write_volatile_def
      bnd_def get_def ret_def)

lemma local_apic_timer_elapsed_result:
  assumes "LOCAL_APIC s = Some a" "lapic_aligned a"
  shows "\<exists>n t. local_apic_timer_elapsed LOCAL_APIC_wait (read_current_count_register_for_timer hw) s =
    (Ret (NOT n), t) \<and> events t = MmioRead (ucast a + 0x390) n # events s"
proof -
  have max: "COUNT_MAX = - 1" by (simp add: COUNT_MAX_def)
  have "n \<le> COUNT_MAX" "COUNT_MAX - n = NOT n" for n
    unfolding max by (simp_all add: word_order.extremum not_eq_complement)
  then show ?thesis
    using assms lapic_mmio_ok [of "0x390 div 4" a]
    by (simp add: local_apic_timer_elapsed_def LOCAL_APIC_wait_def read_current_count_register_for_timer_def u32_sub_def
        LocalApic_read_def read_volatile_def bnd_def get_def ret_def split: prod.split)
qed

end
