(* ===== verification/Elf_Loader.thy ===== *)
theory Elf_Loader
  imports Port_Io
begin

text \<open>
  The kernel loader of the bootloader: \<open>bootloader/src/kernel.rs\<close> from \<open>load_elf\<close> on, with \<open>Kernel\<close> of
  \<open>common/src/boot.rs\<close>. The ELF parser (the \<open>goblin\<close> crate) and the firmware's page allocator are parameters; the
  state is the memory, as bytes. \<open>slice::from_raw_parts_mut\<close> panics in a debug build on a null pointer and on a
  length beyond \<open>isize::MAX\<close>. The bytes of the file are a list beside memory: that no segment overlaps the buffer
  they were read into, which Rust leaves undefined, is an assumption (the code does not reserve the pages it copies to).
\<close>

section \<open>Data\<close>

definition UEFI_PAGE_SIZE_boot :: usize where "UEFI_PAGE_SIZE_boot = 0x1000"

definition PT_LOAD :: u32 where "PT_LOAD = 1"

text \<open>
  An \<open>anyhow::Error\<close>: made by \<open>Error::msg\<close> from the error of a library call, from a text or from another
  \<open>anyhow::Error\<close>, or by adding a context to one.
\<close>

datatype 'e anyhow = Msg 'e | MsgStr string | MsgErr "'e anyhow" | Context string "'e anyhow"

text \<open>The fields of \<open>goblin\<close>'s headers that the loader reads.\<close>

record ProgramHeader =
  p_type :: u32
  p_offset :: u64
  p_vaddr :: u64
  p_paddr :: u64
  p_filesz :: u64
  p_memsz :: u64

record Elf =
  program_headers :: "ProgramHeader list"
  elf_entry :: u64

record Kernel =
  kernel_base_addr :: u64
  kernel_entry_point_addr :: u64

definition Kernel_new :: "u64 \<Rightarrow> u64 \<Rightarrow> Kernel" where
  "Kernel_new base_addr entry_point_addr = \<lparr>kernel_base_addr = base_addr, kernel_entry_point_addr = entry_point_addr\<rparr>"

definition Kernel_base_addr :: "Kernel \<Rightarrow> u64" where "Kernel_base_addr self = kernel_base_addr self"

definition Kernel_entry_point_addr :: "Kernel \<Rightarrow> u64" where "Kernel_entry_point_addr self = kernel_entry_point_addr self"

declare Kernel_new_def [simp]

type_synonym mem = "u64 \<Rightarrow> u8"

section \<open>Loading\<close>

text \<open>One iteration of the loop that computes the destination range.\<close>

definition dest_step :: "u64 \<times> u64 \<Rightarrow> ProgramHeader \<Rightarrow> ('s, u64 \<times> u64) prog" where
  "dest_step = (\<lambda>(dest_start, dest_end) program_header.
     if p_type program_header \<noteq> PT_LOAD then ret (dest_start, dest_end)
     else
       bnd (u64_add (p_vaddr program_header) (p_memsz program_header)) (\<lambda>seg_end.
       ret (min dest_start (p_paddr program_header), max dest_end seg_end)))"

fun dest_loop :: "u64 \<times> u64 \<Rightarrow> ProgramHeader list \<Rightarrow> ('s, u64 \<times> u64) prog" where
  "dest_loop acc [] = ret acc"
| "dest_loop acc (ph # phs) = bnd (dest_step acc ph) (\<lambda>acc. dest_loop acc phs)"

definition u64_sub :: "u64 \<Rightarrow> u64 \<Rightarrow> ('s, u64) prog" where
  "u64_sub a b = (if b \<le> a then ret (a - b) else panic)"

definition dest_range :: "Elf \<Rightarrow> ('s, usize \<times> u64) prog" where
  "dest_range elf =
     bnd (dest_loop (0, 0) (program_headers elf)) (\<lambda>(dest_start, dest_end).
     bnd (u64_sub dest_end dest_start) (\<lambda>range. ret (unat range, dest_start)))"

text \<open>Writing bytes to consecutive addresses: \<open>copy_from_slice\<close> and \<open>fill\<close> on a part of \<open>dest\<close>.\<close>

fun write_bytes :: "u64 \<Rightarrow> u8 list \<Rightarrow> mem \<Rightarrow> mem" where
  "write_bytes a [] m = m"
| "write_bytes a (b # bs) m = write_bytes (a + 1) bs (m(a := b))"

definition copy_segment :: "u8 list \<Rightarrow> ProgramHeader \<Rightarrow> (mem, 'e anyhow + unit) prog" where
  "copy_segment src program_header =
     (let offset = unat (p_offset program_header); file_size = unat (p_filesz program_header);
          mem_size = unat (p_memsz program_header); virtual_addr = p_vaddr program_header in
      if virtual_addr = 0 \<or> mem_size \<ge> 2 ^ 63 then panic
      else if file_size > mem_size then panic
      else
        bnd (usize_add offset file_size) (\<lambda>src_end.
        if src_end > length src then panic
        else
          bnd (update (write_bytes virtual_addr (take file_size (drop offset src)))) (\<lambda>_.
          bnd (update (write_bytes (virtual_addr + of_nat file_size) (replicate (mem_size - file_size) 0))) (\<lambda>_.
          ret (Ok ())))))"

definition copy_load_segment :: "u8 list \<Rightarrow> Elf \<Rightarrow> (mem, 'e anyhow + unit) prog" where
  "copy_load_segment src elf =
     bndE (for_eachE (program_headers elf) (\<lambda>program_header.
       if p_type program_header \<noteq> PT_LOAD then ret (Ok ())
       else map_err (\<lambda>e. Context ''Failed to copy the segment.'' (MsgErr e)) (copy_segment src program_header))) (\<lambda>_. ret (Ok ()))"

text \<open>
  \<open>parse\<close> is \<open>goblin\<close>'s parser and \<open>allocate_pages\<close> the firmware's allocator, as a function of the number of pages. The
  address it returns and the result of \<open>copy_load_segment\<close> are dropped, as in the source.
\<close>

definition load_elf ::
    "(u8 list \<Rightarrow> 'e + Elf) \<Rightarrow> (usize \<Rightarrow> 'e + u64) \<Rightarrow> u8 list \<Rightarrow> (mem, 'e anyhow + Kernel) prog" where
  "load_elf parse allocate_pages src =
     bndE (map_err (\<lambda>e. Context ''Failed to parse the elf.'' (Msg e)) (ret (parse src))) (\<lambda>elf.
     bnd (dest_range elf) (\<lambda>(range, base_addr).
     bnd (usize_add range UEFI_PAGE_SIZE_boot) (\<lambda>r.
     bnd (usize_sub r 1) (\<lambda>r.
     let page_size = r div UEFI_PAGE_SIZE_boot in
     bndE (map_err (\<lambda>e. Context ''Failed to allocate pages for the kernel.'' (Msg e)) (ret (allocate_pages page_size))) (\<lambda>_.
     bnd (copy_load_segment src elf) (\<lambda>_ :: 'e anyhow + unit.
     let entry_point_addr = elf_entry elf in
     ret (Ok (Kernel_new base_addr entry_point_addr))))))))"

section \<open>The memory image\<close>

lemma write_bytes_nth:
  assumes "length bs < 2 ^ 64"
  shows "write_bytes a bs m x = (if unat (x - a) < length bs then bs ! unat (x - a) else m x)"
  using assms
proof (induction bs arbitrary: a m)
  case (Cons b bs)
  show ?case
  proof (cases "x = a")
    case True
    then have "unat (x - (a + 1)) = 2 ^ 64 - 1" by (simp add: unsigned_minus_1_eq_mask mask_eq_exp_minus_1)
    with Cons True show ?thesis by simp
  next
    case False
    then have "x - a \<noteq> 0" by simp
    then have "unat (x - a) = Suc (unat (x - a - 1))" by (simp add: unat_minus_one unat_gt_0)
    then have "unat (x - a) = Suc (unat (x - (a + 1)))" by (simp add: algebra_simps)
    with Cons False show ?thesis by simp
  qed
qed simp

text \<open>
  The loadable segments, when one can be copied, and what memory holds afterwards: the file's bytes at the
  segment's virtual address, zeros up to its size in memory, everything else as before.
\<close>

definition loads :: "Elf \<Rightarrow> ProgramHeader list" where
  "loads elf = filter (\<lambda>ph. p_type ph = PT_LOAD) (program_headers elf)"

definition segment_ok :: "u8 list \<Rightarrow> ProgramHeader \<Rightarrow> bool" where
  "segment_ok src ph \<longleftrightarrow> p_vaddr ph \<noteq> 0 \<and> unat (p_memsz ph) < 2 ^ 63 \<and> unat (p_filesz ph) \<le> unat (p_memsz ph) \<and>
     unat (p_offset ph) + unat (p_filesz ph) \<le> length src"

definition segment_image :: "u8 list \<Rightarrow> ProgramHeader \<Rightarrow> mem \<Rightarrow> mem" where
  "segment_image src ph m x = (let k = unat (x - p_vaddr ph) in
     if k < unat (p_filesz ph) then src ! (unat (p_offset ph) + k)
     else if k < unat (p_memsz ph) then 0
     else m x)"

definition load_image :: "u8 list \<Rightarrow> Elf \<Rightarrow> mem \<Rightarrow> mem" where
  "load_image src elf = fold (segment_image src) (loads elf)"

definition image_end :: "Elf \<Rightarrow> nat" where
  "image_end elf = fold (\<lambda>ph e. max e (unat (p_vaddr ph) + unat (p_memsz ph))) (loads elf) 0"

definition image_pages :: "Elf \<Rightarrow> nat" where
  "image_pages elf = (image_end elf + 0xfff) div 0x1000"

lemma unat_sub_split: "unat ((x :: u64) - a - of_nat n) = unat (x - a) - n" if "n \<le> unat (x - a)"
proof -
  have "unat (x - a) < 2 ^ LENGTH(64)" by (rule unsigned_less)
  with that have n: "unat (of_nat n :: u64) = n"
    unfolding unat_of_nat by (intro mod_less) linarith
  then have "(of_nat n :: u64) \<le> x - a" using that by (simp add: word_le_nat_alt)
  then show ?thesis by (simp add: unat_sub n)
qed

lemma copy_segment_result:
  assumes "length src < 2 ^ 64"
  shows "copy_segment src ph m =
    (if segment_ok src ph then (Ret (Ok ()), segment_image src ph m) else (Panic, m))"
proof (cases "segment_ok src ph")
  case True
  let ?f = "unat (p_filesz ph)" and ?n = "unat (p_memsz ph)" and ?o = "unat (p_offset ph)"
  have ok: "p_vaddr ph \<noteq> 0" "?n < 2 ^ 63" "?f \<le> ?n" "?o + ?f \<le> length src"
    using True by (simp_all add: segment_ok_def)
  let ?m = "write_bytes (p_vaddr ph) (take ?f (drop ?o src)) m"
  have len: "length (take ?f (drop ?o src)) = ?f" using ok(4) by simp
  have "write_bytes (p_vaddr ph + of_nat ?f) (replicate (?n - ?f) 0) ?m = segment_image src ph m"
  proof
    fix x
    let ?k = "unat (x - p_vaddr ph)"
    have first: "?m x = (if ?k < ?f then src ! (?o + ?k) else m x)"
      using write_bytes_nth [of "take ?f (drop ?o src)" "p_vaddr ph" m x] len ok by simp
    have zeros: "unat (x - (p_vaddr ph + of_nat ?f)) < ?n - ?f \<longleftrightarrow> ?f \<le> ?k \<and> ?k < ?n"
    proof (cases "?f \<le> ?k")
      case True
      then show ?thesis using unat_sub_split [OF True] by (simp add: diff_diff_eq less_diff_iff) linarith
    next
      case False
      have "unat (x - (p_vaddr ph + of_nat ?f)) = 2 ^ 64 + ?k - ?f"
        using False unat_sub_if_size [of "x - p_vaddr ph" "p_filesz ph"]
        by (simp add: word_le_nat_alt word_size diff_diff_eq)
      moreover have "2 ^ 64 + ?k - ?f \<ge> ?n - ?f" using ok(2) by (intro diff_le_mono) simp
      ultimately show ?thesis using False by linarith
    qed
    show "write_bytes (p_vaddr ph + of_nat ?f) (replicate (?n - ?f) 0) ?m x = segment_image src ph m x"
      using write_bytes_nth [of "replicate (?n - ?f) 0" "p_vaddr ph + of_nat ?f" ?m x] first zeros ok(2)
      by (auto simp: segment_image_def Let_def)
  qed
  with True ok assms show ?thesis
    by (simp add: copy_segment_def Let_def bnd_def usize_add_def ret_def update_def)
next
  case False
  with assms show ?thesis
    by (auto simp: copy_segment_def segment_ok_def Let_def bnd_def usize_add_def panic_def ret_def)
qed

lemma copy_segments_result:
  assumes "length src < 2 ^ 64"
  shows "list_all (segment_ok src) phs \<Longrightarrow>
      for_eachE phs (copy_segment src) m = (Ret (Ok ()), fold (segment_image src) phs m)"
    and "\<not> list_all (segment_ok src) phs \<Longrightarrow> fst (for_eachE phs (copy_segment src) m) = Panic"
  using assms
  by (induction phs arbitrary: m)
    (auto simp: ret_def bndE_def bnd_def copy_segment_result)

lemma copy_segment_no_error: "map_err g (copy_segment src ph) = copy_segment src ph"
  by (rule ext) (auto simp: map_err_def copy_segment_def Let_def bnd_def usize_add_def update_def ret_def panic_def)

lemma copy_load_segment_eq: "copy_load_segment src elf = bndE (for_eachE (loads elf) (copy_segment src)) (\<lambda>_. ret (Ok ()))"
proof -
  have "(\<lambda>ph. if p_type ph \<noteq> PT_LOAD then ret (Ok ()) else m ph) = (\<lambda>ph. if p_type ph = PT_LOAD then m ph else ret (Ok ()))"
    for m :: "ProgramHeader \<Rightarrow> (mem, 'a anyhow + unit) prog"
    by auto
  then show ?thesis unfolding copy_load_segment_def loads_def copy_segment_no_error by (simp only: for_eachE_filter)
qed

lemma dest_loop_result:
  assumes "\<forall>ph \<in> set (filter (\<lambda>ph. p_type ph = PT_LOAD) phs). unat (p_vaddr ph) + unat (p_memsz ph) < 2 ^ 64"
  shows "\<exists>e'. dest_loop (0, e) phs s = (Ret (0, e'), s) \<and>
    unat e' = fold (\<lambda>ph e. max e (unat (p_vaddr ph) + unat (p_memsz ph))) (filter (\<lambda>ph. p_type ph = PT_LOAD) phs) (unat e)"
  using assms
proof (induction phs arbitrary: e)
  case (Cons ph phs)
  show ?case
  proof (cases "p_type ph = PT_LOAD")
    case True
    let ?e = "p_vaddr ph + p_memsz ph"
    have "unat (p_vaddr ph) + unat (p_memsz ph) < 2 ^ 64" using Cons.prems True by simp
    moreover from this have sum: "unat ?e = unat (p_vaddr ph) + unat (p_memsz ph)" by (subst unat_plus_if') simp
    moreover have "unat (max e ?e) = max (unat e) (unat ?e)"
      by (simp add: max_def word_le_nat_alt)
    ultimately show ?thesis
      using Cons.IH [of "max e ?e"] Cons.prems True
      by (simp add: dest_step_def bnd_def u64_add_def ret_def)
  next
    case False
    then show ?thesis using Cons by (simp add: dest_step_def bnd_def ret_def)
  qed
qed (simp add: ret_def)

lemma load_elf_run:
  fixes allocate_pages :: "usize \<Rightarrow> 'e + u64"
  assumes "parse src = Ok elf" "\<forall>ph \<in> set (loads elf). unat (p_vaddr ph) + unat (p_memsz ph) < 2 ^ 64"
    and "image_end elf + 0x1000 < 2 ^ 64"
  shows "load_elf parse allocate_pages src m = (case allocate_pages (image_pages elf) of
      Inl e \<Rightarrow> (Ret (Err (Context ''Failed to allocate pages for the kernel.'' (Msg e))), m)
    | Inr a \<Rightarrow> bnd (copy_load_segment src elf) (\<lambda>_ :: 'e anyhow + unit.
        ret (Ok \<lparr>kernel_base_addr = 0, kernel_entry_point_addr = elf_entry elf\<rparr>)) m)"
proof -
  obtain e where e: "dest_loop (0, 0) (program_headers elf) m = (Ret (0, e), m)" "unat e = image_end elf"
    using dest_loop_result [of "program_headers elf" 0 m] assms(2) by (auto simp: loads_def image_end_def)
  have "image_pages elf = (image_end elf + UEFI_PAGE_SIZE_boot - 1) div UEFI_PAGE_SIZE_boot"
    by (simp add: image_pages_def UEFI_PAGE_SIZE_boot_def)
  with e assms show ?thesis
    by (simp add: load_elf_def dest_range_def map_err_def bndE_def bnd_def ret_def u64_sub_def usize_add_def usize_sub_def
        UEFI_PAGE_SIZE_boot_def split: sum.split)
qed

lemma load_elf_loaded:
  assumes "parse src = Ok elf" and "length src < 2 ^ 64" and "list_all (segment_ok src) (loads elf)"
    and "\<forall>ph \<in> set (loads elf). unat (p_vaddr ph) + unat (p_memsz ph) < 2 ^ 64"
    and "image_end elf + 0x1000 < 2 ^ 64" and "allocate_pages (image_pages elf) = Ok a"
  shows "load_elf parse allocate_pages src m =
    (Ret (Ok \<lparr>kernel_base_addr = 0, kernel_entry_point_addr = elf_entry elf\<rparr>), load_image src elf m)"
  using load_elf_run [where parse = parse and allocate_pages = allocate_pages and m = m, OF assms(1,4,5)] assms(6)
  by (simp add: copy_segments_result(1) [OF assms(2,3)] copy_load_segment_eq bndE_def bnd_def ret_def load_image_def)

text \<open>
  C10. \<open>load_elf\<close> puts the kernel into memory: when the parser accepts the file, the loadable segments are well formed and
  end below \<open>2^64\<close>, and the firmware grants \<open>image_pages\<close> pages, it returns the entry point of the file, and memory holds,
  segment after segment, the file's bytes at the virtual address followed by zeros, and is unchanged elsewhere. The
  base address it returns is always 0, because the minimum is taken starting from 0.
\<close>

theorem load_elf_loads_image:
  assumes "parse src = Ok elf" and "length src < 2 ^ 64" and "list_all (segment_ok src) (loads elf)"
    and "\<forall>ph \<in> set (loads elf). unat (p_vaddr ph) + unat (p_memsz ph) < 2 ^ 64"
    and "image_end elf + 0x1000 < 2 ^ 64" and "allocate_pages (image_pages elf) = Ok a"
  shows "load_elf parse allocate_pages src m =
    (Ret (Ok \<lparr>kernel_base_addr = 0, kernel_entry_point_addr = elf_entry elf\<rparr>), load_image src elf m)"
  using assms by (rule load_elf_loaded)

text \<open>
  C31. The error paths of \<open>load_elf\<close>: an error of the parser or of the allocator is returned, with memory unchanged; a
  loadable segment that is malformed (null address, more bytes in the file than in memory, bytes beyond the end of the
  file) panics, although the function returns a \<open>Result\<close>.
\<close>

theorem load_elf_errors:
  "(parse src = Err e \<longrightarrow>
     load_elf parse allocate_pages src m = (Ret (Err (Context ''Failed to parse the elf.'' (Msg e))), m)) \<and>
   (parse src = Ok elf \<and> length src < 2 ^ 64 \<and>
      (\<forall>ph \<in> set (loads elf). unat (p_vaddr ph) + unat (p_memsz ph) < 2 ^ 64) \<and> image_end elf + 0x1000 < 2 ^ 64 \<longrightarrow>
    (allocate_pages (image_pages elf) = Err e \<longrightarrow>
      load_elf parse allocate_pages src m = (Ret (Err (Context ''Failed to allocate pages for the kernel.'' (Msg e))), m)) \<and>
    (allocate_pages (image_pages elf) = Ok a \<and> \<not> list_all (segment_ok src) (loads elf) \<longrightarrow>
      fst (load_elf parse allocate_pages src m) = Panic))"
proof (intro conjI impI; (elim conjE)?)
  show "load_elf parse allocate_pages src m = (Ret (Err (Context ''Failed to parse the elf.'' (Msg e))), m)"
    if "parse src = Err e"
    using that by (simp add: load_elf_def map_err_def bndE_def bnd_def ret_def)
  assume run: "parse src = Ok elf" "\<forall>ph \<in> set (loads elf). unat (p_vaddr ph) + unat (p_memsz ph) < 2 ^ 64"
    "image_end elf + 0x1000 < 2 ^ 64" and src: "length src < 2 ^ 64"
  note run = load_elf_run [where parse = parse and allocate_pages = allocate_pages and m = m, OF run]
  show "load_elf parse allocate_pages src m = (Ret (Err (Context ''Failed to allocate pages for the kernel.'' (Msg e))), m)"
    if "allocate_pages (image_pages elf) = Err e"
    using run that by simp
  show "fst (load_elf parse allocate_pages src m) = Panic"
    if "allocate_pages (image_pages elf) = Ok a" "\<not> list_all (segment_ok src) (loads elf)"
  proof -
    have "fst (for_eachE (loads elf) (copy_segment src) m :: ('a anyhow + unit) outcome \<times> mem) = Panic"
      by (rule copy_segments_result(2) [OF src that(2)])
    then show ?thesis
      using run that(1)
      by (cases "for_eachE (loads elf) (copy_segment src) m :: ('a anyhow + unit) outcome \<times> mem")
        (simp add: copy_load_segment_eq bndE_def bnd_def)
  qed
qed

text \<open>
  The pages the firmware grants are not where the kernel goes: neither the result of \<open>load_elf\<close> nor the memory it
  leaves depends on the address the allocator returns.
\<close>

theorem load_elf_ignores_allocation:
  assumes "\<And>n. \<exists>a. alloc n = Ok a" and "\<And>n. \<exists>a. alloc' n = Ok a"
  shows "load_elf parse alloc src m = load_elf parse alloc' src m"
proof -
  have "bndE (map_err g (ret (alloc n))) (\<lambda>_. f) = f" "bndE (map_err g (ret (alloc' n))) (\<lambda>_. f) = f"
    for n g and f :: "(mem, 'a anyhow + Kernel) prog"
    using assms(1) [of n] assms(2) [of n] by (auto simp: map_err_def)
  then show ?thesis by (simp add: load_elf_def Let_def)
qed

section \<open>A small kernel\<close>

text \<open>A file of four bytes: two of them loaded at \<open>0x100000\<close>, with two zero bytes behind them.\<close>

definition small_elf :: Elf where
  "small_elf = \<lparr>program_headers = [
      \<lparr>p_type = 6, p_offset = 0, p_vaddr = 0, p_paddr = 0, p_filesz = 0, p_memsz = 0\<rparr>,
      \<lparr>p_type = 1, p_offset = 1, p_vaddr = 0x100000, p_paddr = 0x100000, p_filesz = 2, p_memsz = 4\<rparr>],
    elf_entry = 0x100000\<rparr>"

lemma small_elf_facts:
  "loads small_elf = [\<lparr>p_type = 1, p_offset = 1, p_vaddr = 0x100000, p_paddr = 0x100000, p_filesz = 2, p_memsz = 4\<rparr>]"
  "image_end small_elf = 0x100004" "image_pages small_elf = 0x101"
  by (simp_all add: loads_def small_elf_def PT_LOAD_def image_end_def image_pages_def)

theorem load_elf_loads_image_witness:
  "load_elf (\<lambda>_. Ok small_elf) (\<lambda>_. Ok 0x200000 :: unit + u64) [0x7f, 0xfa, 0xf4, 0] (\<lambda>_. 0xcc) =
    (Ret (Ok \<lparr>kernel_base_addr = 0, kernel_entry_point_addr = 0x100000\<rparr>),
     load_image [0x7f, 0xfa, 0xf4, 0] small_elf (\<lambda>_. 0xcc))
   \<and> map (load_image [0x7f, 0xfa, 0xf4, 0] small_elf (\<lambda>_. 0xcc)) [0xfffff, 0x100000, 0x100001, 0x100002, 0x100003, 0x100004]
     = [0xcc, 0xfa, 0xf4, 0, 0, 0xcc]"
proof -
  have "elf_entry small_elf = 0x100000" by (simp add: small_elf_def)
  moreover have "map (load_image [0x7f, 0xfa, 0xf4, 0] small_elf (\<lambda>_. 0xcc))
      [0xfffff, 0x100000, 0x100001, 0x100002, 0x100003, 0x100004] = [0xcc, 0xfa, 0xf4, 0, 0, 0xcc]"
    by (simp add: load_image_def small_elf_facts segment_image_def unsigned_minus_1_eq_mask mask_eq_exp_minus_1)
  ultimately show ?thesis
    using load_elf_loads_image [of "\<lambda>_. Ok small_elf" "[0x7f, 0xfa, 0xf4, 0]" small_elf "\<lambda>_. Ok 0x200000 :: unit + u64"
        "0x200000" "\<lambda>_. 0xcc"]
    by (simp add: small_elf_facts segment_ok_def)
qed

theorem load_elf_errors_witness:
  "fst (load_elf (\<lambda>_. Ok small_elf) (\<lambda>_. Ok 0x200000 :: unit + u64) [0x7f] (\<lambda>_. 0xcc)) = Panic"
  using load_elf_errors [of "\<lambda>_. Ok small_elf" "[0x7f]" "()" "\<lambda>_. Ok 0x200000" "\<lambda>_. 0xcc" small_elf "0x200000"]
  by (simp add: small_elf_facts segment_ok_def)

theorem load_elf_ignores_allocation_witness:
  "load_elf (\<lambda>_. Ok small_elf) (\<lambda>_. Ok 0x200000 :: unit + u64) [0x7f, 0xfa, 0xf4, 0] (\<lambda>_. 0xcc) =
   load_elf (\<lambda>_. Ok small_elf) (\<lambda>_. Ok 0x300000) [0x7f, 0xfa, 0xf4, 0] (\<lambda>_. 0xcc)"
  by (rule load_elf_ignores_allocation) auto

end
