(* ===== verification/Boot_Main.thy ===== *)
theory Boot_Main
  imports Elf_Loader Graphic Phys_Mem
begin

text \<open>
  The bootloader: \<open>bootloader/src/main.rs\<close> and \<open>load_kernel\<close> of \<open>bootloader/src/kernel.rs\<close>, with \<open>BootInfo\<close> and
  \<open>Kernel::run\<close> of \<open>common/src/boot.rs\<close> and \<open>PhysPtr\<close> of \<open>common/src/address.rs\<close>. The firmware (the \<open>uefi\<close> crate) is the parameter \<open>uefi\<close>, a record of what its calls
  answer; each call is made once. \<open>heap_grants live n\<close> says whether the allocator has \<open>n\<close> bytes for a vector while vectors of
  \<open>live\<close> bytes are held. The state is the memory and the errors that \<open>print_error\<close> has logged. The jump to the
  kernel is the value \<open>main_inner\<close> returns: the address it jumps to and the \<open>BootInfo\<close> it hands over. The messages of
  \<open>info!\<close> and \<open>debug!\<close> are not modelled.
\<close>

section \<open>The firmware\<close>

datatype FileType = Regular | Dir

record ('e, 'h, 'g, 't) uefi =
  helpers_init :: "'e + unit"
  get_handle_for_graphics :: "'e + 'h"
  open_protocol_exclusive :: "'h \<Rightarrow> 'e + gop"
  get_image_file_system :: "'e + unit"
  open_volume :: "'e + unit"
  open_file :: "string \<Rightarrow> 'e + unit"
  into_type :: "'e + FileType"
  get_info :: "usize \<Rightarrow> 'e + u64"
  read_file :: "usize \<Rightarrow> 'e + u8 list"
  allocate_pages :: "usize \<Rightarrow> 'e + u64"
  config_table :: "('g \<times> u64) list"
  ACPI2_GUID :: 'g
  exit_boot_services :: "'t MemoryDescriptor list"
  num_bytes :: "string \<Rightarrow> usize"
  size_of_Time :: usize
  size_of_FileAttribute :: usize
  heap_grants :: "usize \<Rightarrow> usize \<Rightarrow> bool"

text \<open>\<open>PhysPtr\<close> of \<open>common/src/address.rs\<close>: a physical address; pointers are addresses here.\<close>

record PhysPtr =
  phys_ptr :: u64

definition PhysPtr_null :: PhysPtr where "PhysPtr_null = \<lparr>phys_ptr = 0\<rparr>"

definition PhysPtr_from_ptr :: "u64 \<Rightarrow> PhysPtr" where "PhysPtr_from_ptr ptr = \<lparr>phys_ptr = ptr\<rparr>"

text \<open>A reference is an address too; \<open>ref_\<close> reads the object there, as \<open>read\<close> finds it.\<close>

definition PhysPtr_from_ref :: "u64 \<Rightarrow> PhysPtr" where "PhysPtr_from_ref ref = \<lparr>phys_ptr = ref\<rparr>"

definition PhysPtr_is_null :: "PhysPtr \<Rightarrow> bool" where "PhysPtr_is_null self \<longleftrightarrow> phys_ptr self = 0"

definition PhysPtr_ptr :: "PhysPtr \<Rightarrow> u64" where "PhysPtr_ptr self = phys_ptr self"

definition PhysPtr_mut_ptr :: "PhysPtr \<Rightarrow> u64" where "PhysPtr_mut_ptr self = phys_ptr self"

definition PhysPtr_ref :: "(u64 \<Rightarrow> 'a) \<Rightarrow> PhysPtr \<Rightarrow> 'a" where "PhysPtr_ref read self = read (PhysPtr_ptr self)"

definition PhysPtr_get :: "PhysPtr \<Rightarrow> u64" where "PhysPtr_get self = phys_ptr self"

definition PhysPtr_set :: "u64 \<Rightarrow> PhysPtr \<Rightarrow> PhysPtr" where "PhysPtr_set ptr self = self\<lparr>phys_ptr := ptr\<rparr>"

record 't BootInfo =
  bi_graphic_info :: GraphicInfo
  bi_memory_map :: "'t MemoryDescriptor list"
  bi_rsdp_addr :: "PhysPtr option"

definition BootInfo_new :: "GraphicInfo \<Rightarrow> 't MemoryDescriptor list \<Rightarrow> PhysPtr option \<Rightarrow> 't BootInfo" where
  "BootInfo_new gi mm rsdp = \<lparr>bi_graphic_info = gi, bi_memory_map = mm, bi_rsdp_addr = rsdp\<rparr>"

record 'e boot =
  boot_memory :: mem
  boot_errors :: "'e anyhow list"

definition on_memory :: "(mem, 'a) prog \<Rightarrow> ('e boot, 'a) prog" where
  "on_memory = zoom boot_memory (\<lambda>m s. s\<lparr>boot_memory := m\<rparr>)"

definition print_error :: "'e anyhow \<Rightarrow> ('e boot, unit) prog" where
  "print_error err = update (\<lambda>s. s\<lparr>boot_errors := boot_errors s @ [err]\<rparr>)"

section \<open>Helpers\<close>

definition find_rsdp :: "('e, 'h, 'g, 't) uefi \<Rightarrow> PhysPtr option" where
  "find_rsdp fw = map_option (\<lambda>e. PhysPtr_from_ptr (snd e)) (find (\<lambda>e. fst e = ACPI2_GUID fw) (config_table fw))"

definition open_root_dir :: "('e, 'h, 'g, 't) uefi \<Rightarrow> ('s, unit) prog" where
  "open_root_dir fw =
     bnd (unwrap (ret (get_image_file_system fw))) (\<lambda>_.
     unwrap (ret (open_volume fw)))"

definition file_info_size :: "('e, 'h, 'g, 't) uefi \<Rightarrow> string \<Rightarrow> ('s, usize) prog" where
  "file_info_size fw file_name =
     (let u64_size = 8; time_size = size_of_Time fw; size_size = u64_size; file_size_size = u64_size;
          physical_size_size = u64_size; create_time_size_size = time_size; last_access_time_size = time_size;
          modification_time_size = time_size; attribute_size = size_of_FileAttribute fw;
          file_name_size = num_bytes fw file_name in
      bnd (usize_add size_size file_size_size) (\<lambda>n.
      bnd (usize_add n physical_size_size) (\<lambda>n.
      bnd (usize_add n create_time_size_size) (\<lambda>n.
      bnd (usize_add n last_access_time_size) (\<lambda>n.
      bnd (usize_add n modification_time_size) (\<lambda>n.
      bnd (usize_add n attribute_size) (\<lambda>n.
      usize_add n file_name_size)))))))"

definition open_gop :: "('e, 'h, 'g, 't) uefi \<Rightarrow> ('s, 'e anyhow + gop) prog" where
  "open_gop fw =
     bndE (map_err (\<lambda>e. Context ''Failed to get handle for protocol of GraphicsOutput.'' (Msg e))
       (ret (get_handle_for_graphics fw))) (\<lambda>gop_handle.
     bndE (map_err (\<lambda>e. Context ''Failed to open protocol of GraphicsOutput exclusively.'' (Msg e))
       (ret (open_protocol_exclusive fw gop_handle))) (\<lambda>gop.
     ret (Ok gop)))"

section \<open>Loading the kernel\<close>

text \<open>
  \<open>vec![0; n]\<close> of bytes, with vectors of \<open>live\<close> bytes held: a size beyond \<open>isize::MAX\<close> panics (capacity overflow), and so does
  a request that the allocator refuses.
\<close>

definition vec_fits :: "('e, 'h, 'g, 't) uefi \<Rightarrow> usize \<Rightarrow> usize \<Rightarrow> bool" where
  "vec_fits fw live n \<longleftrightarrow> n = 0 \<or> n < 2 ^ 63 \<and> heap_grants fw live n"

definition vec_zeroed :: "('e, 'h, 'g, 't) uefi \<Rightarrow> usize \<Rightarrow> usize \<Rightarrow> ('s, unit) prog" where
  "vec_zeroed fw live n = (if vec_fits fw live n then ret () else panic)"

definition KERNEL_FILE_NAME :: string where "KERNEL_FILE_NAME = ''kernel.elf''"

text \<open>
  \<open>read\<close> fills the front of a zeroed buffer of the size of the file with the bytes it returns; their number is ignored.
\<close>

definition load_kernel ::
    "('e, 'h, 'g, 't) uefi \<Rightarrow> (u8 list \<Rightarrow> 'e + Elf) \<Rightarrow> ('e boot, 'e anyhow + Kernel) prog" where
  "load_kernel fw parse =
     bnd (open_root_dir fw) (\<lambda>_.
     bndE (map_err (\<lambda>e. Context ''Failed to open kernel file.'' (Msg e)) (ret (open_file fw KERNEL_FILE_NAME))) (\<lambda>_.
     bndE (map_err (\<lambda>e. Context
         ''Failed to make the kernel file handler into file type (regular file or directory).'' (Msg e))
       (ret (into_type fw))) (\<lambda>file_type.
     case file_type of
       Dir \<Rightarrow> ret (Err (MsgStr (KERNEL_FILE_NAME @ '' was a directory. It must be a regular file.'')))
     | Regular \<Rightarrow>
         bnd (file_info_size fw KERNEL_FILE_NAME) (\<lambda>n.
         bnd (vec_zeroed fw 0 n) (\<lambda>_.
         bndE (map_err (\<lambda>e. Context ''Failed to get information of kernel file.'' (Msg e)) (ret (get_info fw n))) (\<lambda>file_size.
         let kernel_file_size = unat file_size in
         bnd (vec_zeroed fw n kernel_file_size) (\<lambda>_.
         bndE (map_err (\<lambda>e. Context ''Failed to read data from the kernel file'' (Msg e))
           (ret (read_file fw kernel_file_size))) (\<lambda>bytes.
         let kernel_file_vec = bytes @ replicate (kernel_file_size - length bytes) 0 in
         bndE (map_err (\<lambda>e. Context ''Failed to load the elf file'' (MsgErr e))
           (on_memory (load_elf parse (allocate_pages fw) kernel_file_vec))) (\<lambda>k.
         ret (Ok k))))))))))"

section \<open>Entry\<close>

text \<open>\<open>Kernel::run\<close> jumps to the entry point with the boot information.\<close>

definition Kernel_run :: "Kernel \<Rightarrow> 't BootInfo \<Rightarrow> ('s, u64 \<times> 't BootInfo) prog" where
  "Kernel_run self boot_info = ret (kernel_entry_point_addr self, boot_info)"

definition main_inner ::
    "('e, 'h, 'g, 't) uefi \<Rightarrow> (u8 list \<Rightarrow> 'e + Elf) \<Rightarrow> ('e boot, u64 \<times> 't BootInfo) prog" where
  "main_inner fw parse =
     bnd (unwrap (ret (helpers_init fw))) (\<lambda>_.
     bnd (open_gop fw) (\<lambda>r. case r of
       Inl e \<Rightarrow> bnd (print_error (Context ''Failed to open graphics-output-protocol.'' (MsgErr e))) (\<lambda>_. panic)
     | Inr gop \<Rightarrow> (case from_gop gop of
         Inl err \<Rightarrow> bnd (print_error (Context
           ''Failed to create common::GraphicInfo to give to the kernel from gop.'' (MsgStr (CommonError_msg err)))) (\<lambda>_. panic)
       | Inr graphic_info \<Rightarrow>
           bnd (load_kernel fw parse) (\<lambda>r. case r of
             Inl err \<Rightarrow> bnd (print_error (Context ''Failed to load the kernel'' err)) (\<lambda>_. panic)
           | Inr k \<Rightarrow>
               let rsdp_addr = find_rsdp fw; memory_map = exit_boot_services fw;
                   boot_info = BootInfo_new graphic_info memory_map rsdp_addr in
               Kernel_run k boot_info))))"

text \<open>\<open>efi_main\<close> is the entry point the firmware calls.\<close>

definition efi_main ::
    "('e, 'h, 'g, 't) uefi \<Rightarrow> (u8 list \<Rightarrow> 'e + Elf) \<Rightarrow> ('e boot, u64 \<times> 't BootInfo) prog" where
  "efi_main fw parse = main_inner fw parse"

section \<open>What the bootloader does\<close>

lemma map_err_ret: "map_err g (ret r) = ret (case r of Inl e \<Rightarrow> Inl (g e) | Inr x \<Rightarrow> Inr x)"
  by (simp add: map_err_def)

lemma unwrap_ret: "unwrap (ret r) = (case r of Inl _ \<Rightarrow> panic | Inr x \<Rightarrow> ret x)"
  by (simp add: unwrap_def)

text \<open>The sizes of the firmware's structures in the UEFI specification: 16 bytes for a time, 8 for the attributes.\<close>

definition info_buffer :: "('e, 'h, 'g, 't) uefi \<Rightarrow> nat" where
  "info_buffer fw = 80 + num_bytes fw KERNEL_FILE_NAME"

definition sizes_ok :: "('e, 'h, 'g, 't) uefi \<Rightarrow> bool" where
  "sizes_ok fw \<longleftrightarrow> size_of_Time fw = 16 \<and> size_of_FileAttribute fw = 8 \<and> num_bytes fw KERNEL_FILE_NAME < 2 ^ 63"

lemma file_info_size_result: "sizes_ok fw \<Longrightarrow> file_info_size fw KERNEL_FILE_NAME = ret (info_buffer fw)"
  by (simp add: sizes_ok_def file_info_size_def info_buffer_def usize_add_def Let_def)

text \<open>The firmware gets as far as the kernel's directory, and there is memory for the information about the file.\<close>

definition fw_ok :: "('e, 'h, 'g, 't) uefi \<Rightarrow> bool" where
  "fw_ok fw \<longleftrightarrow> helpers_init fw = Ok () \<and> get_image_file_system fw = Ok () \<and> open_volume fw = Ok () \<and> sizes_ok fw \<and>
     vec_fits fw 0 (info_buffer fw)"

lemmas boot_steps = open_gop_def open_root_dir_def map_err_ret unwrap_ret print_error_def file_info_size_result
  bnd_def [where m = "update f" for f] update_def panic_def

text \<open>The contents of the buffer after \<open>read\<close>.\<close>

definition file_bytes :: "u64 \<Rightarrow> u8 list \<Rightarrow> u8 list" where
  "file_bytes file_size bytes = bytes @ replicate (unat file_size - length bytes) 0"

lemma load_kernel_reads:
  assumes "get_image_file_system fw = Ok ()" "open_volume fw = Ok ()" "sizes_ok fw" "vec_fits fw 0 (info_buffer fw)"
    and "open_file fw KERNEL_FILE_NAME = Ok ()" "into_type fw = Ok Regular"
    and "get_info fw (info_buffer fw) = Ok fsize" "vec_fits fw (info_buffer fw) (unat fsize)"
    and "read_file fw (unat fsize) = Ok bytes"
  shows "load_kernel fw parse = map_err (\<lambda>e. Context ''Failed to load the elf file'' (MsgErr e))
    (on_memory (load_elf parse (allocate_pages fw) (file_bytes fsize bytes)))"
proof -
  have id: "bndE m (\<lambda>k. ret (Ok k)) = m" for m :: "('s, 'x + 'y) prog"
    by (rule ext) (simp add: bndE_def bnd_def ret_def split: prod.split outcome.split sum.split)
  show ?thesis
    using assms by (simp add: load_kernel_def boot_steps id Let_def file_bytes_def vec_zeroed_def)
qed

text \<open>The hand-over, as a lemma for the theories below.\<close>

lemma main_inner_hands_over:
  fixes fw :: "('e, 'h, 'g, 't) uefi" and s :: "'e boot"
  assumes "fw_ok fw" and "get_handle_for_graphics fw = Ok h" and "open_protocol_exclusive fw h = Ok gop"
    and "from_gop gop = Ok gi" and "open_file fw KERNEL_FILE_NAME = Ok ()" and "into_type fw = Ok Regular"
    and "get_info fw (info_buffer fw) = Ok fsize" and "read_file fw (unat fsize) = Ok bytes" and "length bytes \<le> unat fsize"
    and "vec_fits fw (info_buffer fw) (unat fsize)"
    and "parse (file_bytes fsize bytes) = Ok elf" and "list_all (segment_ok (file_bytes fsize bytes)) (loads elf)"
    and "\<forall>ph \<in> set (loads elf). unat (p_vaddr ph) + unat (p_memsz ph) < 2 ^ 64" and "image_end elf + 0x1000 < 2 ^ 64"
    and "allocate_pages fw (image_pages elf) = Ok a"
  shows "main_inner fw parse s = (Ret (elf_entry elf, \<lparr>bi_graphic_info = gi, bi_memory_map = exit_boot_services fw,
      bi_rsdp_addr = map_option PhysPtr_from_ptr (map_of (config_table fw) (ACPI2_GUID fw))\<rparr>), s\<lparr>boot_memory := load_image (file_bytes fsize bytes) elf (boot_memory s)\<rparr>)"
proof -
  have "length (file_bytes fsize bytes) = unat fsize" using assms(9) by (simp add: file_bytes_def)
  then have len: "length (file_bytes fsize bytes) < 2 ^ 64" using unsigned_less [of fsize] by simp
  have load: "load_kernel fw parse s = (Ret (Ok \<lparr>kernel_base_addr = 0, kernel_entry_point_addr = elf_entry elf\<rparr>),
      s\<lparr>boot_memory := load_image (file_bytes fsize bytes) elf (boot_memory s)\<rparr>)"
    using load_kernel_reads [OF _ _ _ _ assms(5-7,10,8), of parse] assms(1)
      load_elf_loaded [where parse = parse and allocate_pages = "allocate_pages fw" and m = "boot_memory s",
        OF assms(11) len assms(12-15)]
    by (simp add: fw_ok_def map_err_def on_memory_def zoom_def bnd_def ret_def)
  have "find (\<lambda>e. fst e = g) t = map_option (Pair g) (map_of t g)" for g and t :: "('g \<times> u64) list"
    by (induction t) auto
  then have rsdp: "find_rsdp fw = map_option PhysPtr_from_ptr (map_of (config_table fw) (ACPI2_GUID fw))"
    by (simp add: find_rsdp_def option.map_comp comp_def)
  show ?thesis
    using assms(1-4) load
    by (simp add: main_inner_def fw_ok_def boot_steps Kernel_run_def BootInfo_new_def rsdp bnd_def ret_def)
qed

text \<open>
  C9. The bootloader hands over to the kernel. If the firmware grants every request and \<open>kernel.elf\<close> is a regular file that
  the parser accepts, with well-formed loadable segments below \<open>2^64\<close>, then \<open>main_inner\<close> jumps to the entry point of
  the file, memory holds its segments and is otherwise unchanged, nothing is logged as an error, and the kernel gets the
  graphics mode (with four bytes per pixel), the memory map that \<open>exit_boot_services\<close> returned, and the address of the first
  entry of the configuration table with the ACPI 2.0 identifier, if there is one.
\<close>

theorem bootloader_hands_over:
  fixes fw :: "('e, 'h, 'g, 't) uefi" and s :: "'e boot"
  assumes "fw_ok fw" and "get_handle_for_graphics fw = Ok h" and "open_protocol_exclusive fw h = Ok gop"
    and "from_gop gop = Ok gi" and "open_file fw KERNEL_FILE_NAME = Ok ()" and "into_type fw = Ok Regular"
    and "get_info fw (info_buffer fw) = Ok fsize" and "read_file fw (unat fsize) = Ok bytes" and "length bytes \<le> unat fsize"
    and "vec_fits fw (info_buffer fw) (unat fsize)"
    and "parse (file_bytes fsize bytes) = Ok elf" and "list_all (segment_ok (file_bytes fsize bytes)) (loads elf)"
    and "\<forall>ph \<in> set (loads elf). unat (p_vaddr ph) + unat (p_memsz ph) < 2 ^ 64" and "image_end elf + 0x1000 < 2 ^ 64"
    and "allocate_pages fw (image_pages elf) = Ok a"
  shows "main_inner fw parse s = (Ret (elf_entry elf, \<lparr>bi_graphic_info = gi, bi_memory_map = exit_boot_services fw,
      bi_rsdp_addr = map_option PhysPtr_from_ptr (map_of (config_table fw) (ACPI2_GUID fw))\<rparr>), s\<lparr>boot_memory := load_image (file_bytes fsize bytes) elf (boot_memory s)\<rparr>)"
  using assms by (rule main_inner_hands_over)

text \<open>
  The first step that fails before the file is handed to \<open>load_elf\<close>, with what is logged for it: nothing for the calls whose
  result is unwrapped (\<open>helpers::init\<close>, the file system and its volume) and for a vector that cannot be allocated, one
  error for each of the others.
\<close>

definition kernel_failure :: "('e, 'h, 'g, 't) uefi \<Rightarrow> 'e anyhow list option" where
  "kernel_failure fw =
     (case (get_image_file_system fw, open_volume fw, open_file fw KERNEL_FILE_NAME, into_type fw) of
        (Inl _, _) \<Rightarrow> Some []
      | (Inr _, Inl _, _) \<Rightarrow> Some []
      | (Inr _, Inr _, Inl e, _) \<Rightarrow> Some [Context ''Failed to open kernel file.'' (Msg e)]
      | (Inr _, Inr _, Inr _, Inl e) \<Rightarrow> Some [Context
          ''Failed to make the kernel file handler into file type (regular file or directory).'' (Msg e)]
      | (Inr _, Inr _, Inr _, Inr Dir) \<Rightarrow> Some [MsgStr ''kernel.elf was a directory. It must be a regular file.'']
      | (Inr _, Inr _, Inr _, Inr Regular) \<Rightarrow>
          if \<not> vec_fits fw 0 (info_buffer fw) then Some []
          else (case get_info fw (info_buffer fw) of
             Inl e \<Rightarrow> Some [Context ''Failed to get information of kernel file.'' (Msg e)]
           | Inr fsize \<Rightarrow>
               if \<not> vec_fits fw (info_buffer fw) (unat fsize) then Some []
               else (case read_file fw (unat fsize) of
                  Inl e \<Rightarrow> Some [Context ''Failed to read data from the kernel file'' (Msg e)]
                | Inr _ \<Rightarrow> None)))"

definition boot_failure :: "('e, 'h, 'g, 't) uefi \<Rightarrow> 'e anyhow list option" where
  "boot_failure fw =
     (case helpers_init fw of
        Inl _ \<Rightarrow> Some []
      | Inr _ \<Rightarrow> (case get_handle_for_graphics fw of
          Inl e \<Rightarrow> Some [Context ''Failed to open graphics-output-protocol.''
            (MsgErr (Context ''Failed to get handle for protocol of GraphicsOutput.'' (Msg e)))]
        | Inr h \<Rightarrow> (case open_protocol_exclusive fw h of
            Inl e \<Rightarrow> Some [Context ''Failed to open graphics-output-protocol.''
              (MsgErr (Context ''Failed to open protocol of GraphicsOutput exclusively.'' (Msg e)))]
          | Inr gop \<Rightarrow>
              if gop_pixel_format gop \<in> {GopRgb, GopBgr}
              then map_option (map (Context ''Failed to load the kernel'')) (kernel_failure fw)
              else Some [Context ''Failed to create common::GraphicInfo to give to the kernel from gop.''
                (MsgStr ''Unsupported pixel format.'')])))"

text \<open>The contents of the kernel file, when the steps up to reading it succeed.\<close>

definition kernel_file :: "('e, 'h, 'g, 't) uefi \<Rightarrow> u8 list" where
  "kernel_file fw = (let fsize = projr (get_info fw (info_buffer fw)) in file_bytes fsize (projr (read_file fw (unat fsize))))"

lemma load_kernel_fails:
  assumes "sizes_ok fw" "kernel_failure fw = Some errs"
  shows "load_kernel fw parse = (case errs of [] \<Rightarrow> panic | err # _ \<Rightarrow> ret (Err err)) \<and> length errs \<le> 1"
  using assms
  by (auto simp: kernel_failure_def load_kernel_def boot_steps Let_def vec_zeroed_def KERNEL_FILE_NAME_def [symmetric]
      split: sum.splits FileType.splits if_splits) (simp_all add: KERNEL_FILE_NAME_def)

lemma load_kernel_loads:
  assumes "sizes_ok fw" "kernel_failure fw = None"
  shows "load_kernel fw parse = map_err (\<lambda>e. Context ''Failed to load the elf file'' (MsgErr e))
    (on_memory (load_elf parse (allocate_pages fw) (kernel_file fw)))"
proof -
  have steps: "get_image_file_system fw = Ok ()" "open_volume fw = Ok ()" "open_file fw KERNEL_FILE_NAME = Ok ()"
      "into_type fw = Ok Regular" "vec_fits fw 0 (info_buffer fw)"
    using assms(2) by (auto simp: kernel_failure_def split: sum.splits FileType.splits if_splits)
  then obtain fsize bytes where contents: "get_info fw (info_buffer fw) = Ok fsize" "vec_fits fw (info_buffer fw) (unat fsize)"
      "read_file fw (unat fsize) = Ok bytes"
    using assms(2) by (auto simp: kernel_failure_def split: sum.splits if_splits)
  with load_kernel_reads [OF steps(1,2) assms(1) steps(5,3,4) contents] show ?thesis by (simp add: kernel_file_def)
qed

lemma from_gop_format:
  "from_gop gop = (if gop_pixel_format gop \<in> {GopRgb, GopBgr} then Ok (projr (from_gop gop))
    else Err (GraphicError UnsupportedPixelFormat))"
  by (cases "gop_pixel_format gop") (simp_all add: from_gop_def Let_def)

text \<open>What is left to do once the graphics mode is known.\<close>

lemma main_inner_loads:
  assumes "helpers_init fw = Ok ()" "get_handle_for_graphics fw = Ok h" "open_protocol_exclusive fw h = Ok gop"
    "from_gop gop = Ok gi"
  shows "main_inner fw parse s = bnd (load_kernel fw parse) (\<lambda>r. case r of
      Inl err \<Rightarrow> bnd (print_error (Context ''Failed to load the kernel'' err)) (\<lambda>_. panic)
    | Inr k \<Rightarrow> ret (kernel_entry_point_addr k, BootInfo_new gi (exit_boot_services fw) (find_rsdp fw))) s"
  using assms by (simp add: main_inner_def open_gop_def map_err_ret unwrap_ret Kernel_run_def Let_def)

text \<open>The kernel is loaded, or fails to load, from the contents of the file.\<close>

lemma main_inner_elf:
  assumes "helpers_init fw = Ok ()" "get_handle_for_graphics fw = Ok h" "open_protocol_exclusive fw h = Ok gop"
    "from_gop gop = Ok gi" "sizes_ok fw" "kernel_failure fw = None"
  shows "case load_elf parse (allocate_pages fw) (kernel_file fw) (boot_memory s) of
      (Ret (Inl e), m) \<Rightarrow> main_inner fw parse s = (Panic, s\<lparr>boot_memory := m, boot_errors := boot_errors s @
        [Context ''Failed to load the kernel'' (Context ''Failed to load the elf file'' (MsgErr e))]\<rparr>)
    | (Ret (Inr k), m) \<Rightarrow> \<exists>bi. main_inner fw parse s = (Ret (kernel_entry_point_addr k, bi), s\<lparr>boot_memory := m\<rparr>)
    | (Panic, m) \<Rightarrow> main_inner fw parse s = (Panic, s\<lparr>boot_memory := m\<rparr>)
    | (Diverge, m) \<Rightarrow> main_inner fw parse s = (Diverge, s\<lparr>boot_memory := m\<rparr>)"
  unfolding main_inner_loads [OF assms(1-4)] load_kernel_loads [OF assms(5,6)]
  by (simp add: map_err_def on_memory_def zoom_def bnd_def ret_def print_error_def update_def panic_def
      split: prod.split outcome.split sum.split)

text \<open>
  C32. What the bootloader does when a step fails. The calls whose result is unwrapped (\<open>helpers::init\<close>, the file system of the
  image and its volume) and a vector that cannot be allocated end it with a panic and no log entry. An error of the
  graphics protocol, a pixel format other than RGB and BGR, a missing kernel file, a directory of that name, and errors
  while reading the file are each logged once, under the contexts of their call chain, before the panic; so far memory is
  unchanged. Otherwise \<open>load_elf\<close> gets the contents of the file: its error is logged once, under two contexts, before the
  panic, its panic is a panic, and only when it returns a kernel is there a jump, to the entry point of that kernel.
\<close>

theorem bootloader_reports_errors:
  assumes "sizes_ok fw"
  shows "case boot_failure fw of
      Some errs \<Rightarrow> main_inner fw parse s = (Panic, s\<lparr>boot_errors := boot_errors s @ errs\<rparr>)
    | None \<Rightarrow> (case load_elf parse (allocate_pages fw) (kernel_file fw) (boot_memory s) of
        (Ret (Inl e), m) \<Rightarrow> main_inner fw parse s = (Panic, s\<lparr>boot_memory := m, boot_errors := boot_errors s @
          [Context ''Failed to load the kernel'' (Context ''Failed to load the elf file'' (MsgErr e))]\<rparr>)
      | (Ret (Inr k), m) \<Rightarrow> \<exists>bi. main_inner fw parse s = (Ret (kernel_entry_point_addr k, bi), s\<lparr>boot_memory := m\<rparr>)
      | (Panic, m) \<Rightarrow> main_inner fw parse s = (Panic, s\<lparr>boot_memory := m\<rparr>)
      | (Diverge, m) \<Rightarrow> main_inner fw parse s = (Diverge, s\<lparr>boot_memory := m\<rparr>))"
proof -
  note steps = main_inner_def boot_steps boot_failure_def bnd_def ret_def
  consider (init) e where "helpers_init fw = Inl e" | (handle) e where "helpers_init fw = Ok ()" "get_handle_for_graphics fw = Inl e"
    | (gop) h e where "helpers_init fw = Ok ()" "get_handle_for_graphics fw = Ok h" "open_protocol_exclusive fw h = Inl e"
    | (found) h gop where "helpers_init fw = Ok ()" "get_handle_for_graphics fw = Ok h" "open_protocol_exclusive fw h = Ok gop"
    by (metis old.unit.exhaust sum.exhaust)
  then show ?thesis
  proof cases
    case found
    show ?thesis
    proof (cases "gop_pixel_format gop \<in> {GopRgb, GopBgr}")
      case True
      then obtain gi where gi: "from_gop gop = Ok gi" using from_gop_format [of gop] by metis
      have fail: "boot_failure fw = map_option (map (Context ''Failed to load the kernel'')) (kernel_failure fw)"
        using found True by (auto simp: boot_failure_def)
      show ?thesis
      proof (cases "kernel_failure fw")
        case None
        then show ?thesis using main_inner_elf [OF found gi assms None] by (simp add: fail)
      next
        case (Some errs)
        then show ?thesis
          using load_kernel_fails [OF assms Some, of parse] main_inner_loads [OF found gi, of parse s]
          by (cases errs) (simp_all add: fail bnd_def ret_def print_error_def update_def panic_def)
      qed
    next
      case False
      then have "from_gop gop = Err (GraphicError UnsupportedPixelFormat)" using from_gop_format [of gop] by simp
      with False found show ?thesis by (simp add: steps)
    qed
  qed (simp_all add: steps)
qed

section \<open>A firmware\<close>

definition demo_gop :: gop where
  "demo_gop = \<lparr>gop_resolution = (1280, 800), gop_stride = 1280, gop_pixel_format = GopBgr, gop_frame_buffer = 0x80000000,
     gop_frame_buffer_size = 4096000\<rparr>"

definition demo_firmware :: "(unit, unit, nat, nat) uefi" where
  "demo_firmware = \<lparr>helpers_init = Ok (), get_handle_for_graphics = Ok (), open_protocol_exclusive = (\<lambda>_. Ok demo_gop),
     get_image_file_system = Ok (), open_volume = Ok (), open_file = (\<lambda>_. Ok ()), into_type = Ok Regular,
     get_info = (\<lambda>n. if n < 102 then Err () else Ok 4), read_file = (\<lambda>n. Ok (take n [0x7f, 0xfa, 0xf4, 0])),
     allocate_pages = (\<lambda>_. Ok 0x200000), config_table = [(1, 0x9000), (2, 0xe0000), (2, 0xf0000)], ACPI2_GUID = 2,
     exit_boot_services = small_map, num_bytes = (\<lambda>name. 2 * (length name + 1)), size_of_Time = 16,
     size_of_FileAttribute = 8, heap_grants = (\<lambda>live n. live + n \<le> 0x100000)\<rparr>"

theorem bootloader_hands_over_witness:
  "\<exists>gi. main_inner demo_firmware (\<lambda>_. Ok small_elf) \<lparr>boot_memory = (\<lambda>_. 0xcc), boot_errors = []\<rparr> =
    (Ret (0x100000, \<lparr>bi_graphic_info = gi, bi_memory_map = small_map, bi_rsdp_addr = Some \<lparr>phys_ptr = 0xe0000\<rparr>\<rparr>),
     \<lparr>boot_memory = load_image [0x7f, 0xfa, 0xf4, 0] small_elf (\<lambda>_. 0xcc), boot_errors = []\<rparr>)"
proof -
  have gi: "from_gop demo_gop = Ok (projr (from_gop demo_gop))"
    using from_gop_format [of demo_gop] by (simp add: demo_gop_def)
  have fw: "fw_ok demo_firmware" "info_buffer demo_firmware = 102"
    by (simp_all add: fw_ok_def sizes_ok_def vec_fits_def info_buffer_def demo_firmware_def KERNEL_FILE_NAME_def)
  show ?thesis
    using bootloader_hands_over [where fw = demo_firmware and h = "()" and gop = demo_gop and gi = "projr (from_gop demo_gop)"
        and fsize = 4 and bytes = "[0x7f, 0xfa, 0xf4, 0]" and elf = small_elf and a = "0x200000"
        and s = "\<lparr>boot_memory = (\<lambda>_. 0xcc), boot_errors = []\<rparr>" and parse = "\<lambda>_. Ok small_elf"] gi fw
    by (auto simp: demo_firmware_def small_elf_facts segment_ok_def file_bytes_def PhysPtr_from_ptr_def) (simp_all add: small_elf_def vec_fits_def)
qed

theorem bootloader_reports_errors_witness:
  "main_inner (demo_firmware\<lparr>open_file := (\<lambda>_. Err ())\<rparr>) (\<lambda>_. Ok small_elf) \<lparr>boot_memory = (\<lambda>_. 0), boot_errors = []\<rparr> =
    (Panic, \<lparr>boot_memory = (\<lambda>_. 0), boot_errors = [Context ''Failed to load the kernel''
      (Context ''Failed to open kernel file.'' (Msg ()))]\<rparr>)
   \<and> main_inner (demo_firmware\<lparr>open_volume := Err ()\<rparr>) (\<lambda>_. Ok small_elf) \<lparr>boot_memory = (\<lambda>_. 0), boot_errors = []\<rparr> =
    (Panic, \<lparr>boot_memory = (\<lambda>_. 0), boot_errors = []\<rparr>)
   \<and> main_inner (demo_firmware\<lparr>heap_grants := (\<lambda>_ n. n < 100)\<rparr>) (\<lambda>_. Ok small_elf) \<lparr>boot_memory = (\<lambda>_. 0), boot_errors = []\<rparr> =
    (Panic, \<lparr>boot_memory = (\<lambda>_. 0), boot_errors = []\<rparr>)"
  using bootloader_reports_errors [of "demo_firmware\<lparr>open_file := (\<lambda>_. Err ())\<rparr>" "\<lambda>_. Ok small_elf"
      "\<lparr>boot_memory = (\<lambda>_. 0), boot_errors = []\<rparr>"]
    bootloader_reports_errors [of "demo_firmware\<lparr>open_volume := Err ()\<rparr>" "\<lambda>_. Ok small_elf"
      "\<lparr>boot_memory = (\<lambda>_. 0), boot_errors = []\<rparr>"]
    bootloader_reports_errors [of "demo_firmware\<lparr>heap_grants := (\<lambda>_ n. n < 100)\<rparr>" "\<lambda>_. Ok small_elf"
      "\<lparr>boot_memory = (\<lambda>_. 0), boot_errors = []\<rparr>"]
  by (simp add: sizes_ok_def boot_failure_def kernel_failure_def vec_fits_def info_buffer_def demo_firmware_def
      KERNEL_FILE_NAME_def demo_gop_def)

end
