(* ===== verification/Kernel_Main.thy ===== *)
theory Kernel_Main
  imports Gdt Paging Pci Console Ps2_Init Apic Boot_Main
begin

text \<open>
  The kernel's entry, \<open>kernel/src/main.rs\<close>: \<open>main\<close> as the composition of the components, the panic handler, and what
  the kernel has done when it reaches its halt loop.

  The parameter \<open>platform\<close> collects what the components take as parameters: the machine behind the 8-bit ports, the
  memory-mapped registers and the model-specific registers (state \<open>'d\<close>), the PCI configuration ports (state \<open>'q\<close>), the
  vector of the \<open>arrayvec\<close> crate, the selectors of the \<open>x86_64\<close> crate, the addresses the linker gave to the statics,
  the \<open>acpi\<close> crate with the firmware's tables and the memory types of UEFI. \<open>kprintln!\<close> is
  no parameter here: it is the console of \<open>Console\<close>, drawing on the frame buffer of \<open>Frame_Buffer\<close>.
\<close>

section \<open>The machine\<close>

record ('d, 'q, 'v, 't, 's, 'r) platform =
  port_in :: "u16 \<Rightarrow> 'd \<Rightarrow> u8 \<times> 'd"
  port_out :: "u16 \<Rightarrow> u8 \<Rightarrow> 'd \<Rightarrow> 'd"
  register_in :: "u64 \<Rightarrow> 'd \<Rightarrow> u32 \<times> 'd"
  register_out :: "u64 \<Rightarrow> u32 \<Rightarrow> 'd \<Rightarrow> 'd"
  msr_in :: "u32 \<Rightarrow> 'd \<Rightarrow> (u32 \<times> u32) \<times> 'd"
  msr_out :: "u32 \<Rightarrow> u32 \<Rightarrow> u32 \<Rightarrow> 'd \<Rightarrow> 'd"
  pci_ports :: "'q io32"
  vec_push :: "Device \<Rightarrow> ('v, unit) prog"
  SegmentSelector_new :: "u16 \<Rightarrow> 'r \<Rightarrow> 's"
  Ring0 :: 'r
  gdt_ptr :: u64
  table_ptrs :: table_addrs
  KERNEL_STACK_ptr :: u64
  acpi_tables :: acpi_crate
  memory_types :: "'t memory_types"

text \<open>The console and the screen, next to the rest of the machine.\<close>

record 'd board =
  crt :: terminal
  rest :: 'd

definition board_hw :: "('d, 'q, 'v, 't, 's, 'r) platform \<Rightarrow> 'd board cpu_hw" where
  "board_hw pl = \<lparr>
     ports = \<lparr>inb = (\<lambda>p b. let (v, d) = port_in pl p (rest b) in (v, b\<lparr>rest := d\<rparr>)),
       outb = (\<lambda>p v b. b\<lparr>rest := port_out pl p v (rest b)\<rparr>),
       klog = (\<lambda>msg. zoom crt (\<lambda>c b. b\<lparr>crt := c\<rparr>) (kprintln_fmt [msg]))\<rparr>,
     mmio_in = (\<lambda>a b. let (v, d) = register_in pl a (rest b) in (v, b\<lparr>rest := d\<rparr>)),
     mmio_out = (\<lambda>a v b. b\<lparr>rest := register_out pl a v (rest b)\<rparr>),
     rdmsr = (\<lambda>r b. let (v, d) = msr_in pl r (rest b) in (v, b\<lparr>rest := d\<rparr>)),
     wrmsr = (\<lambda>r hi lo b. b\<lparr>rest := msr_out pl r hi lo (rest b)\<rparr>)\<rparr>"

text \<open>The state of the kernel: the processor with its board, and the statics of the components.\<close>

record ('d, 'q, 'v, 's) kernel =
  cpu :: "'d board cpu_state"
  rsp :: u64
  gdt_regs :: "'s gdt_cpu"
  page_tables :: paging
  DEVICES :: "('q, 'v) Devices"
  devices_locked :: bool
  FADT_cell :: "u64 option"
  MEMORY_MANAGER :: BitmapMemoryManager
  memory_manager_locked :: bool
  interrupts_on :: bool

definition on_cpu :: "('d board, 'a) cpu \<Rightarrow> (('d, 'q, 'v, 's) kernel, 'a) prog" where
  "on_cpu = zoom cpu (\<lambda>c k. k\<lparr>cpu := c\<rparr>)"

definition kernel_crt :: "('d, 'q, 'v, 's) kernel \<Rightarrow> terminal" where
  "kernel_crt k = crt (dev (io (cpu k)))"

definition set_crt :: "terminal \<Rightarrow> ('d, 'q, 'v, 's) kernel \<Rightarrow> ('d, 'q, 'v, 's) kernel" where
  "set_crt c k = k\<lparr>cpu := (cpu k)\<lparr>io := (io (cpu k))\<lparr>dev := (dev (io (cpu k)))\<lparr>crt := c\<rparr>\<rparr>\<rparr>\<rparr>"

definition on_crt :: "(terminal, 'a) prog \<Rightarrow> (('d, 'q, 'v, 's) kernel, 'a) prog" where
  "on_crt = zoom kernel_crt set_crt"

section \<open>Locks\<close>

text \<open>\<open>pci::devices()\<close>: the lock is tried; the guard is dropped at the end of the statement.\<close>

definition pci_devices :: "(('d, 'q, 'v, 's) kernel, Error + unit) prog" where
  "pci_devices = bnd get (\<lambda>k. if devices_locked k then ret (Err (PciError DeviceLockError))
     else bnd (update (\<lambda>k. k\<lparr>devices_locked := True\<rparr>)) (\<lambda>_. ret (Ok ())))"

definition drop_devices :: "(('d, 'q, 'v, 's) kernel, unit) prog" where
  "drop_devices = update (\<lambda>k. k\<lparr>devices_locked := False\<rparr>)"

text \<open>\<open>phys_mem_manager::mem_manager()\<close> spins until the lock is free.\<close>

definition with_mem_manager :: "(BitmapMemoryManager, 'a) prog \<Rightarrow> (('d, 'q, 'v, 's) kernel, 'a) prog" where
  "with_mem_manager m = bnd get (\<lambda>k.
     if memory_manager_locked k then diverge
     else
       bnd (update (\<lambda>k. k\<lparr>memory_manager_locked := True\<rparr>)) (\<lambda>_.
       bnd (zoom MEMORY_MANAGER (\<lambda>m k. k\<lparr>MEMORY_MANAGER := m\<rparr>) m) (\<lambda>r.
       bnd (update (\<lambda>k. k\<lparr>memory_manager_locked := False\<rparr>)) (\<lambda>_. ret r))))"

section \<open>Entry\<close>

text \<open>The cells of \<open>acpi.rs\<close> and the console, as \<open>acpi::init\<close> sees them.\<close>

definition acpi_view :: "('d, 'q, 'v, 's) kernel \<Rightarrow> terminal acpi_state" where
  "acpi_view k = \<lparr>fadt_once = FADT_cell k, apic_info_once = apic_info (cpu k), logger = kernel_crt k\<rparr>"

definition set_acpi_view :: "terminal acpi_state \<Rightarrow> ('d, 'q, 'v, 's) kernel \<Rightarrow> ('d, 'q, 'v, 's) kernel" where
  "set_acpi_view a k = set_crt (logger a) (k\<lparr>FADT_cell := fadt_once a, cpu := (cpu k)\<lparr>apic_info := apic_info_once a\<rparr>\<rparr>)"

text \<open>The statements of \<open>main\<close>. The guards of the first three are held when their inner \<open>unwrap\<close> panics.\<close>

definition start_screen :: "GraphicInfo \<Rightarrow> (terminal, unit) prog" where
  "start_screen gi =
     bnd (unwrap (on_screen (with_frame_buf
       (bnd (unwrap (FrameBuf_init gi (RgbColor_from_u32 0x28282800))) (\<lambda>_. ret (Ok ())))))) (\<lambda>_.
     unwrap (with_console (unwrap (Console_init (RgbColor_from_u32 0x3c383600) (RgbColor_from_u32 0xebdbb200)))))"

definition start_devices :: "('d, 'q, 'v, 't, 's, 'r) platform \<Rightarrow> nat \<Rightarrow> (('d, 'q, 'v, 's) kernel, unit) prog" where
  "start_devices pl pci_fuel =
     bnd (unwrap pci_devices) (\<lambda>_.
     bnd (zoom DEVICES (\<lambda>d k. k\<lparr>DEVICES := d\<rparr>) (Devices_init (pci_ports pl) (vec_push pl) pci_fuel)) (\<lambda>r.
     bnd (case r of Inl err \<Rightarrow> on_crt (kprintln_fmt (Error_debug err)) | Inr _ \<Rightarrow> ret ()) (\<lambda>_.
     drop_devices)))"

definition start_acpi :: "('d, 'q, 'v, 't, 's, 'r) platform \<Rightarrow> PhysPtr option \<Rightarrow> (('d, 'q, 'v, 's) kernel, unit) prog" where
  "start_acpi pl rsdp = (case rsdp of
       None \<Rightarrow> bnd (on_crt (kprintln_fmt [''RSDP adderss wan't found. The kernel will panic.''])) (\<lambda>_. panic)
     | Some rsdp_addr \<Rightarrow>
         bnd (on_crt (kprintln_fmt [''rsdp_addr: 0x'', upper_hex (unat (PhysPtr_get rsdp_addr))])) (\<lambda>_.
         zoom acpi_view set_acpi_view (acpi_init (acpi_tables pl) (\<lambda>msg. kprintln_fmt [acpi_text (acpi_tables pl) msg])
           (PhysPtr_ptr rsdp_addr))))"

text \<open>\<open>main\<close> up to the instruction that enables interrupts.\<close>

definition kernel_boot ::
    "('d, 'q, 'v, 't, 's, 'r) platform \<Rightarrow> nat \<Rightarrow> nat \<Rightarrow> 't BootInfo \<Rightarrow> (('d, 'q, 'v, 's) kernel, unit) prog" where
  "kernel_boot pl pci_fuel apic_fuel boot_info =
     bnd (on_crt (start_screen (bi_graphic_info boot_info))) (\<lambda>_.
     bnd (zoom gdt_regs (\<lambda>g k. k\<lparr>gdt_regs := g\<rparr>) (gdt_init (SegmentSelector_new pl) (Ring0 pl) (gdt_ptr pl))) (\<lambda>_.
     bnd (zoom page_tables (\<lambda>p k. k\<lparr>page_tables := p\<rparr>) (paging_init (table_ptrs pl))) (\<lambda>_.
     bnd (start_devices pl pci_fuel) (\<lambda>_.
     bnd (start_acpi pl (bi_rsdp_addr boot_info)) (\<lambda>_.
     bnd (on_cpu (on_io (ps2_init (ports (board_hw pl))))) (\<lambda>_.
     bnd (on_cpu (interrupts_init (board_hw pl) apic_fuel)) (\<lambda>_.
     update (\<lambda>k. k\<lparr>interrupts_on := True\<rparr>))))))))"

text \<open>The rest of \<open>main\<close>, up to the loop that halts.\<close>

definition last_words :: string where "last_words = ''It didn't crash.''"

definition kernel_rest :: "('d, 'q, 'v, 't, 's, 'r) platform \<Rightarrow> 't BootInfo \<Rightarrow> (('d, 'q, 'v, 's) kernel, unit) prog" where
  "kernel_rest pl boot_info =
     bnd (with_mem_manager (BitmapMemoryManager_init (memory_types pl) (bi_memory_map boot_info))) (\<lambda>_.
     on_crt (kprintln_fmt [last_words]))"

definition kernel_main ::
    "('d, 'q, 'v, 't, 's, 'r) platform \<Rightarrow> nat \<Rightarrow> nat \<Rightarrow> 't BootInfo \<Rightarrow> (('d, 'q, 'v, 's) kernel, unit) prog" where
  "kernel_main pl pci_fuel apic_fuel boot_info =
     bnd (kernel_boot pl pci_fuel apic_fuel boot_info) (\<lambda>_. kernel_rest pl boot_info)"

definition KERNEL_STACK_SIZE :: usize where "KERNEL_STACK_SIZE = 1024 * 1024"

text \<open>\<open>KernelStack\<close> wraps its bytes; where the linker put them is \<open>KERNEL_STACK_ptr\<close>.\<close>

type_synonym KernelStack = "u8 list"

definition KernelStack_new :: KernelStack where "KernelStack_new = replicate KERNEL_STACK_SIZE 0"

definition KernelStack_len :: "KernelStack \<Rightarrow> usize" where "KernelStack_len self = length self"

definition KernelStack_as_ptr :: "('d, 'q, 'v, 't, 's, 'r) platform \<Rightarrow> u64" where
  "KernelStack_as_ptr pl = KERNEL_STACK_ptr pl"

definition switch_to_kernel_stack ::
    "('d, 'q, 'v, 't, 's, 'r) platform \<Rightarrow> ('i \<Rightarrow> (('d, 'q, 'v, 's) kernel, unit) prog) \<Rightarrow> 'i \<Rightarrow>
      (('d, 'q, 'v, 's) kernel, unit) prog" where
  "switch_to_kernel_stack pl new_entry boot_info =
     bnd (u64_add (KernelStack_as_ptr pl) (of_nat (KernelStack_len KernelStack_new))) (\<lambda>top.
     bnd (update (\<lambda>k. k\<lparr>rsp := top\<rparr>)) (\<lambda>_.
     new_entry boot_info))"

definition start_kernel ::
    "('d, 'q, 'v, 't, 's, 'r) platform \<Rightarrow> nat \<Rightarrow> nat \<Rightarrow> 't BootInfo \<Rightarrow> (('d, 'q, 'v, 's) kernel, unit) prog" where
  "start_kernel pl pci_fuel apic_fuel boot_info =
     switch_to_kernel_stack pl (kernel_main pl pci_fuel apic_fuel) boot_info"

text \<open>The panic handler: it returns here where the source halts for ever. Its own panics are the outcome \<open>Panic\<close>.\<close>

record PanicInfo =
  panic_message :: "string list"
  panic_file :: string
  panic_line :: nat
  panic_column :: nat

text \<open>\<open>Display\<close> of \<open>core::panic::PanicInfo\<close>, piece by piece.\<close>

definition PanicInfo_fmt :: "PanicInfo \<Rightarrow> string list" where
  "PanicInfo_fmt info = [''panicked at '', panic_file info, '':'', decimal (panic_line info), '':'', decimal (panic_column info),
     '':'' @ [CHR 0x0A]] @ panic_message info"

definition panic_handler :: "PanicInfo \<Rightarrow> (('d, 'q, 'v, 's) kernel, unit) prog" where
  "panic_handler info =
     bnd (on_crt (kprintln_fmt [''[panic]''])) (\<lambda>_.
     on_crt (kprintln_fmt (PanicInfo_fmt info)))"

section \<open>The console as a log\<close>

text \<open>The same machine with a log in place of the console: printing appends a line and cannot fail.\<close>

definition log_hw :: "('d, 'q, 'v, 't, 's, 'r) platform \<Rightarrow> ('d \<times> string list) cpu_hw" where
  "log_hw pl = \<lparr>
     ports = \<lparr>inb = (\<lambda>p (d, l). let (v, d) = port_in pl p d in (v, (d, l))),
       outb = (\<lambda>p v (d, l). (port_out pl p v d, l)),
       klog = (\<lambda>msg (d, l). (Ret (), (d, l @ [msg])))\<rparr>,
     mmio_in = (\<lambda>a (d, l). let (v, d) = register_in pl a d in (v, (d, l))),
     mmio_out = (\<lambda>a v (d, l). (register_out pl a v d, l)),
     rdmsr = (\<lambda>r (d, l). let (v, d) = msr_in pl r d in (v, (d, l))),
     wrmsr = (\<lambda>r hi lo (d, l). (msr_out pl r hi lo d, l))\<rparr>"

abbreviation "console_bg \<equiv> 0x3c383600 :: RgbColor"
abbreviation "console_fg \<equiv> 0xebdbb200 :: RgbColor"

text \<open>The screen shows the log; \<open>c\<close> is the terminal it started from, of which the rest of the screen is left.\<close>

definition shows_log :: "nat \<Rightarrow> nat \<Rightarrow> terminal \<Rightarrow> string list \<Rightarrow> terminal \<Rightarrow> bool" where
  "shows_log W H c ls u \<longleftrightarrow> represents W H console_bg console_fg u (log_lines ls) \<and> \<not> console_locked u \<and> keeps W H c u"

lemma plain_text:
  "plain msg \<longleftrightarrow> as_ascii msg = Some msg \<and> CHR 0x0A \<notin> set msg \<and> length msg \<le> 149"
  by (auto simp: plain_def as_ascii_def list_all_iff split: if_splits)

lemma kprintln_logs:
  assumes "shows_log W H c ls u" "list_all (\<lambda>p. as_ascii p = Some p) ps" "plain (concat ps)"
  shows "\<exists>v. kprintln_fmt ps u = (Ret (), v) \<and> shows_log W H c (ls @ [concat ps]) v"
  using wpD [OF kprintln_refines [of W H console_bg console_fg u "log_lines ls" ps]] assms
  by (auto simp: shows_log_def plain_text log_lines_snoc keeps_def)

definition on_board :: "nat \<Rightarrow> nat \<Rightarrow> terminal \<Rightarrow> 'd board \<Rightarrow> 'd \<times> string list \<Rightarrow> bool" where
  "on_board W H c b = (\<lambda>(d, ls). rest b = d \<and> shows_log W H c ls (crt b))"

interpretation km: same_machine "board_hw pl" "log_hw pl" "on_board W H c"
proof
  fix msg :: string and b :: "'a board" and e :: "'a \<times> string list"
  assume "plain msg" and "on_board W H c b e"
  then obtain v where "kprintln_fmt [msg] (crt b) = (Ret (), v)" "shows_log W H c (snd e @ [msg]) v"
    using kprintln_logs [of W H c "snd e" "crt b" "[msg]"] by (auto simp: on_board_def plain_text split_beta)
  with \<open>on_board W H c b e\<close>
  show "fst (klog (ports (board_hw pl)) msg b) = fst (klog (ports (log_hw pl)) msg e) \<and>
      on_board W H c (snd (klog (ports (board_hw pl)) msg b)) (snd (klog (ports (log_hw pl)) msg e))"
    by (simp add: board_hw_def log_hw_def zoom_def on_board_def split_beta)
qed (auto simp: board_hw_def log_hw_def on_board_def split_beta Let_def)

text \<open>Numbers are printed as plain text.\<close>

lemma upper_hex_chars: "set (upper_hex n) \<subseteq> set ''0123456789ABCDEF''"
proof (induction n rule: upper_hex.induct)
  case (1 n)
  define D where "D = ''0123456789ABCDEF''"
  have "length D = 16" by (simp add: D_def)
  then have "D ! (n mod 16) \<in> set D" by (intro nth_mem) simp
  with 1 show ?case
    unfolding upper_hex.simps [of n] by (simp only: D_def [symmetric] Let_def split: if_split, cases "n < 16"; simp)
qed

lemma length_upper_hex: "n < 16 ^ Suc k \<Longrightarrow> length (upper_hex n) \<le> Suc k"
proof (induction k arbitrary: n)
  case 0
  then show ?case by (subst upper_hex.simps) (simp add: Let_def)
next
  case (Suc k)
  then have "n div 16 < 16 ^ Suc k" by (simp add: less_mult_imp_div_less mult.commute)
  from Suc.IH [OF this] show ?case by (subst upper_hex.simps) (simp add: Let_def)
qed

lemma plain_hex:
  assumes "plain pre" "length pre \<le> 100" "n < 2 ^ 64"
  shows "plain (pre @ upper_hex n)" "as_ascii (upper_hex n) = Some (upper_hex n)"
proof -
  have "length (upper_hex n) \<le> Suc 15" using assms(3) by (intro length_upper_hex) simp
  moreover have "list_all (\<lambda>c. (of_char c :: nat) < 128 \<and> c \<noteq> CHR 0x0A) ''0123456789ABCDEF''" by code_simp
  then have "list_all (\<lambda>c. (of_char c :: nat) < 128 \<and> c \<noteq> CHR 0x0A) (upper_hex n)"
    using upper_hex_chars [of n] unfolding list_all_iff by (meson subsetD)
  ultimately show "plain (pre @ upper_hex n)" "as_ascii (upper_hex n) = Some (upper_hex n)"
    using assms(1,2) by (auto simp: plain_def as_ascii_def list_all_iff)
qed

lemma decimal_chars: "set (decimal n) \<subseteq> set ''0123456789''"
proof (induction n rule: decimal.induct)
  case (1 n)
  define D where "D = ''0123456789''"
  have "length D = 10" by (simp add: D_def)
  then have "D ! (n mod 10) \<in> set D" by (intro nth_mem) simp
  with 1 show ?case
    unfolding decimal.simps [of n] by (simp only: D_def [symmetric] Let_def split: if_split, cases "n < 10"; simp)
qed

lemma length_decimal: "n < 10 ^ Suc k \<Longrightarrow> length (decimal n) \<le> Suc k"
proof (induction k arbitrary: n)
  case 0
  then show ?case by (subst decimal.simps) (simp add: Let_def)
next
  case (Suc k)
  then have "n div 10 < 10 ^ Suc k" by (simp add: less_mult_imp_div_less mult.commute)
  from Suc.IH [OF this] show ?case by (subst decimal.simps) (simp add: Let_def)
qed

lemma plain_decimal:
  assumes "n < 2 ^ 32"
  shows "plain (decimal n)" "length (decimal n) \<le> 10"
proof -
  have len: "length (decimal n) \<le> Suc 9" using assms by (intro length_decimal) simp
  have "list_all (\<lambda>c. (of_char c :: nat) < 128 \<and> c \<noteq> CHR 0x0A) ''0123456789''" by code_simp
  then have "list_all (\<lambda>c. (of_char c :: nat) < 128 \<and> c \<noteq> CHR 0x0A) (decimal n)"
    using decimal_chars [of n] unfolding list_all_iff by (meson subsetD)
  with len show "plain (decimal n)" "length (decimal n) \<le> 10" by (simp_all add: plain_def)
qed

lemma plain_append: "plain (a @ b) \<longleftrightarrow> plain a \<and> plain b \<and> length a + length b \<le> 149"
  by (auto simp: plain_def)

text \<open>A text of two lines.\<close>

lemma kprintln_logs_two:
  assumes "shows_log W H c ls u" "list_all (\<lambda>p. as_ascii p = Some p) ps" "concat ps = a @ CHR 0x0A # b" "plain a" "plain b"
  shows "\<exists>v. kprintln_fmt ps u = (Ret (), v) \<and> shows_log W H c (ls @ [a, b]) v"
proof -
  have "term_puts (concat ps @ [CHR 0x0A]) (log_lines ls) = term_puts (b @ [CHR 0x0A]) (term_puts (a @ [CHR 0x0A]) (log_lines ls))"
    by (simp add: assms(3) term_puts_def)
  also have "\<dots> = log_lines ((ls @ [a]) @ [b])"
    using assms(4,5) unfolding plain_text by (simp add: log_lines_snoc del: append_assoc)
  finally show ?thesis
    using wpD [OF kprintln_refines [of W H console_bg console_fg u "log_lines ls" ps]] assms(1,2)
    by (auto simp: shows_log_def keeps_def)
qed

section \<open>Booting\<close>

text \<open>
  A graphics mode the frame buffer driver can handle, in memory that \<open>paging::init\<close> maps, and large enough for the
  console.
\<close>

definition mode_ok :: "GraphicInfo \<Rightarrow> bool" where
  "mode_ok gi \<longleftrightarrow> gi_bytes_per_pixel gi = 4 \<and> unat (gi_frame_buffer_addr gi) mod 4 = 0 \<and>
     unat (gi_frame_buffer_addr gi) + 4 * (gi_width gi * gi_height gi) \<le> 64 * PAGE_SIZE_1G \<and>
     gi_width gi < 2 ^ 64 \<and> gi_height gi < 2 ^ 64"

lemma mode_okD:
  "mode_ok gi \<Longrightarrow> gi_bytes_per_pixel gi = 4" "mode_ok gi \<Longrightarrow> unat (gi_frame_buffer_addr gi) mod 4 = 0"
  "mode_ok gi \<Longrightarrow> unat (gi_frame_buffer_addr gi) + 4 * (gi_width gi * gi_height gi) \<le> 2 ^ 64"
  "mode_ok gi \<Longrightarrow> gi_width gi < 2 ^ 64" "mode_ok gi \<Longrightarrow> gi_height gi < 2 ^ 64"
  by (simp_all add: mode_ok_def PAGE_SIZE_1G_def)

text \<open>The frame buffer is the one of the graphics mode, and the bytes outside it are those of \<open>m\<close>.\<close>

definition outside_kept :: "GraphicInfo \<Rightarrow> (u64 \<Rightarrow> u8) \<Rightarrow> display \<Rightarrow> bool" where
  "outside_kept gi m d \<longleftrightarrow> framebuf_addr (frame_buf d) = gi_frame_buffer_addr gi \<and>
     fb_stride (frame_buf d) = gi_stride gi \<and> fb_width (frame_buf d) = gi_width gi \<and>
     fb_height (frame_buf d) = gi_height gi \<and>
     (\<forall>a. (\<nexists>k. k < 4 * (gi_width gi * gi_height gi) \<and> a = gi_frame_buffer_addr gi + of_nat k) \<longrightarrow> memory d a = m a)"

lemma beyond_outside:
  assumes "beyond W H e = beyond W H d" "outside_kept gi m d"
  shows "outside_kept gi m e"
proof -
  have eq: "frame_buf e = frame_buf d" "snd (snd (fb_rest e)) = snd (snd (fb_rest d))"
    using assms(1) fb_rest_eq [of e d] by (simp_all add: beyond_def)
  have "memory e a = memory d a" if "\<nexists>k. k < 4 * (gi_width gi * gi_height gi) \<and> a = gi_frame_buffer_addr gi + of_nat k" for a
    using fun_cong [OF eq(2), of a] that assms(2) eq(1) by (auto simp: fb_rest_def outside_kept_def split: if_splits)
  with assms(2) eq(1) show ?thesis by (simp add: outside_kept_def)
qed

lemma start_frame_buffer:
  assumes "mode_ok gi" "\<not> frame_buf_locked d"
  shows "\<exists>t. with_frame_buf (bnd (unwrap (FrameBuf_init gi 0x28282800)) (\<lambda>_. ret (Ok ()))) d = (Ret (Ok ()), t) \<and>
    fb_ok (gi_width gi) (gi_height gi) t \<and> \<not> frame_buf_locked t \<and> outside_kept gi (memory d) t \<and>
    (\<forall>x y. x < gi_width gi \<longrightarrow> y < gi_height gi \<longrightarrow> pixel_color t x y = rgb_of 0x28282800)"
proof -
  obtain t where "FrameBuf_init gi 0x28282800 (d\<lparr>frame_buf_locked := True\<rparr>) = (Ret (Ok ()), t)"
      "fb_ok (gi_width gi) (gi_height gi) t"
      "\<forall>x y. x < gi_width gi \<longrightarrow> y < gi_height gi \<longrightarrow> pixel_color t x y = rgb_of 0x28282800" "outside_kept gi (memory d) t"
    using frame_buffer_init_result [OF mode_okD [OF assms(1)], of "0x28282800" "d\<lparr>frame_buf_locked := True\<rparr>"]
    by (auto simp: outside_kept_def fb_ok_def)
  with assms(2) show ?thesis
    by (intro exI [of _ "t\<lparr>frame_buf_locked := False\<rparr>"])
      (simp add: with_frame_buf_def unwrap_def bnd_def get_def update_def ret_def outside_kept_def)
qed

text \<open>The first two statements of \<open>main\<close>: the screen is cleared and the console is empty.\<close>

lemma start_screen_shows:
  assumes "mode_ok gi" "1200 \<le> gi_width gi" "400 \<le> gi_height gi" "\<not> frame_buf_locked (screen c)" "\<not> console_locked c"
  shows "\<exists>u. start_screen gi c = (Ret (), u) \<and> shows_log (gi_width gi) (gi_height gi) u [] u \<and>
    outside_kept gi (memory (screen c)) (screen u) \<and>
    (\<forall>x y. x < gi_width gi \<longrightarrow> y < gi_height gi \<longrightarrow> \<not> (x < 1200 \<and> y < 400) \<longrightarrow> pixel_color (screen u) x y = rgb_of 0x28282800)"
proof -
  obtain t where t: "with_frame_buf (bnd (unwrap (FrameBuf_init gi 0x28282800)) (\<lambda>_. ret (Ok ()))) (screen c) = (Ret (Ok ()), t)"
      "fb_ok (gi_width gi) (gi_height gi) t" "\<not> frame_buf_locked t" "outside_kept gi (memory (screen c)) t"
      "\<And>x y. x < gi_width gi \<Longrightarrow> y < gi_height gi \<Longrightarrow> pixel_color t x y = rgb_of 0x28282800"
    using start_frame_buffer [OF assms(1,4)] by blast
  let ?c = "c\<lparr>screen := t, console_locked := True\<rparr>"
  obtain u where u: "Console_init console_bg console_fg ?c = (Ret (Ok ()), u)"
      "represents (gi_width gi) (gi_height gi) console_bg console_fg u (replicate 25 [], 0)"
      "keeps (gi_width gi) (gi_height gi) ?c u"
    using console_init_result [of "gi_width gi" "gi_height gi" ?c console_bg console_fg] t assms(2,3) by auto
  have "pixel_color (screen u) x y = rgb_of 0x28282800"
    if "x < gi_width gi" "y < gi_height gi" "\<not> (x < 1200 \<and> y < 400)" for x y
  proof -
    have "snd (beyond (gi_width gi) (gi_height gi) (screen u)) x y = snd (beyond (gi_width gi) (gi_height gi) t) x y"
      using u(3) by (simp add: keeps_def)
    with that t(5) show ?thesis by (simp add: beyond_def split: if_splits)
  qed
  moreover have "outside_kept gi (memory (screen c)) (screen u)"
    using beyond_outside [OF _ t(4), of "gi_width gi" "gi_height gi"] u(3) by (simp add: keeps_def)
  moreover have "start_screen gi c = (Ret (), u\<lparr>console_locked := False\<rparr>)"
    using t(1) u(1) assms(5)
    by (simp add: start_screen_def unwrap_def on_screen_def zoom_def with_console_def bnd_def get_def update_def ret_def)
  ultimately show ?thesis
    using u(2) by (simp add: shows_log_def log_lines_def keeps_def)
qed

text \<open>The scan of the PCI buses, under the lock of the list.\<close>

lemma start_devices_result:
  assumes "Devices_init (pci_ports pl) (vec_push pl) fuel (DEVICES k) = (Ret (Ok ()), d)" "\<not> devices_locked k"
  shows "start_devices pl fuel k = (Ret (), k\<lparr>DEVICES := d\<rparr>)"
  using assms
  by (cases k) (simp add: start_devices_def pci_devices_def drop_devices_def unwrap_def zoom_def bnd_def get_def update_def ret_def)

lemma kernel_crt_simps [simp]:
  "kernel_crt (set_crt c k) = c" "kernel_crt (k\<lparr>gdt_regs := g\<rparr>) = kernel_crt k" "kernel_crt (k\<lparr>page_tables := p\<rparr>) = kernel_crt k"
  "kernel_crt (k\<lparr>DEVICES := d\<rparr>) = kernel_crt k" "kernel_crt (k\<lparr>FADT_cell := f\<rparr>) = kernel_crt k"
  "kernel_crt (k\<lparr>rsp := r\<rparr>) = kernel_crt k" "kernel_crt (k\<lparr>interrupts_on := b\<rparr>) = kernel_crt k"
  "kernel_crt (k\<lparr>MEMORY_MANAGER := m\<rparr>) = kernel_crt k" "kernel_crt (k\<lparr>memory_manager_locked := b\<rparr>) = kernel_crt k"
  by (simp_all add: kernel_crt_def set_crt_def)

lemma on_crt_result: "m (kernel_crt k) = (r, c) \<Longrightarrow> on_crt m k = (r, set_crt c k)"
  by (simp add: on_crt_def zoom_def)

text \<open>The messages of \<open>main\<close> and \<open>acpi::init\<close> on a machine whose tables are found.\<close>

definition acpi_log :: "acpi_crate \<Rightarrow> u64 \<Rightarrow> u64 \<Rightarrow> string list" where
  "acpi_log crate rsdp fadt = [''rsdp_addr: 0x'' @ upper_hex (unat rsdp), ''FADT is found: 0x'' @ upper_hex (unat fadt),
     ''MADT is found: 0x'' @ upper_hex (unat (found_madt crate rsdp))]"

lemma unat_u64: "unat (w :: u64) < 2 ^ 64"
  using unsigned_less [of w] by simp

lemma plain_prefixes:
  "plain ''rsdp_addr: 0x''" "plain ''FADT is found: 0x''" "plain ''MADT is found: 0x''" "plain ''I/O APIC base: 0x''"
  by code_simp+

lemma acpi_messages_plain:
  "plain (acpi_text crate (Msg_fadt_found p))" "plain (acpi_text crate (Msg_madt_found p))"
  using plain_hex(1) [OF plain_prefixes(2) _ unat_u64, of p] plain_hex(1) [OF plain_prefixes(3) _ unat_u64, of p] by simp_all

lemma start_acpi_result:
  assumes "shows_log W H c [] (kernel_crt k)" "tables_found (acpi_tables pl) rsdp = Some (fadt, info)"
    and "FADT_cell k = None" "apic_info (cpu k) = None"
  shows "\<exists>u. start_acpi pl (Some \<lparr>phys_ptr = rsdp\<rparr>) k =
      (Ret (), set_crt u (k\<lparr>FADT_cell := Some fadt, cpu := (cpu k)\<lparr>apic_info := Some info\<rparr>\<rparr>)) \<and>
    shows_log W H c (acpi_log (acpi_tables pl) rsdp fadt) u"
proof -
  let ?pr = "\<lambda>msg. kprintln_fmt [acpi_text (acpi_tables pl) msg]"
  have hex: "list_all (\<lambda>p. as_ascii p = Some p) [''rsdp_addr: 0x'', upper_hex (unat rsdp)]"
      "plain (concat [''rsdp_addr: 0x'', upper_hex (unat rsdp)])"
    using plain_hex [OF plain_prefixes(1) _ unat_u64, of rsdp] plain_prefixes(1) by (simp_all add: plain_text)
  obtain u1 where u1: "kprintln_fmt [''rsdp_addr: 0x'', upper_hex (unat rsdp)] (kernel_crt k) = (Ret (), u1)"
      "shows_log W H c [''rsdp_addr: 0x'' @ upper_hex (unat rsdp)] u1"
    using kprintln_logs [OF assms(1) hex] by auto
  have one: "\<exists>v. ?pr msg u = (Ret (), v) \<and> shows_log W H c (ls @ [acpi_text (acpi_tables pl) msg]) v"
    if "shows_log W H c ls u" "plain (acpi_text (acpi_tables pl) msg)" for ls u msg
    using kprintln_logs [OF that(1), of "[acpi_text (acpi_tables pl) msg]"] that(2) by (simp add: plain_text)
  obtain u2 where u2: "?pr (Msg_fadt_found fadt) u1 = (Ret (), u2)"
      "shows_log W H c ([''rsdp_addr: 0x'' @ upper_hex (unat rsdp)] @ [acpi_text (acpi_tables pl) (Msg_fadt_found fadt)]) u2"
    using one [OF u1(2) acpi_messages_plain(1)] by blast
  obtain u where u: "?pr (Msg_madt_found (found_madt (acpi_tables pl) rsdp)) u2 = (Ret (), u)"
      "shows_log W H c (acpi_log (acpi_tables pl) rsdp fadt) u"
    using one [OF u2(2) acpi_messages_plain(2), of "found_madt (acpi_tables pl) rsdp"] by (auto simp: acpi_log_def)
  let ?k = "set_crt u1 k"
  have view: "acpi_view ?k = \<lparr>fadt_once = None, apic_info_once = None, logger = u1\<rparr>"
    using assms(3,4) by (simp add: acpi_view_def set_crt_def kernel_crt_def)
  have "acpi_init (acpi_tables pl) ?pr rsdp (acpi_view ?k) =
      (Ret (), (acpi_view ?k)\<lparr>fadt_once := Some fadt, logger := u, apic_info_once := Some info\<rparr>)"
    using u2(1) u(1) by (intro acpi_init_found [OF assms(2)]) (simp_all add: view)
  then have "start_acpi pl (Some \<lparr>phys_ptr = rsdp\<rparr>) k =
      (Ret (), set_acpi_view ((acpi_view ?k)\<lparr>fadt_once := Some fadt, logger := u, apic_info_once := Some info\<rparr>) ?k)"
    using on_crt_result [where m = "kprintln_fmt [''rsdp_addr: 0x'', upper_hex (unat rsdp)]", OF u1(1)]
    by (simp add: start_acpi_def bnd_def zoom_def PhysPtr_get_def PhysPtr_ptr_def)
  then show ?thesis
    using u(2) by (intro exI [of _ u]) (simp add: set_acpi_view_def set_crt_def)
qed

section \<open>The drivers\<close>

definition drivers_init :: "'d cpu_hw \<Rightarrow> nat \<Rightarrow> ('d, unit) cpu" where
  "drivers_init hw fuel = bnd (on_io (ps2_init (ports hw))) (\<lambda>_. interrupts_init hw fuel)"

text \<open>The processor, with a log in place of the console.\<close>

definition log_cpu :: "string list \<Rightarrow> 'd board cpu_state \<Rightarrow> ('d \<times> string list) cpu_state" where
  "log_cpu ls c = \<lparr>io = \<lparr>dev = (rest (dev (io c)), ls), trace = trace (io c)\<rparr>, events = events c,
     apic_info = apic_info c, LOCAL_APIC = LOCAL_APIC c\<rparr>"

lemma on_cpu_drivers:
  "bnd (on_cpu (on_io (ps2_init (ports hw)))) (\<lambda>_. bnd (on_cpu (interrupts_init hw fuel)) f) = bnd (on_cpu (drivers_init hw fuel)) f"
  by (rule ext) (simp add: drivers_init_def on_cpu_def zoom_def bnd_def split: prod.split outcome.split)

lemma drivers_init_logs:
  assumes "drivers_init (log_hw pl) fuel (log_cpu ls s) = (r, t)" "shows_log W H c ls (crt (dev (io s)))"
  shows "\<exists>u. drivers_init (board_hw pl) fuel s = (r, u) \<and> same_cpu (on_board W H c) u t"
proof -
  have "plain (''I/O APIC base: 0x'' @ upper_hex (unat (io_apic_base info)))" for info
  proof (rule plain_hex(1) [OF plain_prefixes(4)])
    have "unat (io_apic_base info) < 2 ^ 32" using unsigned_less [of "io_apic_base info"] by simp
    then show "unat (io_apic_base info) < 2 ^ 64" by simp
  qed simp
  then have "sim (same_cpu (on_board W H c)) (drivers_init (board_hw pl) fuel) (drivers_init (log_hw pl) fuel)"
    unfolding drivers_init_def by (intro sim_bnd km.sim_on_io km.sim_ps2_init km.sim_interrupts_init)
  moreover have "same_cpu (on_board W H c) s (log_cpu ls s)"
    using assms(2) by (simp add: same_cpu_def same_io_def on_board_def log_cpu_def)
  ultimately show ?thesis using assms(1) by (rule simD)
qed

section \<open>The whole boot\<close>

text \<open>The statics as the loader leaves them: nothing locked, nothing initialised.\<close>

definition fresh_kernel :: "('v \<Rightarrow> Device list) \<Rightarrow> ('v \<Rightarrow> bool) \<Rightarrow> ('d, 'q, 'v, 's) kernel \<Rightarrow> bool" where
  "fresh_kernel items vec_ok k \<longleftrightarrow> \<not> frame_buf_locked (screen (kernel_crt k)) \<and> \<not> console_locked (kernel_crt k) \<and>
     GDT (gdt_regs k) = GDT_initial \<and> (\<exists>c. page_tables k = paging_statics c) \<and>
     vec_ok (devices (DEVICES k)) \<and> items (devices (DEVICES k)) = [] \<and> \<not> devices_locked k \<and>
     FADT_cell k = None \<and> apic_info (cpu k) = None \<and> LOCAL_APIC (cpu k) = None \<and>
     MEMORY_MANAGER k = BitmapMemoryManager_new \<and> \<not> memory_manager_locked k"

text \<open>What the code relies on: page-aligned tables that do not overlap, configuration mechanism 1, and a vector that holds 32 devices.\<close>

definition platform_ok ::
    "('d, 'q, 'v, 't, 's, 'r) platform \<Rightarrow> ('q \<Rightarrow> u32 \<Rightarrow> u32) \<Rightarrow> ('v \<Rightarrow> Device list) \<Rightarrow> ('v \<Rightarrow> bool) \<Rightarrow> bool" where
  "platform_ok pl cfg items vec_ok \<longleftrightarrow> wf_addrs (table_ptrs pl) \<and> config_mechanism (pci_ports pl) cfg \<and>
     device_vec (vec_push pl) items vec_ok DEVICE_CAPACITY"

text \<open>The state of the processor that the drivers start from: the log has three lines and the interrupt controllers are known.\<close>

definition before_drivers ::
    "('d, 'q, 'v, 't, 's, 'r) platform \<Rightarrow> u64 \<Rightarrow> u64 \<Rightarrow> ApicInfo \<Rightarrow> ('d, 'q, 'v, 's) kernel \<Rightarrow> ('d \<times> string list) cpu_state" where
  "before_drivers pl rsdp fadt info k =
     log_cpu (acpi_log (acpi_tables pl) rsdp fadt) ((cpu k)\<lparr>apic_info := Some info\<rparr>)"

definition identity_mapped :: "table_addrs \<Rightarrow> paging \<Rightarrow> bool" where
  "identity_mapped l p \<longleftrightarrow> (\<forall>other va. translate (table_memory l other p) (cr3 p) va =
     (if unat va < 64 * PAGE_SIZE_1G then Some (va, True) else None))"

lemma paging_init_identity:
  assumes "wf_addrs l"
  shows "\<exists>p. paging_init l (paging_statics c) = (Ret (), p) \<and> identity_mapped l p"
proof -
  obtain p where p: "paging_init l (paging_statics c) = (Ret (), p)"
    using wpD [OF paging_identity [OF assms]] by fastforce
  have "translate (table_memory l other p) (cr3 p) va = (if unat va < 64 * PAGE_SIZE_1G then Some (va, True) else None)"
    for other va
    using paging_identity [OF assms, of other c] p by (simp add: wp_def)
  with p show ?thesis by (auto simp: identity_mapped_def)
qed

definition kernel_gdt :: "('d, 'q, 'v, 't, 's, 'r) platform \<Rightarrow> 's gdt_cpu" where
  "kernel_gdt pl = \<lparr>GDT = [0, 0x00AF9A000000FFFF, 0x00EF92000000FFFF], gdtr_limit = 23, gdtr_offset = gdt_ptr pl,
     reg_DS = SegmentSelector_new pl 0 (Ring0 pl), reg_ES = SegmentSelector_new pl 0 (Ring0 pl),
     reg_FS = SegmentSelector_new pl 0 (Ring0 pl), reg_GS = SegmentSelector_new pl 0 (Ring0 pl),
     reg_CS = SegmentSelector_new pl 1 (Ring0 pl), reg_SS = SegmentSelector_new pl 2 (Ring0 pl)\<rparr>"

lemma gdt_init_kernel:
  "GDT g = GDT_initial \<Longrightarrow> gdt_init (SegmentSelector_new pl) (Ring0 pl) (gdt_ptr pl) g = (Ret (), kernel_gdt pl)"
  by (subst gdt_init_runs) (simp_all add: GDT_initial_def kernel_gdt_def)

text \<open>The background outside the console, and the memory outside the frame buffer.\<close>

definition bordered :: "GraphicInfo \<Rightarrow> (u64 \<Rightarrow> u8) \<Rightarrow> terminal \<Rightarrow> bool" where
  "bordered gi m u \<longleftrightarrow> outside_kept gi m (screen u) \<and> (\<forall>x y. x < gi_width gi \<longrightarrow> y < gi_height gi \<longrightarrow> \<not> (x < 1200 \<and> y < 400) \<longrightarrow>
     pixel_color (screen u) x y = rgb_of 0x28282800)"

text \<open>Up to the PCI scan nothing depends on the ACPI tables.\<close>

lemma kernel_boot_starts:
  assumes fresh: "fresh_kernel items vec_ok k" and pl: "platform_ok pl cfg items vec_ok"
    and mode: "mode_ok (bi_graphic_info bi)" "1200 \<le> gi_width (bi_graphic_info bi)" "400 \<le> gi_height (bi_graphic_info bi)"
    and pci: "32 < pci_fuel" "length (enum_all (cfg (machine (DEVICES k))) pci_fuel) \<le> 32"
  shows "\<exists>c p d. kernel_boot pl pci_fuel apic_fuel bi k =
      bnd (start_acpi pl (bi_rsdp_addr bi)) (\<lambda>_. bnd (on_cpu (drivers_init (board_hw pl) apic_fuel)) (\<lambda>_.
        update (\<lambda>k. k\<lparr>interrupts_on := True\<rparr>)))
      (set_crt c (k\<lparr>gdt_regs := kernel_gdt pl, page_tables := p, DEVICES := d\<rparr>)) \<and>
    shows_log (gi_width (bi_graphic_info bi)) (gi_height (bi_graphic_info bi)) c [] c \<and>
    bordered (bi_graphic_info bi) (memory (screen (kernel_crt k))) c \<and> identity_mapped (table_ptrs pl) p \<and>
    items (devices d) = enum_all (cfg (machine (DEVICES k))) pci_fuel"
proof -
  let ?gi = "bi_graphic_info bi"
  obtain c where c: "start_screen ?gi (kernel_crt k) = (Ret (), c)" "shows_log (gi_width ?gi) (gi_height ?gi) c [] c" "bordered ?gi (memory (screen (kernel_crt k))) c"
    using start_screen_shows [OF mode, of "kernel_crt k"] fresh by (auto simp: fresh_kernel_def bordered_def)
  obtain p where p: "paging_init (table_ptrs pl) (page_tables k) = (Ret (), p)" "identity_mapped (table_ptrs pl) p"
    using paging_init_identity [of "table_ptrs pl"] fresh pl unfolding fresh_kernel_def platform_ok_def by metis
  obtain d where d: "Devices_init (pci_ports pl) (vec_push pl) pci_fuel (DEVICES k) = (Ret (Ok ()), d)"
      "items (devices d) = enum_all (cfg (machine (DEVICES k))) pci_fuel"
    using pci_scan_result [of "pci_ports pl" cfg "vec_push pl" items vec_ok "DEVICES k" pci_fuel] fresh pl pci
    by (auto simp: fresh_kernel_def platform_ok_def)
  define k1 where "k1 = (set_crt c k)\<lparr>gdt_regs := kernel_gdt pl, page_tables := p\<rparr>"
  have s1: "on_crt (start_screen ?gi) k = (Ret (), set_crt c k)"
    using c(1) by (rule on_crt_result)
  have s2: "zoom gdt_regs (\<lambda>g k. k\<lparr>gdt_regs := g\<rparr>) (gdt_init (SegmentSelector_new pl) (Ring0 pl) (gdt_ptr pl)) (set_crt c k) =
      (Ret (), (set_crt c k)\<lparr>gdt_regs := kernel_gdt pl\<rparr>)"
    using gdt_init_kernel [of "gdt_regs k" pl] fresh by (simp add: zoom_def set_crt_def fresh_kernel_def)
  have s3: "zoom page_tables (\<lambda>p k. k\<lparr>page_tables := p\<rparr>) (paging_init (table_ptrs pl)) ((set_crt c k)\<lparr>gdt_regs := kernel_gdt pl\<rparr>) =
      (Ret (), k1)"
    using p(1) by (simp add: zoom_def set_crt_def k1_def)
  have s4: "start_devices pl pci_fuel k1 = (Ret (), k1\<lparr>DEVICES := d\<rparr>)"
    using d(1) fresh by (intro start_devices_result) (simp_all add: k1_def set_crt_def fresh_kernel_def)
  have "k1\<lparr>DEVICES := d\<rparr> = set_crt c (k\<lparr>gdt_regs := kernel_gdt pl, page_tables := p, DEVICES := d\<rparr>)"
    by (simp add: k1_def set_crt_def)
  with s1 s2 s3 s4 have "kernel_boot pl pci_fuel apic_fuel bi k =
      bnd (start_acpi pl (bi_rsdp_addr bi)) (\<lambda>_. bnd (on_cpu (drivers_init (board_hw pl) apic_fuel)) (\<lambda>_.
        update (\<lambda>k. k\<lparr>interrupts_on := True\<rparr>)))
      (set_crt c (k\<lparr>gdt_regs := kernel_gdt pl, page_tables := p, DEVICES := d\<rparr>))"
    unfolding kernel_boot_def on_cpu_drivers by (simp add: bnd_Ret)
  with c(2,3) p(2) d(2) show ?thesis by blast
qed

lemma kernel_boot_result:
  assumes fresh: "fresh_kernel items vec_ok k" and pl: "platform_ok pl cfg items vec_ok"
    and mode: "mode_ok (bi_graphic_info bi)" "1200 \<le> gi_width (bi_graphic_info bi)" "400 \<le> gi_height (bi_graphic_info bi)"
    and pci: "32 < pci_fuel" "length (enum_all (cfg (machine (DEVICES k))) pci_fuel) \<le> 32"
    and acpi: "bi_rsdp_addr bi = Some \<lparr>phys_ptr = rsdp\<rparr>" "tables_found (acpi_tables pl) rsdp = Some (fadt, info)"
    and drivers: "drivers_init (log_hw pl) apic_fuel (before_drivers pl rsdp fadt info k) = (Ret (), t)"
  shows "\<exists>c p d u. kernel_boot pl pci_fuel apic_fuel bi k = (Ret (), k\<lparr>gdt_regs := kernel_gdt pl, page_tables := p,
      DEVICES := d, FADT_cell := Some fadt, cpu := u, interrupts_on := True\<rparr>) \<and>
    same_cpu (on_board (gi_width (bi_graphic_info bi)) (gi_height (bi_graphic_info bi)) c) u t \<and>
    bordered (bi_graphic_info bi) (memory (screen (kernel_crt k))) c \<and> identity_mapped (table_ptrs pl) p \<and>
    items (devices d) = enum_all (cfg (machine (DEVICES k))) pci_fuel"
proof -
  let ?W = "gi_width (bi_graphic_info bi)" and ?H = "gi_height (bi_graphic_info bi)"
  let ?log = "acpi_log (acpi_tables pl) rsdp fadt"
  obtain c p d where c: "kernel_boot pl pci_fuel apic_fuel bi k =
      bnd (start_acpi pl (bi_rsdp_addr bi)) (\<lambda>_. bnd (on_cpu (drivers_init (board_hw pl) apic_fuel)) (\<lambda>_.
        update (\<lambda>k. k\<lparr>interrupts_on := True\<rparr>)))
      (set_crt c (k\<lparr>gdt_regs := kernel_gdt pl, page_tables := p, DEVICES := d\<rparr>))"
      "shows_log ?W ?H c [] c" "bordered (bi_graphic_info bi) (memory (screen (kernel_crt k))) c" "identity_mapped (table_ptrs pl) p"
      "items (devices d) = enum_all (cfg (machine (DEVICES k))) pci_fuel"
    using kernel_boot_starts [OF fresh pl mode pci] by blast
  let ?k1 = "set_crt c (k\<lparr>gdt_regs := kernel_gdt pl, page_tables := p, DEVICES := d\<rparr>)"
  have "FADT_cell ?k1 = None" "apic_info (cpu ?k1) = None"
    using fresh by (simp_all add: set_crt_def fresh_kernel_def)
  with c(2) acpi(2) obtain u where u: "start_acpi pl (Some \<lparr>phys_ptr = rsdp\<rparr>) ?k1 = (Ret (), set_crt u (?k1\<lparr>
      FADT_cell := Some fadt, cpu := (cpu ?k1)\<lparr>apic_info := Some info\<rparr>\<rparr>))" "shows_log ?W ?H c ?log u"
    using start_acpi_result [of ?W ?H c ?k1 pl rsdp fadt info] by auto
  define k2 where "k2 = set_crt u (?k1\<lparr>FADT_cell := Some fadt, cpu := (cpu ?k1)\<lparr>apic_info := Some info\<rparr>\<rparr>)"
  have "log_cpu ?log (cpu k2) = before_drivers pl rsdp fadt info k" "crt (dev (io (cpu k2))) = u"
    by (simp_all add: k2_def before_drivers_def log_cpu_def set_crt_def)
  then obtain v where v: "drivers_init (board_hw pl) apic_fuel (cpu k2) = (Ret (), v)" "same_cpu (on_board ?W ?H c) v t"
    using drivers_init_logs [of pl apic_fuel ?log "cpu k2" "Ret ()" t] drivers u(2) by metis
  have "kernel_boot pl pci_fuel apic_fuel bi k = (Ret (), k2\<lparr>cpu := v, interrupts_on := True\<rparr>)"
    using u(1) v(1) unfolding c(1) acpi(1)
    by (simp add: bnd_def on_cpu_def zoom_def update_def flip: k2_def)
  moreover have "k2\<lparr>cpu := v, interrupts_on := True\<rparr> = k\<lparr>gdt_regs := kernel_gdt pl, page_tables := p,
      DEVICES := d, FADT_cell := Some fadt, cpu := v, interrupts_on := True\<rparr>"
    by (simp add: k2_def set_crt_def)
  ultimately show ?thesis using v(2) c(3-5) by auto
qed

lemma kernel_rest_result:
  assumes "shows_log W H c ls (kernel_crt k)" "MEMORY_MANAGER k = BitmapMemoryManager_new" "\<not> memory_manager_locked k"
    and "wf_map 0 (bi_memory_map bi)"
  shows "\<exists>u m. kernel_rest pl bi k = (Ret (), set_crt u (k\<lparr>MEMORY_MANAGER := m\<rparr>)) \<and>
    shows_log W H c (ls @ [last_words]) u \<and>
    {f. f < mm_end m \<and> f \<notin> allocated m} = available_frames (memory_types pl) (bi_memory_map bi)"
proof -
  obtain m where m: "BitmapMemoryManager_init (memory_types pl) (bi_memory_map bi) BitmapMemoryManager_new = (Ret (), m)"
      "{f. f < mm_end m \<and> f \<notin> allocated m} = available_frames (memory_types pl) (bi_memory_map bi)"
    using wpD [OF memory_init_result [OF assms(4), of "memory_types pl"]] by auto
  have words: "as_ascii last_words = Some last_words" "plain last_words" by code_simp+
  obtain u where u: "kprintln_fmt [last_words] (kernel_crt k) = (Ret (), u)" "shows_log W H c (ls @ [last_words]) u"
    using kprintln_logs [OF assms(1), of "[last_words]"] words by auto
  have "with_mem_manager (BitmapMemoryManager_init (memory_types pl) (bi_memory_map bi)) k = (Ret (), k\<lparr>MEMORY_MANAGER := m\<rparr>)"
    using m(1) assms(2,3) by (cases k) (simp add: with_mem_manager_def bnd_def get_def update_def zoom_def ret_def)
  moreover have "on_crt (kprintln_fmt [last_words]) (k\<lparr>MEMORY_MANAGER := m\<rparr>) = (Ret (), set_crt u (k\<lparr>MEMORY_MANAGER := m\<rparr>))"
    using u(1) by (intro on_crt_result) simp
  ultimately show ?thesis
    using u(2) m(2) by (intro exI [of _ u] exI [of _ m]) (simp add: kernel_rest_def bnd_def)
qed

text \<open>What \<open>_start\<close> leaves behind, next to the state of the processor.\<close>

definition kernel_up ::
    "('d, 'q, 'v, 't, 's, 'r) platform \<Rightarrow> 't BootInfo \<Rightarrow> ('d, 'q, 'v, 's) kernel \<Rightarrow> bool" where
  "kernel_up pl bi k \<longleftrightarrow> rsp k = KERNEL_STACK_ptr pl + 0x100000 \<and> gdt_regs k = kernel_gdt pl \<and>
     identity_mapped (table_ptrs pl) (page_tables k) \<and> \<not> devices_locked k \<and> \<not> memory_manager_locked k \<and>
     {f. f < mm_end (MEMORY_MANAGER k) \<and> f \<notin> allocated (MEMORY_MANAGER k)} =
       available_frames (memory_types pl) (bi_memory_map bi) \<and> interrupts_on k"

text \<open>The kernel boots, as a lemma for the theories below.\<close>

lemma kernel_boots_result:
  assumes "fresh_kernel items vec_ok k" and "platform_ok pl cfg items vec_ok"
    and "mode_ok (bi_graphic_info bi)" and "1200 \<le> gi_width (bi_graphic_info bi)" and "400 \<le> gi_height (bi_graphic_info bi)"
    and "32 < pci_fuel" and "length (enum_all (cfg (machine (DEVICES k))) pci_fuel) \<le> 32"
    and "bi_rsdp_addr bi = Some \<lparr>phys_ptr = rsdp\<rparr>" and "tables_found (acpi_tables pl) rsdp = Some (fadt, info)"
    and "drivers_init (log_hw pl) apic_fuel (before_drivers pl rsdp fadt info k) = (Ret (), t)"
    and "wf_map 0 (bi_memory_map bi)" and "unat (KERNEL_STACK_ptr pl) + 0x100000 < 2 ^ 64"
  shows "\<exists>k' c. start_kernel pl pci_fuel apic_fuel bi k = (Ret (), k') \<and> kernel_up pl bi k' \<and>
    items (devices (DEVICES k')) = enum_all (cfg (machine (DEVICES k))) pci_fuel \<and> FADT_cell k' = Some fadt \<and>
    same_cpu (on_board (gi_width (bi_graphic_info bi)) (gi_height (bi_graphic_info bi)) c) (cpu k')
      (t\<lparr>io := (io t)\<lparr>dev := (fst (dev (io t)), snd (dev (io t)) @ [last_words])\<rparr>\<rparr>) \<and>
    bordered (bi_graphic_info bi) (memory (screen (kernel_crt k))) c"
proof -
  let ?gi = "bi_graphic_info bi" and ?top = "KERNEL_STACK_ptr pl + 0x100000"
  let ?k = "k\<lparr>rsp := ?top\<rparr>"
  have "unat (of_nat (KernelStack_len KernelStack_new) :: u64) = 0x100000" "(of_nat (KernelStack_len KernelStack_new) :: u64) = 0x100000"
    by (simp_all add: KernelStack_len_def KernelStack_new_def KERNEL_STACK_SIZE_def)
  then have top: "u64_add (KernelStack_as_ptr pl) (of_nat (KernelStack_len KernelStack_new)) = ret ?top"
    using assms(12) by (simp add: u64_add_def KernelStack_as_ptr_def)
  have "fresh_kernel items vec_ok ?k" "before_drivers pl rsdp fadt info ?k = before_drivers pl rsdp fadt info k" "DEVICES ?k = DEVICES k"
    using assms(1) by (simp_all add: fresh_kernel_def before_drivers_def)
  then obtain c p d u where boot: "kernel_boot pl pci_fuel apic_fuel bi ?k = (Ret (), ?k\<lparr>gdt_regs := kernel_gdt pl, page_tables := p,
      DEVICES := d, FADT_cell := Some fadt, cpu := u, interrupts_on := True\<rparr>)"
      "same_cpu (on_board (gi_width ?gi) (gi_height ?gi) c) u t" "bordered ?gi (memory (screen (kernel_crt k))) c" "identity_mapped (table_ptrs pl) p"
      "items (devices d) = enum_all (cfg (machine (DEVICES k))) pci_fuel"
    using kernel_boot_result [of items vec_ok ?k pl cfg bi pci_fuel rsdp fadt info apic_fuel t] assms(2-10) by auto
  define k1 where "k1 = ?k\<lparr>gdt_regs := kernel_gdt pl, page_tables := p, DEVICES := d, FADT_cell := Some fadt, cpu := u,
      interrupts_on := True\<rparr>"
  have u: "shows_log (gi_width ?gi) (gi_height ?gi) c (snd (dev (io t))) (kernel_crt k1)" "rest (dev (io u)) = fst (dev (io t))"
    using boot(2) by (simp_all add: same_cpu_def same_io_def on_board_def split_beta k1_def kernel_crt_def)
  have "MEMORY_MANAGER k1 = BitmapMemoryManager_new" "\<not> memory_manager_locked k1"
    using assms(1) by (simp_all add: k1_def fresh_kernel_def)
  from kernel_rest_result [OF u(1) this assms(11), of pl]
  obtain v m where v: "kernel_rest pl bi k1 = (Ret (), set_crt v (k1\<lparr>MEMORY_MANAGER := m\<rparr>))"
      "shows_log (gi_width ?gi) (gi_height ?gi) c (snd (dev (io t)) @ [last_words]) v"
      "{f. f < mm_end m \<and> f \<notin> allocated m} = available_frames (memory_types pl) (bi_memory_map bi)"
    by blast
  have "start_kernel pl pci_fuel apic_fuel bi k = (Ret (), set_crt v (k1\<lparr>MEMORY_MANAGER := m\<rparr>))"
    using boot(1) v(1)
    by (simp add: start_kernel_def switch_to_kernel_stack_def kernel_main_def top bnd_def update_def flip: k1_def)
  moreover have "kernel_up pl bi (set_crt v (k1\<lparr>MEMORY_MANAGER := m\<rparr>))"
    using assms(1) boot(4) v(3) by (simp add: kernel_up_def k1_def set_crt_def fresh_kernel_def)
  moreover have "same_cpu (on_board (gi_width ?gi) (gi_height ?gi) c) (cpu (set_crt v (k1\<lparr>MEMORY_MANAGER := m\<rparr>)))
      (t\<lparr>io := (io t)\<lparr>dev := (fst (dev (io t)), snd (dev (io t)) @ [last_words])\<rparr>\<rparr>)"
    using boot(2) u(2) v(2) by (simp add: same_cpu_def same_io_def on_board_def set_crt_def k1_def split_beta)
  moreover have "items (devices (DEVICES (set_crt v (k1\<lparr>MEMORY_MANAGER := m\<rparr>)))) = enum_all (cfg (machine (DEVICES k))) pci_fuel"
      "FADT_cell (set_crt v (k1\<lparr>MEMORY_MANAGER := m\<rparr>)) = Some fadt"
    using boot(5) by (simp_all add: k1_def set_crt_def)
  ultimately show ?thesis using boot(3) by blast
qed

text \<open>
  C1. The kernel boots. Take fresh statics; page tables, a vector of devices and PCI ports that meet their contracts, with at
  most 32 PCI functions; a 32-bit graphics mode of at least 1200 by 400 pixels below 64 GiB; a well-formed memory map; ACPI
  tables that are found; and suppose that \<open>ps2::init\<close> and \<open>interrupts::init\<close> return on this machine when a log takes
  the place of the console. Then \<open>_start\<close> gets to its halt loop without a panic, on the kernel's own stack, with the GDT
  loaded, the identity map of 64 GiB installed, the PCI functions listed, the interrupt controllers of the MADT set up and
  interrupts on; the devices are in the state, and saw the accesses, that the machine with the log has; the frames left free are
  those of available memory; and the screen shows the last 24 lines of the log on a cleared background, with every byte outside the frame buffer as it was. (Pixels
  are where the driver draws them, which is where the screen has them on a mode without padding.)
\<close>

theorem kernel_boots:
  assumes "fresh_kernel items vec_ok k" and "platform_ok pl cfg items vec_ok"
    and "mode_ok (bi_graphic_info bi)" and "1200 \<le> gi_width (bi_graphic_info bi)" and "400 \<le> gi_height (bi_graphic_info bi)"
    and "32 < pci_fuel" and "length (enum_all (cfg (machine (DEVICES k))) pci_fuel) \<le> 32"
    and "bi_rsdp_addr bi = Some \<lparr>phys_ptr = rsdp\<rparr>" and "tables_found (acpi_tables pl) rsdp = Some (fadt, info)"
    and "drivers_init (log_hw pl) apic_fuel (before_drivers pl rsdp fadt info k) = (Ret (), t)"
    and "wf_map 0 (bi_memory_map bi)" and "unat (KERNEL_STACK_ptr pl) + 0x100000 < 2 ^ 64"
  shows "\<exists>k' c. start_kernel pl pci_fuel apic_fuel bi k = (Ret (), k') \<and> kernel_up pl bi k' \<and>
    items (devices (DEVICES k')) = enum_all (cfg (machine (DEVICES k))) pci_fuel \<and> FADT_cell k' = Some fadt \<and>
    same_cpu (on_board (gi_width (bi_graphic_info bi)) (gi_height (bi_graphic_info bi)) c) (cpu k')
      (t\<lparr>io := (io t)\<lparr>dev := (fst (dev (io t)), snd (dev (io t)) @ [last_words])\<rparr>\<rparr>) \<and>
    bordered (bi_graphic_info bi) (memory (screen (kernel_crt k))) c"
  using assms by (rule kernel_boots_result)

section \<open>A machine that boots\<close>

text \<open>
  The PS/2 controller of \<open>Ps2_Init\<close>, an I/O APIC of three entries, a local APIC that is busy for one read, the tables of
  \<open>Acpi\<close> and the PCI functions of \<open>Pci\<close>.
\<close>

type_synonym demo_machine = "(u8 list \<times> u8 list list) \<times> u32 \<times> nat"

definition demo_platform :: "(demo_machine, u32 \<times> (u32 \<Rightarrow> u32), Device ArrayVec, nat, u16, u16) platform" where
  "demo_platform = \<lparr>
     port_in = (\<lambda>p (q, a). let (v, q) = inb scripted_hw p q in (v, (q, a))),
     port_out = (\<lambda>p v (q, a). (outb scripted_hw p v q, a)),
     register_in = (\<lambda>a (q, sel, busy). if a = 0xfec00010 then (if sel = 0 then 0 else 0x00020011, (q, sel, busy))
       else (if busy = 0 then 0 else 0x1000, (q, sel, busy - 1))),
     register_out = (\<lambda>a v (q, sel, busy). if a = 0xfec00000 then (q, v, busy) else (q, sel, busy)),
     msr_in = (\<lambda>r d. ((0, 0), d)), msr_out = (\<lambda>r hi lo d. d),
     pci_ports = register_io, vec_push = (\<lambda>x. unwrap (ArrayVec_push x)), SegmentSelector_new = (\<lambda>i r. push_bit 3 i OR r),
     Ring0 = 0, gdt_ptr = 0x10020000, table_ptrs = kernel_tables, KERNEL_STACK_ptr = 0x10200000, acpi_tables = sample_tables,
     memory_types = uefi_types\<rparr>"

definition demo_statics :: "(demo_machine, u32 \<times> (u32 \<Rightarrow> u32), Device ArrayVec, u16) kernel" where
  "demo_statics = \<lparr>cpu = \<lparr>io = \<lparr>dev = \<lparr>crt = fresh_terminal, rest = (dev working_ports, 0, 1)\<rparr>, trace = []\<rparr>, events = [],
       apic_info = None, LOCAL_APIC = None\<rparr>, rsp = 0x7000000, gdt_regs = boot_cpu, page_tables = paging_statics 0,
     DEVICES = \<lparr>machine = (0, sample_config), devices = ArrayVec_new DEVICE_CAPACITY\<rparr>, devices_locked = False,
     FADT_cell = None, MEMORY_MANAGER = BitmapMemoryManager_new, memory_manager_locked = False, interrupts_on = False\<rparr>"

definition demo_boot_info :: "nat BootInfo" where
  "demo_boot_info = \<lparr>bi_graphic_info = \<lparr>gi_width = 1280, gi_height = 800, gi_stride = 1280, gi_bytes_per_pixel = 4,
       gi_pixel_format = Bgr, gi_frame_buffer_addr = 0x80000000, gi_size = 4096000\<rparr>,
     bi_memory_map = small_map, bi_rsdp_addr = Some \<lparr>phys_ptr = 0x1000\<rparr>\<rparr>"

definition sample_apic :: ApicInfo where
  "sample_apic = \<lparr>info_local_apic_base = 0xfee00000, info_local_apic = \<lparr>lapic_processor_id = 0, lapic_apic_id = 0\<rparr>,
     info_io_apic = \<lparr>entry_io_apic_id = 0, entry_io_apic_address = 0xfec00000\<rparr>\<rparr>"

lemma sample_tables_found: "tables_found sample_tables 0x1000 = Some (0x8000, sample_apic)"
  by code_simp

text \<open>The drivers on that machine: the PS/2 controller cannot tell it from \<open>scripted_hw\<close>.\<close>

definition on_script :: "demo_machine \<times> string list \<Rightarrow> u8 list \<times> u8 list list \<Rightarrow> bool" where
  "on_script = (\<lambda>((q, a), l) q'. q = q' \<and> a = (0, 1))"

interpretation sc: same_ports "ports (log_hw demo_platform)" scripted_hw on_script
  by standard
    (auto simp: on_script_def log_hw_def demo_platform_def Let_def split_beta, auto simp: scripted_hw_def)

lemma demo_ps2_returns:
  "\<exists>q l tr. ps2_init (ports (log_hw demo_platform)) \<lparr>dev = ((dev working_ports, 0, 1), ls), trace = []\<rparr> =
    (Ret (), \<lparr>dev = ((q, 0, 1), l), trace = tr\<rparr>)"
proof -
  let ?s = "\<lparr>dev = ((dev working_ports, 0, 1), ls), trace = []\<rparr> :: (demo_machine \<times> string list) io_state"
  have s: "same_io on_script ?s working_ports" by (simp add: same_io_def on_script_def working_ports_def)
  have run: "ps2_init scripted_hw working_ports = (Ret (), snd (ps2_init scripted_hw working_ports))"
    by (simp add: prod_eq_iff working_ports_return)
  obtain t where t: "ps2_init (ports (log_hw demo_platform)) ?s = (Ret (), t)"
      "same_io on_script t (snd (ps2_init scripted_hw working_ports))"
    using simD [OF sc.sim_ps2_init s run] by (elim exE conjE)
  obtain q a l tr where "t = \<lparr>dev = ((q, a), l), trace = tr\<rparr>" by (cases t) auto
  moreover from this t(2) have "a = (0, 1)" by (simp add: same_io_def on_script_def)
  ultimately show ?thesis using t(1) by blast
qed

lemma demo_interrupts_return:
  "fst (interrupts_init (log_hw demo_platform) 3 \<lparr>io = \<lparr>dev = ((q, 0, 1), l), trace = tr\<rparr>, events = ev,
    apic_info = Some sample_apic, LOCAL_APIC = None\<rparr>) = Ret ()"
  by (simp add: cpu_run_defs log_hw_def demo_platform_def sample_apic_def upt_rec numeral_3_eq_3 split_beta)

lemma demo_drivers_return:
  "\<exists>t. drivers_init (log_hw demo_platform) 3 (before_drivers demo_platform 0x1000 0x8000 sample_apic demo_statics) = (Ret (), t)"
proof -
  let ?ls = "acpi_log sample_tables 0x1000 0x8000"
  obtain q l tr where "ps2_init (ports (log_hw demo_platform)) \<lparr>dev = ((dev working_ports, 0, 1), ?ls), trace = []\<rparr> =
      (Ret (), \<lparr>dev = ((q, 0, 1), l), trace = tr\<rparr>)"
    using demo_ps2_returns by blast
  moreover have "acpi_tables demo_platform = sample_tables" by (simp add: demo_platform_def)
  ultimately have "drivers_init (log_hw demo_platform) 3 (before_drivers demo_platform 0x1000 0x8000 sample_apic demo_statics) =
      interrupts_init (log_hw demo_platform) 3 \<lparr>io = \<lparr>dev = ((q, 0, 1), l), trace = tr\<rparr>, events = [],
        apic_info = Some sample_apic, LOCAL_APIC = None\<rparr>"
    by (simp add: drivers_init_def before_drivers_def demo_statics_def log_cpu_def on_io_def zoom_def bnd_def)
  then show ?thesis using demo_interrupts_return by (metis prod.collapse)
qed

lemma demo_fresh: "fresh_kernel ArrayVec_items (ArrayVec_wf DEVICE_CAPACITY) demo_statics"
  using fresh_terminal_ok new_device_vec by (auto simp: fresh_kernel_def demo_statics_def kernel_crt_def boot_cpu_def)

lemma demo_platform_ok: "platform_ok demo_platform snd ArrayVec_items (ArrayVec_wf DEVICE_CAPACITY)"
  using register_io_mechanism dv.device_vec_axioms
  by (simp add: platform_ok_def demo_platform_def) (simp add: wf_addrs_def kernel_tables_def Let_def)

lemma demo_mode_ok: "mode_ok (bi_graphic_info demo_boot_info)"
  by (simp add: mode_ok_def demo_boot_info_def PAGE_SIZE_1G_def)

theorem kernel_boots_witness:
  "\<exists>k. start_kernel demo_platform 33 3 demo_boot_info demo_statics = (Ret (), k) \<and> kernel_up demo_platform demo_boot_info k \<and>
    ArrayVec_items (devices (DEVICES k)) = [device_at sample_config 0 0 0, device_at sample_config 0 1 0, device_at sample_config 1 0 0]"
proof -
  obtain t where t: "drivers_init (log_hw demo_platform) 3
      (before_drivers demo_platform 0x1000 0x8000 sample_apic demo_statics) = (Ret (), t)"
    using demo_drivers_return by blast
  have facts: "acpi_tables demo_platform = sample_tables" "KERNEL_STACK_ptr demo_platform = 0x10200000"
      "snd (machine (DEVICES demo_statics)) = sample_config" "gi_width (bi_graphic_info demo_boot_info) = 1280"
      "gi_height (bi_graphic_info demo_boot_info) = 800" "bi_rsdp_addr demo_boot_info = Some \<lparr>phys_ptr = 0x1000\<rparr>"
      "bi_memory_map demo_boot_info = small_map"
    by (simp_all add: demo_platform_def demo_statics_def demo_boot_info_def)
  show ?thesis
    using kernel_boots [OF demo_fresh demo_platform_ok demo_mode_ok, of 33 "0x1000" "0x8000" sample_apic 3 t] t
      sample_enum sample_tables_found small_map_wf facts by auto
qed

end
