(* ===== verification/Kernel_Run.thy ===== *)
theory Kernel_Run
  imports Kernel_Main
begin

text \<open>
  The kernel after it has enabled interrupts, and the kernel when it panics. \<open>kernel_step\<close> is a labelled step relation: a
  step is a step of \<open>main\<close> or an interrupt, which runs its handler of \<open>interrupts.rs\<close> to the end (the gates of the
  descriptor table disable interrupts). A vector whose gate is missing, such as 51 and 255, which \<open>init_apic\<close> programs into
  the local APIC, faults twice and ends in the handler for double faults. The last \<open>kprintln!\<close> of \<open>main\<close> is split where the console lock is taken and released,
  since a handler that prints panics while it is held. The invariants are proved by induction over runs.
\<close>

section \<open>Panics during boot\<close>

text \<open>What \<open>panic!()\<close> at a place of the source tells the handler; its text has two lines.\<close>

definition explicit_panic :: "string \<Rightarrow> nat \<Rightarrow> nat \<Rightarrow> PanicInfo" where
  "explicit_panic source line col =
     \<lparr>panic_message = [''explicit panic''], panic_file = source, panic_line = line, panic_column = col\<rparr>"

lemma explicit_panic_text:
  assumes "plain source" "length source \<le> 100" "line < 2 ^ 32" "col < 2 ^ 32"
  shows "list_all (\<lambda>p. as_ascii p = Some p) (PanicInfo_fmt (explicit_panic source line col))"
    and "concat (PanicInfo_fmt (explicit_panic source line col)) =
      (''panicked at '' @ source @ '':'' @ decimal line @ '':'' @ decimal col @ '':'') @ CHR 0x0A # ''explicit panic''"
    and "plain (''panicked at '' @ source @ '':'' @ decimal line @ '':'' @ decimal col @ '':'')"
    and "plain ''explicit panic''"
proof -
  have fixed: "plain ''panicked at ''" "plain '':''" "plain ''explicit panic''" "as_ascii ('':'' @ [CHR 0x0A]) = Some ('':'' @ [CHR 0x0A])"
    by code_simp+
  note parts = fixed plain_decimal [OF assms(3)] plain_decimal [OF assms(4)] assms(1,2)
  show "list_all (\<lambda>p. as_ascii p = Some p) (PanicInfo_fmt (explicit_panic source line col))"
    using parts by (simp add: PanicInfo_fmt_def explicit_panic_def plain_text)
  show "plain (''panicked at '' @ source @ '':'' @ decimal line @ '':'' @ decimal col @ '':'')"
    using parts unfolding plain_append by simp
qed (simp_all add: PanicInfo_fmt_def explicit_panic_def, code_simp)

lemma kernel_boot_panics:
  "on_crt (start_screen (bi_graphic_info bi)) k = (Panic, k') \<Longrightarrow> kernel_main pl pci_fuel apic_fuel bi k = (Panic, k')"
  by (simp add: kernel_main_def kernel_boot_def bnd_def)

lemma kprintln_locked: "console_locked c \<Longrightarrow> kprintln_fmt ps c = (Panic, c)"
  by (simp add: kprintln_fmt_def kprint_eq with_console_def unwrap_def bnd_def get_def ret_def panic_def)

text \<open>
  C36. On a screen with fewer than 1200 columns or 400 rows \<open>main\<close> panics in its second statement, and it panics with the
  console locked: the panic handler, which prints, panics in its first statement, so that nothing is ever shown.
\<close>

theorem small_screen_panics:
  assumes "mode_ok (bi_graphic_info bi)" and "gi_width (bi_graphic_info bi) < 1200 \<or> gi_height (bi_graphic_info bi) < 400"
    and "\<not> frame_buf_locked (screen (kernel_crt k))" and "\<not> console_locked (kernel_crt k)"
  shows "\<exists>k'. kernel_main pl pci_fuel apic_fuel bi k = (Panic, k') \<and> console_locked (kernel_crt k') \<and>
    (\<forall>info. panic_handler info k' = (Panic, k'))"
proof -
  let ?gi = "bi_graphic_info bi" and ?c = "kernel_crt k"
  obtain t where t: "with_frame_buf (bnd (unwrap (FrameBuf_init ?gi 0x28282800)) (\<lambda>_. ret (Ok ()))) (screen ?c) = (Ret (Ok ()), t)"
      "fb_ok (gi_width ?gi) (gi_height ?gi) t" "\<not> frame_buf_locked t"
    using start_frame_buffer [OF assms(1,3)] by blast
  let ?d = "?c\<lparr>screen := t, console_locked := True\<rparr>"
  obtain u where "Console_init console_bg console_fg ?d = (Ret (Err (FrameBufferError OutsideBufferError)), u)"
      "console_locked u"
    using console_init_small [of "gi_width ?gi" "gi_height ?gi" ?d] t(2,3) assms(2) by fastforce
  then have "start_screen ?gi ?c = (Panic, u)"
    using t(1) assms(4) by (simp add: start_screen_def unwrap_def on_screen_def zoom_def with_console_def bnd_def get_def
        update_def ret_def panic_def)
  with \<open>console_locked u\<close> kernel_boot_panics [of bi k "set_crt u k" pl pci_fuel apic_fuel] show ?thesis
    by (intro exI [of _ "set_crt u k"]) (simp add: on_crt_def zoom_def panic_handler_def bnd_def kprintln_locked, simp add: set_crt_def kernel_crt_def)
qed

text \<open>
  C37. Without an RSDP in the boot information \<open>main\<close> clears the screen, sets up the GDT, the page tables and the PCI
  list, prints why, and panics with the console free: the panic handler prints \<open>[panic]\<close>, where the panic happened, and its message below that line.
\<close>

theorem missing_rsdp_panics:
  assumes "fresh_kernel items vec_ok k" and "platform_ok pl cfg items vec_ok"
    and "mode_ok (bi_graphic_info bi)" and "1200 \<le> gi_width (bi_graphic_info bi)" and "400 \<le> gi_height (bi_graphic_info bi)"
    and "32 < pci_fuel" and "length (enum_all (cfg (machine (DEVICES k))) pci_fuel) \<le> 32" and "bi_rsdp_addr bi = None"
    and "plain source" and "length source \<le> 100" and "line < 2 ^ 32" and "col < 2 ^ 32"
  shows "\<exists>k' k''. kernel_main pl pci_fuel apic_fuel bi k = (Panic, k') \<and> 
    panic_handler (explicit_panic source line col) k' = (Ret (), k'') \<and>
    represents (gi_width (bi_graphic_info bi)) (gi_height (bi_graphic_info bi)) console_bg console_fg (kernel_crt k'')
      (log_lines [''RSDP adderss wan't found. The kernel will panic.'', ''[panic]'',
        ''panicked at '' @ source @ '':'' @ decimal line @ '':'' @ decimal col @ '':'', ''explicit panic''])"
proof -
  let ?W = "gi_width (bi_graphic_info bi)" and ?H = "gi_height (bi_graphic_info bi)"
  let ?msg = "''RSDP adderss wan't found. The kernel will panic.''"
  obtain c k1 where k1: "kernel_boot pl pci_fuel apic_fuel bi k =
      bnd (start_acpi pl (bi_rsdp_addr bi)) (\<lambda>_. bnd (on_cpu (drivers_init (board_hw pl) apic_fuel)) (\<lambda>_.
        update (\<lambda>k. k\<lparr>interrupts_on := True\<rparr>))) k1" "shows_log ?W ?H c [] c" "kernel_crt k1 = c"
    using kernel_boot_starts [OF assms(1-7), of apic_fuel] kernel_crt_simps(1) by blast
  have plain: "as_ascii ?msg = Some ?msg" "plain ?msg" "as_ascii ''[panic]'' = Some ''[panic]''" "plain ''[panic]''" by code_simp+
  obtain u where u: "kprintln_fmt [?msg] c = (Ret (), u)" "shows_log ?W ?H c [?msg] u"
    using kprintln_logs [OF k1(2), of "[?msg]"] plain by auto
  obtain v where v: "kprintln_fmt [''[panic]''] u = (Ret (), v)" "shows_log ?W ?H c [?msg, ''[panic]''] v"
    using kprintln_logs [OF u(2), of "[''[panic]'']"] plain by auto
  let ?info = "explicit_panic source line col"
  let ?place = "''panicked at '' @ source @ '':'' @ decimal line @ '':'' @ decimal col @ '':''"
  obtain w where w: "kprintln_fmt (PanicInfo_fmt ?info) v = (Ret (), w)"
      "represents ?W ?H console_bg console_fg w (log_lines [?msg, ''[panic]'', ?place, ''explicit panic''])"
    using kprintln_logs_two [OF v(2) explicit_panic_text(1-4) [OF assms(9-12)]] by (auto simp: shows_log_def)
  have main: "kernel_main pl pci_fuel apic_fuel bi k = (Panic, set_crt u k1)"
    using u(1) k1(3) by (simp add: kernel_main_def k1(1) start_acpi_def assms(8) on_crt_def zoom_def bnd_def panic_def)
  have "panic_handler ?info (set_crt u k1) = (Ret (), set_crt w (set_crt v (set_crt u k1)))"
    using v(1) w(1) by (simp add: panic_handler_def on_crt_def zoom_def bnd_def)
  with main w(2) show ?thesis
    by (intro exI [of _ "set_crt u k1"] exI [of _ "set_crt w (set_crt v (set_crt u k1))"]) simp
qed

section \<open>The running kernel\<close>

text \<open>
  Where the kernel is: at a step of \<open>main\<close>, in its halt loop, or in the panic handler, with the console free (\<open>Stopped\<close>) or
  locked (\<open>Crashed\<close>).
\<close>

datatype pc = Memory | Print | Printing | Break | Breaking | Idle | Crashed | Stopped

datatype label = Main | Irq u8

fun next_pc :: "pc \<Rightarrow> pc" where
  "next_pc Memory = Print"
| "next_pc Print = Printing"
| "next_pc Printing = Break"
| "next_pc Break = Breaking"
| "next_pc Breaking = Idle"
| "next_pc pc = pc"

text \<open>\<open>console()\<close> takes the lock; dropping the guard releases it.\<close>

definition take_console :: "(terminal, unit) prog" where
  "take_console = bnd get (\<lambda>c. if console_locked c then panic else update (\<lambda>c. c\<lparr>console_locked := True\<rparr>))"

definition drop_console :: "(terminal, unit) prog" where
  "drop_console = update (\<lambda>c. c\<lparr>console_locked := False\<rparr>)"

text \<open>The steps of \<open>main\<close> after \<open>enable()\<close>: the memory manager, then \<open>kprintln!\<close> with its two uses of the console.\<close>

fun main_step ::
    "('d, 'q, 'v, 't, 's, 'r) platform \<Rightarrow> 't BootInfo \<Rightarrow> pc \<Rightarrow> (('d, 'q, 'v, 's) kernel, unit) prog" where
  "main_step pl bi Memory = with_mem_manager (BitmapMemoryManager_init (memory_types pl) (bi_memory_map bi))"
| "main_step pl bi Print = on_crt take_console"
| "main_step pl bi Printing = on_crt (bnd (for_each [last_words] Console_print) (\<lambda>_. drop_console))"
| "main_step pl bi Break = on_crt take_console"
| "main_step pl bi Breaking = on_crt (bnd (Console_println '''') (\<lambda>_. drop_console))"
| "main_step pl bi pc = ret ()"

text \<open>
  The handler that an interrupt ends up in: a gate that is not present raises a fault (segment not present), whose gate is not
  present either, and the second fault is a double fault.
\<close>

definition gate :: "u8 \<Rightarrow> handler" where
  "gate v = (case IDT v of Some h \<Rightarrow> h | None \<Rightarrow> Double_fault_handler)"

definition panic_pc :: "('d, 'q, 'v, 's) kernel \<Rightarrow> pc" where
  "panic_pc k = (if console_locked (kernel_crt k) then Crashed else Stopped)"

inductive kernel_step ::
    "('d, 'q, 'v, 't, 's, 'r) platform \<Rightarrow> 't BootInfo \<Rightarrow> pc \<times> ('d, 'q, 'v, 's) kernel \<Rightarrow> label \<Rightarrow>
      pc \<times> ('d, 'q, 'v, 's) kernel \<Rightarrow> bool"
  for pl bi where
  step_main: "pc \<notin> {Idle, Crashed, Stopped} \<Longrightarrow> main_step pl bi pc k = (Ret (), k') \<Longrightarrow>
    kernel_step pl bi (pc, k) Main (next_pc pc, k')"
| step_main_panic: "pc \<notin> {Idle, Crashed, Stopped} \<Longrightarrow> main_step pl bi pc k = (Panic, k') \<Longrightarrow>
    kernel_step pl bi (pc, k) Main (panic_pc k', k')"
| step_irq: "pc \<notin> {Crashed, Stopped} \<Longrightarrow> interrupts_on k \<Longrightarrow> 32 \<le> v \<Longrightarrow>
    on_cpu (run_handler (board_hw pl) (gate v)) k = (Ret (), k') \<Longrightarrow> kernel_step pl bi (pc, k) (Irq v) (pc, k')"
| step_irq_panic: "pc \<notin> {Crashed, Stopped} \<Longrightarrow> interrupts_on k \<Longrightarrow> 32 \<le> v \<Longrightarrow>
    on_cpu (run_handler (board_hw pl) (gate v)) k = (Panic, k') \<Longrightarrow> kernel_step pl bi (pc, k) (Irq v) (panic_pc k', k')"

inductive_cases kernel_stepE: "kernel_step pl bi s l t"

inductive kernel_run ::
    "('d, 'q, 'v, 't, 's, 'r) platform \<Rightarrow> 't BootInfo \<Rightarrow> pc \<times> ('d, 'q, 'v, 's) kernel \<Rightarrow> label list \<Rightarrow>
      pc \<times> ('d, 'q, 'v, 's) kernel \<Rightarrow> bool"
  for pl bi s where
  run_start: "kernel_run pl bi s [] s"
| run_step: "kernel_run pl bi s ls t \<Longrightarrow> kernel_step pl bi t l u \<Longrightarrow> kernel_run pl bi s (ls @ [l]) u"

section \<open>Without interrupts\<close>

lemma on_crt_bnd: "on_crt (bnd m f) = bnd (on_crt m) (\<lambda>x. on_crt (f x))"
proof
  fix k :: "('a, 'b, 'c, 'd) kernel"
  have "set_crt c (set_crt c' k) = set_crt c k" for c c' by (simp add: set_crt_def)
  then show "on_crt (bnd m f) k = bnd (on_crt m) (\<lambda>x. on_crt (f x)) k"
    by (simp add: on_crt_def zoom_def bnd_def split: prod.split outcome.split)
qed

lemma with_console_steps:
  "unwrap (with_console m) = bnd take_console (\<lambda>_. bnd m (\<lambda>r. bnd drop_console (\<lambda>_. ret r)))"
  by (rule ext) (simp add: with_console_def take_console_def drop_console_def unwrap_def bnd_def get_def update_def ret_def
      panic_def split: prod.split outcome.split)

lemma kprintln_steps:
  "kprintln_fmt ps = bnd take_console (\<lambda>_. bnd (bnd (for_each ps Console_print) (\<lambda>_. drop_console)) (\<lambda>_.
     bnd take_console (\<lambda>_. bnd (Console_println '''') (\<lambda>_. drop_console))))"
proof -
  have unit: "bnd m (\<lambda>r. bnd drop_console (\<lambda>_. ret r)) = bnd m (\<lambda>_. drop_console)" for m :: "(terminal, unit) prog"
    by (rule ext) (simp add: bnd_def drop_console_def update_def ret_def split: prod.split outcome.split)
  show ?thesis by (simp add: kprintln_fmt_def kprint_eq println_def with_console_steps unit bnd_assoc)
qed

text \<open>
  The steps are those of the code: run one after the other, with no interrupt between them, the five steps are the
  rest of \<open>main\<close>.
\<close>

lemma main_steps_are_main:
  "for_each [Memory, Print, Printing, Break, Breaking] (main_step pl bi) = kernel_rest pl bi"
  by (simp add: kernel_rest_def kprintln_steps on_crt_bnd)

section \<open>Interrupts\<close>

fun handler_text :: "handler \<Rightarrow> string option" where
  "handler_text Keyboard_interrupt_handler = Some ''pressed''"
| "handler_text Mouse_interrupt_handler = Some ''moved.''"
| "handler_text Breakpoint_handler = Some ''breakpoint exception occured.''"
| "handler_text _ = None"

lemma ports_keep_console:
  "preserves (\<lambda>s. crt (dev s) = c) (port_read (ports (board_hw pl)) p)"
  by (rule preservesI) (simp add: port_read_def board_hw_def Let_def split_beta)

lemma read_data_keeps_console: "preserves (\<lambda>s. crt (dev s) = c) (Controller_read_data (ports (board_hw pl)) ctl)"
proof -
  have "preserves (\<lambda>s. crt (dev s) = c) (poll (ports (board_hw pl)) ctl ready n)" for ready n
    by (induction n) (simp_all add: read_status_eq preserves_rules ports_keep_console)
  then show ?thesis
    by (simp add: Controller_read_data_def wait_for_read_def preserves_rules ports_keep_console)
qed

lemma flush_keeps_console: "preserves (\<lambda>s. crt (dev s) = c) (flush_data_port (ports (board_hw pl)) ctl)"
proof -
  have "preserves (\<lambda>s. crt (dev s) = c) (flush_loop (ports (board_hw pl)) ctl n)" for n
    by (induction n) (simp_all add: read_status_eq preserves_rules ports_keep_console read_data_keeps_console)
  then show ?thesis by (simp add: flush_data_port_def)
qed

lemma quiet_io:
  assumes "returns m" "\<And>c. preserves (\<lambda>s. crt (dev s) = c) m"
  shows "\<exists>x t. on_io m s = (Ret x, t) \<and> keeps_apic s t \<and> crt (dev (io t)) = crt (dev (io s))"
proof -
  obtain x t where "m (io s) = (Ret x, t)" using returnsD [OF assms(1)] by blast
  moreover have "crt (dev t) = crt (dev (io s))"
    using preservesD [OF assms(2) [of "crt (dev (io s))"], of "io s"] calculation by simp
  ultimately show ?thesis by (simp add: on_io_def zoom_def keeps_apic_def)
qed

lemma board_prints:
  assumes "kprintln_fmt [msg] (crt (dev (io s))) = (r, u)"
  shows "\<exists>t. cpu_kprintln (board_hw pl) msg s = (r, t) \<and> keeps_apic s t \<and> crt (dev (io t)) = u"
  using assms by (simp add: cpu_kprintln_def kprintln_def on_io_def zoom_def board_hw_def keeps_apic_def)

lemma board_acknowledges:
  assumes "LOCAL_APIC s = Some a" "lapic_aligned a"
  shows "\<exists>t. end_of_interrupt (board_hw pl) s = (Ret (), t) \<and> events t = MmioWrite (ucast a + 0xb0) 0 # events s \<and>
    LOCAL_APIC t = Some a \<and> crt (dev (io t)) = crt (dev (io s))"
  using assms lapic_mmio_ok [of "0xb0 div 4" a] by (simp add: end_of_interrupt_def LOCAL_APIC_wait_def write_end_of_interrupt_register_def LocalApic_write_def
      write_volatile_def board_hw_def bnd_def get_def ret_def)

lemma prints_then_acknowledges:
  assumes "LOCAL_APIC s = Some a" "lapic_aligned a" "kprintln_fmt [msg] (crt (dev (io s))) = (r, u)"
  shows "\<exists>t. bnd (cpu_kprintln (board_hw pl) msg) (\<lambda>_. end_of_interrupt (board_hw pl)) s = (r, t) \<and>
    events t = (if r = Ret () then [MmioWrite (ucast a + 0xb0) 0] else []) @ events s \<and> LOCAL_APIC t = Some a \<and>
    crt (dev (io t)) = u"
proof -
  obtain t where t: "cpu_kprintln (board_hw pl) msg s = (r, t)" "keeps_apic s t" "crt (dev (io t)) = u"
    using board_prints [OF assms(3)] by blast
  then show ?thesis
    using assms(1,2) board_acknowledges [of t a pl] by (cases r) (auto simp: bnd_def keeps_apic_def)
qed

text \<open>A handler does what its message does: it acknowledges the interrupt after printing, or panics with the console.\<close>

lemma handler_on_board:
  assumes "LOCAL_APIC s = Some a" "lapic_aligned a" "h \<noteq> Double_fault_handler"
    and "case handler_text h of None \<Rightarrow> r = Ret () \<and> u = crt (dev (io s))
      | Some msg \<Rightarrow> kprintln_fmt [msg] (crt (dev (io s))) = (r, u)"
  shows "\<exists>t. run_handler (board_hw pl) h s = (r, t) \<and>
    events t = (if r = Ret () then [MmioWrite (ucast a + 0xb0) 0] else []) @ events s \<and> LOCAL_APIC t = Some a \<and>
    crt (dev (io t)) = u"
proof -
  have work: "\<exists>t. bnd (on_io m) (\<lambda>_. bnd (cpu_kprintln (board_hw pl) msg) (\<lambda>_. end_of_interrupt (board_hw pl))) s = (r, t) \<and>
      events t = (if r = Ret () then [MmioWrite (ucast a + 0xb0) 0] else []) @ events s \<and> LOCAL_APIC t = Some a \<and>
      crt (dev (io t)) = u"
    if quiet: "returns m" "\<And>c. preserves (\<lambda>s. crt (dev s) = c) m" and print: "kprintln_fmt [msg] (crt (dev (io s))) = (r, u)" for m msg
  proof -
    obtain x v where "on_io m s = (Ret x, v)" "keeps_apic s v" "crt (dev (io v)) = crt (dev (io s))"
      using quiet_io [OF quiet] by blast
    with print assms(1,2) prints_then_acknowledges [of v a msg r u pl] show ?thesis
      by (simp add: bnd_Ret [of "on_io m" s] keeps_apic_def)
  qed
  have key: "returns (Keyboard_read_data (ports (board_hw pl)) Controller_new)"
      "\<And>c. preserves (\<lambda>s. crt (dev s) = c) (Keyboard_read_data (ports (board_hw pl)) Controller_new)"
    by (simp_all add: Keyboard_read_data_def returns_rules preserves_rules read_data_keeps_console)
  show ?thesis
  proof (cases h)
    case Keyboard_interrupt_handler
    then show ?thesis using work [OF key] assms(4) by (simp add: keyboard_interrupt_handler_def)
  next
    case Mouse_interrupt_handler
    then show ?thesis
      using work [OF returns_flush_data_port flush_keeps_console [of _ pl Controller_new]] assms(4) by (simp add: mouse_interrupt_handler_def)
  next
    case Breakpoint_handler
    then show ?thesis using prints_then_acknowledges [OF assms(1,2), where pl = pl] assms(4) by (simp add: breakpoint_handler_def)
  next
    case Timer_interrupt_handler
    then show ?thesis using board_acknowledges [OF assms(1,2), of pl] assms(4) by (simp add: timer_interrupt_handler_def)
  qed (simp add: assms(3))
qed

text \<open>
  The initialisation of the memory manager is one step of the relation. An interrupt inside it makes no difference: a handler
  works on the processor and the board, the manager is a static that no handler looks at, so a handler that runs between two
  parts of the initialisation does the same before both of them, or after both.
\<close>

lemma handler_inside_memory_init:
  assumes "m (MEMORY_MANAGER k) = (Ret (), mm)" "n mm = (Ret (), mm')" "f (cpu k) = (Ret (), c)"
  defines "mem w \<equiv> zoom MEMORY_MANAGER (\<lambda>t k. k\<lparr>MEMORY_MANAGER := t\<rparr>) w"
  shows "bnd (mem m) (\<lambda>_. bnd (on_cpu f) (\<lambda>_. mem n)) k = bnd (on_cpu f) (\<lambda>_. mem (bnd m (\<lambda>_. n))) k"
    and "bnd (mem m) (\<lambda>_. bnd (on_cpu f) (\<lambda>_. mem n)) k = bnd (mem (bnd m (\<lambda>_. n))) (\<lambda>_. on_cpu f) k"
  using assms by (simp_all add: bnd_def zoom_def on_cpu_def)

section \<open>What a running kernel shows\<close>

text \<open>
  The abstract machine: where \<open>main\<close> is, the terminal, and how many interrupts were acknowledged. An interrupt whose handler
  prints, and that arrives while \<open>main\<close> holds the console, ends everything, and so does an interrupt without a gate.
\<close>

type_synonym view = "pc \<times> term_state \<times> nat"

fun main_text :: "pc \<Rightarrow> string" where
  "main_text Printing = last_words"
| "main_text Breaking = [CHR 0x0A]"
| "main_text _ = []"

definition irq_text :: "u8 \<Rightarrow> string option" where
  "irq_text v = Option.bind (IDT v) handler_text"

fun view_step :: "label \<Rightarrow> view \<Rightarrow> view" where
  "view_step Main (pc, t, n) = (next_pc pc, term_puts (main_text pc) t, n)"
| "view_step (Irq v) (pc, t, n) = (if IDT v = None then (if pc \<in> {Printing, Breaking} then Crashed else Stopped, t, n)
    else case irq_text v of
      None \<Rightarrow> (pc, t, n + 1)
    | Some msg \<Rightarrow> if pc \<in> {Printing, Breaking} then (Crashed, t, n) else (pc, term_puts (msg @ [CHR 0x0A]) t, n + 1))"

text \<open>A state of the kernel and its view: \<open>c\<close> is a terminal with the same screen around the console, \<open>a\<close> the local APIC,
  \<open>ev\<close> the accesses to the interrupt controllers before.\<close>

definition viewed ::
    "nat \<Rightarrow> nat \<Rightarrow> terminal \<Rightarrow> u32 \<Rightarrow> cpu_event list \<Rightarrow> pc \<times> ('d, 'q, 'v, 's) kernel \<Rightarrow> view \<Rightarrow> bool" where
  "viewed W H c a ev = (\<lambda>(pc, k) (pc', t, n). pc = pc' \<and> represents W H console_bg console_fg (kernel_crt k) t \<and>
     beyond W H (screen (kernel_crt k)) = beyond W H (screen c) \<and>
     (console_locked (kernel_crt k) \<longleftrightarrow> pc \<in> {Printing, Breaking, Crashed}) \<and> LOCAL_APIC (cpu k) = Some a \<and> lapic_aligned a \<and>
     events (cpu k) = replicate n (MmioWrite (ucast a + 0xb0) 0) @ ev \<and> interrupts_on k \<and>
     (pc = Memory \<longrightarrow> MEMORY_MANAGER k = BitmapMemoryManager_new \<and> \<not> memory_manager_locked k))"

lemma set_crt_other [simp]:
  "LOCAL_APIC (cpu (set_crt u k)) = LOCAL_APIC (cpu k)" "events (cpu (set_crt u k)) = events (cpu k)"
  "interrupts_on (set_crt u k) = interrupts_on k"
  by (simp_all add: set_crt_def)

lemma take_console_result: "\<not> console_locked c \<Longrightarrow> take_console c = (Ret (), c\<lparr>console_locked := True\<rparr>)"
  by (simp add: take_console_def bnd_def get_def update_def)

lemma printing_result:
  assumes "represents W H bg fg c t"
  shows "\<exists>u. bnd (for_each [last_words] Console_print) (\<lambda>_. drop_console) c = (Ret (), u) \<and>
      represents W H bg fg u (term_puts last_words t) \<and> beyond W H (screen u) = beyond W H (screen c) \<and> \<not> console_locked u"
    and "\<exists>u. bnd (Console_println '''') (\<lambda>_. drop_console) c = (Ret (), u) \<and>
      represents W H bg fg u (term_puts [CHR 0x0A] t) \<and> beyond W H (screen u) = beyond W H (screen c) \<and> \<not> console_locked u"
proof -
  have "as_ascii last_words = Some last_words" by code_simp
  then obtain u where "for_each [last_words] Console_print c = (Ret (), u)" "represents W H bg fg u (term_puts last_words t)"
      "keeps W H c u"
    using wpD [OF print_pieces_refine [OF assms, of "[last_words]"]] by auto
  then show "\<exists>u. bnd (for_each [last_words] Console_print) (\<lambda>_. drop_console) c = (Ret (), u) \<and>
      represents W H bg fg u (term_puts last_words t) \<and> beyond W H (screen u) = beyond W H (screen c) \<and> \<not> console_locked u"
    by (intro exI [of _ "u\<lparr>console_locked := False\<rparr>"])
      (simp add: bnd_Ret [of "Console_print last_words" c] drop_console_def update_def keeps_def)
  obtain v where "new_line c = (Ret (), v)" "represents W H bg fg v (term_puts [CHR 0x0A] t)" "keeps W H c v"
    using wpD [OF new_line_refines [OF assms]] by (auto simp: term_puts_def)
  then show "\<exists>u. bnd (Console_println '''') (\<lambda>_. drop_console) c = (Ret (), u) \<and>
      represents W H bg fg u (term_puts [CHR 0x0A] t) \<and> beyond W H (screen u) = beyond W H (screen c) \<and> \<not> console_locked u"
    by (intro exI [of _ "v\<lparr>console_locked := False\<rparr>"])
      (simp add: Console_println_def Console_print_def as_ascii_def expect_def bnd_Ret [of new_line c] drop_console_def update_def keeps_def)
qed

text \<open>Every step of \<open>main\<close> succeeds, and is the step of the abstract machine.\<close>

lemma main_step_view:
  assumes "viewed W H c a ev (pc, k) w" "pc \<notin> {Idle, Crashed, Stopped}" "wf_map 0 (bi_memory_map bi)"
  shows "\<exists>k'. main_step pl bi pc k = (Ret (), k') \<and> viewed W H c a ev (next_pc pc, k') (view_step Main w)"
proof -
  obtain t n where w: "w = (pc, t, n)" using assms(1) by (cases w) (auto simp: viewed_def)
  note k = assms(1) [unfolded w viewed_def prod.case]
  then have rep: "represents W H console_bg console_fg (kernel_crt k) t" by simp
  show ?thesis
  proof (cases pc)
    case Memory
    obtain m where "BitmapMemoryManager_init (memory_types pl) (bi_memory_map bi) BitmapMemoryManager_new = (Ret (), m)"
      using wpD [OF memory_init_result [OF assms(3), of "memory_types pl"]] by auto
    then have "main_step pl bi Memory k = (Ret (), k\<lparr>MEMORY_MANAGER := m\<rparr>)"
      using k Memory by (cases k) (simp add: with_mem_manager_def bnd_def get_def update_def zoom_def ret_def)
    then show ?thesis using k Memory by (simp add: w viewed_def term_puts_def)
  next
    case Print
    then show ?thesis
      using k take_console_result [of "kernel_crt k"] by (simp add: w viewed_def on_crt_def zoom_def term_puts_def)
  next
    case Printing
    then show ?thesis
      using k printing_result(1) [OF rep] by (auto simp: w viewed_def on_crt_def zoom_def)
  next
    case Break
    then show ?thesis
      using k take_console_result [of "kernel_crt k"] by (simp add: w viewed_def on_crt_def zoom_def term_puts_def)
  next
    case Breaking
    then show ?thesis
      using k printing_result(2) [OF rep] by (auto simp: w viewed_def on_crt_def zoom_def)
  qed (use assms(2) in simp_all)
qed

text \<open>Every interrupt is served, or crashes the kernel, as the abstract machine says.\<close>

lemma irq_handler: "32 \<le> v \<Longrightarrow> IDT v = Some h \<Longrightarrow> h \<noteq> Double_fault_handler"
  by (auto simp: IDT_def split: if_splits)

lemma handler_on_kernel:
  assumes "LOCAL_APIC (cpu k) = Some a" "lapic_aligned a" "h \<noteq> Double_fault_handler"
    and "case handler_text h of None \<Rightarrow> r = Ret () \<and> u = kernel_crt k | Some msg \<Rightarrow> kprintln_fmt [msg] (kernel_crt k) = (r, u)"
  shows "\<exists>k'. on_cpu (run_handler (board_hw pl) h) k = (r, k') \<and> events (cpu k') =
      (if r = Ret () then [MmioWrite (ucast a + 0xb0) 0] else []) @ events (cpu k) \<and> LOCAL_APIC (cpu k') = Some a \<and>
      kernel_crt k' = u \<and> interrupts_on k' = interrupts_on k \<and> MEMORY_MANAGER k' = MEMORY_MANAGER k \<and>
      memory_manager_locked k' = memory_manager_locked k"
proof -
  obtain t where "run_handler (board_hw pl) h (cpu k) = (r, t)" "crt (dev (io t)) = u" "LOCAL_APIC t = Some a"
      "events t = (if r = Ret () then [MmioWrite (ucast a + 0xb0) 0] else []) @ events (cpu k)"
    using handler_on_board [OF assms(1-3), of r u pl] assms(4) unfolding kernel_crt_def by blast
  then show ?thesis
    by (intro exI [of _ "k\<lparr>cpu := t\<rparr>"]) (simp add: on_cpu_def zoom_def kernel_crt_def)
qed

lemma double_fault_on_kernel: "on_cpu double_fault_handler k = (Panic, k)"
  by (simp add: on_cpu_def zoom_def double_fault_handler_def panic_def)

lemma irq_step_view:
  assumes "viewed W H c a ev (pc, k) w" "pc \<notin> {Crashed, Stopped}" "32 \<le> v"
  shows "\<exists>k'. on_cpu (run_handler (board_hw pl) (gate v)) k = (Ret (), k') \<and> viewed W H c a ev (pc, k') (view_step (Irq v) w)
    \<or> on_cpu (run_handler (board_hw pl) (gate v)) k = (Panic, k') \<and> viewed W H c a ev (panic_pc k', k') (view_step (Irq v) w)"
proof -
  obtain t n where w: "w = (pc, t, n)" using assms(1) by (cases w) (auto simp: viewed_def)
  note k = assms(1) [unfolded w viewed_def prod.case]
  show ?thesis
  proof (cases "IDT v")
    case None
    then have "on_cpu (run_handler (board_hw pl) (gate v)) k = (Panic, k)" by (simp add: gate_def double_fault_on_kernel)
    moreover have "viewed W H c a ev (panic_pc k, k) (view_step (Irq v) w)"
      using k None assms(2) by (auto simp: w viewed_def panic_pc_def)
    ultimately show ?thesis by blast
  next
    case h: (Some h)
    have gate: "gate v = h" and irq: "irq_text v = handler_text h" by (simp_all add: gate_def irq_text_def h)
    note run = handler_on_kernel [of k a h _ _ pl, OF _ _ irq_handler [OF assms(3) h], folded gate]
    show ?thesis
    proof (cases "handler_text h")
      case None
      with run [of "Ret ()" "kernel_crt k"] k irq h gate show ?thesis by (auto simp: w viewed_def)
    next
      case (Some msg)
      show ?thesis
      proof (cases "pc \<in> {Printing, Breaking}")
        case True
        then have "console_locked (kernel_crt k)" using k by auto
        with run [of Panic "kernel_crt k"] k Some True irq h gate show ?thesis
          by (auto simp: w viewed_def kprintln_locked panic_pc_def)
      next
        case False
        then have "\<not> console_locked (kernel_crt k)" using k assms(2) by auto
        moreover have "as_ascii msg = Some msg" using Some by (cases h) (auto simp: as_ascii_def)
        ultimately obtain u where "kprintln_fmt [msg] (kernel_crt k) = (Ret (), u)"
            "represents W H console_bg console_fg u (term_puts (msg @ [CHR 0x0A]) t)" "keeps W H (kernel_crt k) u"
          using wpD [OF kprintln_refines [of W H console_bg console_fg "kernel_crt k" t "[msg]"]] k by auto
        with run [of "Ret ()" u] k Some False irq h gate assms(2) show ?thesis
          by (auto simp: w viewed_def keeps_def)
      qed
    qed
  qed
qed

lemma step_view:
  assumes "kernel_step pl bi s l u" "viewed W H c a ev s w" "wf_map 0 (bi_memory_map bi)"
  shows "viewed W H c a ev u (view_step l w)"
  using assms(1)
proof cases
  case (step_main pc k k')
  then show ?thesis using main_step_view [of W H c a ev pc k w bi pl] assms(2,3) by auto
next
  case (step_main_panic pc k k')
  then show ?thesis using main_step_view [of W H c a ev pc k w bi pl] assms(2,3) by auto
next
  case (step_irq pc k v k')
  then show ?thesis using irq_step_view [of W H c a ev pc k w v pl] assms(2) by auto
next
  case (step_irq_panic pc k v k')
  then show ?thesis using irq_step_view [of W H c a ev pc k w v pl] assms(2) by auto
qed

lemma run_view:
  "kernel_run pl bi s ls u \<Longrightarrow> viewed W H c a ev s w \<Longrightarrow> wf_map 0 (bi_memory_map bi) \<Longrightarrow>
    viewed W H c a ev u (fold view_step ls w)"
  by (induction rule: kernel_run.induct) (auto intro: step_view)

text \<open>The boot leaves a state the abstract machine describes.\<close>

lemma drivers_init_apic:
  assumes "drivers_init (log_hw pl) fuel s = (Ret (), t)" "apic_info s = Some info" "LOCAL_APIC s = None"
  shows "LOCAL_APIC t = Some (info_local_apic_base info) \<and> apics_aligned info"
proof -
  obtain u where u: "on_io (ps2_init (ports (log_hw pl))) s = (Ret (), u)" "interrupts_init (log_hw pl) fuel u = (Ret (), t)"
    using assms(1) by (auto simp: drivers_init_def bnd_Ret_iff)
  then have "apic_info u = Some info" "LOCAL_APIC u = None"
    using assms(2,3) by (auto simp: on_io_def zoom_def split: prod.splits)
  moreover have "printing_returns (log_hw pl)" by (simp add: printing_returns_def log_hw_def split_beta)
  ultimately show ?thesis
    using interrupts_init_runs [of u info "log_hw pl" fuel] u(2) by (auto simp: initialised_def)
qed

lemma boot_view:
  assumes "fresh_kernel items vec_ok k" and "platform_ok pl cfg items vec_ok"
    and "mode_ok (bi_graphic_info bi)" and "1200 \<le> gi_width (bi_graphic_info bi)" and "400 \<le> gi_height (bi_graphic_info bi)"
    and "32 < pci_fuel" and "length (enum_all (cfg (machine (DEVICES k))) pci_fuel) \<le> 32"
    and "bi_rsdp_addr bi = Some \<lparr>phys_ptr = rsdp\<rparr>" and "tables_found (acpi_tables pl) rsdp = Some (fadt, info)"
    and "drivers_init (log_hw pl) apic_fuel (before_drivers pl rsdp fadt info k) = (Ret (), t)"
  shows "\<exists>k' c. kernel_boot pl pci_fuel apic_fuel bi k = (Ret (), k') \<and> bordered (bi_graphic_info bi) (memory (screen (kernel_crt k))) c \<and>
    viewed (gi_width (bi_graphic_info bi)) (gi_height (bi_graphic_info bi)) c (info_local_apic_base info) (events t)
      (Memory, k') (Memory, log_lines (snd (dev (io t))), 0) \<and> rest (dev (io (cpu k'))) = fst (dev (io t))"
proof -
  have "apic_info (before_drivers pl rsdp fadt info k) = Some info" "LOCAL_APIC (before_drivers pl rsdp fadt info k) = None"
    using assms(1) by (simp_all add: before_drivers_def log_cpu_def fresh_kernel_def)
  with assms(10) have apic: "LOCAL_APIC t = Some (info_local_apic_base info)" "lapic_aligned (info_local_apic_base info)"
    using drivers_init_apic [of pl apic_fuel _ t info] by (simp_all add: apics_aligned_def)
  obtain c p d u where boot: "kernel_boot pl pci_fuel apic_fuel bi k = (Ret (), k\<lparr>gdt_regs := kernel_gdt pl, page_tables := p,
      DEVICES := d, FADT_cell := Some fadt, cpu := u, interrupts_on := True\<rparr>)"
      "same_cpu (on_board (gi_width (bi_graphic_info bi)) (gi_height (bi_graphic_info bi)) c) u t"
      "bordered (bi_graphic_info bi) (memory (screen (kernel_crt k))) c"
    using kernel_boot_result [OF assms] by blast
  then show ?thesis
    using apic assms(1)
    by (intro exI [of _ c] exI [of _ "k\<lparr>gdt_regs := kernel_gdt pl, page_tables := p, DEVICES := d, FADT_cell := Some fadt, cpu := u,
        interrupts_on := True\<rparr>"])
      (auto simp: viewed_def same_cpu_def same_io_def on_board_def shows_log_def keeps_def split_beta fresh_kernel_def kernel_crt_def)
qed

text \<open>The hypotheses of a successful boot; \<open>t\<close> is the processor that the machine with a log ends with.\<close>

definition boots_to ::
    "('d, 'q, 'v, 't, 's, 'r) platform \<Rightarrow> ('q \<Rightarrow> u32 \<Rightarrow> u32) \<Rightarrow> ('v \<Rightarrow> Device list) \<Rightarrow> ('v \<Rightarrow> bool) \<Rightarrow> nat \<Rightarrow> nat \<Rightarrow>
      't BootInfo \<Rightarrow> ('d, 'q, 'v, 's) kernel \<Rightarrow> ApicInfo \<Rightarrow> ('d \<times> string list) cpu_state \<Rightarrow> bool" where
  "boots_to pl cfg items vec_ok pci_fuel apic_fuel bi k info t \<longleftrightarrow>
     fresh_kernel items vec_ok k \<and> platform_ok pl cfg items vec_ok \<and> mode_ok (bi_graphic_info bi) \<and>
     1200 \<le> gi_width (bi_graphic_info bi) \<and> 400 \<le> gi_height (bi_graphic_info bi) \<and> wf_map 0 (bi_memory_map bi) \<and>
     32 < pci_fuel \<and> length (enum_all (cfg (machine (DEVICES k))) pci_fuel) \<le> 32 \<and>
     (\<exists>rsdp fadt. bi_rsdp_addr bi = Some \<lparr>phys_ptr = rsdp\<rparr> \<and> tables_found (acpi_tables pl) rsdp = Some (fadt, info) \<and>
       drivers_init (log_hw pl) apic_fuel (before_drivers pl rsdp fadt info k) = (Ret (), t))"

text \<open>The abstract machine when interrupts are enabled: the log of the boot on the terminal, nothing acknowledged yet.\<close>

definition first_view :: "('d \<times> string list) cpu_state \<Rightarrow> view" where
  "first_view t = (Memory, log_lines (snd (dev (io t))), 0)"

lemma run_viewed:
  assumes "boots_to pl cfg items vec_ok pci_fuel apic_fuel bi k info t" "kernel_boot pl pci_fuel apic_fuel bi k = (Ret (), k1)"
    and "kernel_run pl bi (Memory, k1) ls s"
  shows "\<exists>c. bordered (bi_graphic_info bi) (memory (screen (kernel_crt k))) c \<and>
    viewed (gi_width (bi_graphic_info bi)) (gi_height (bi_graphic_info bi)) c (info_local_apic_base info) (events t) s
      (fold view_step ls (first_view t))"
proof -
  obtain c where "bordered (bi_graphic_info bi) (memory (screen (kernel_crt k))) c" "viewed (gi_width (bi_graphic_info bi)) (gi_height (bi_graphic_info bi)) c
      (info_local_apic_base info) (events t) (Memory, k1) (first_view t)"
    using boot_view [of items vec_ok k pl cfg bi pci_fuel _ _ info apic_fuel t] assms(1,2)
    by (fastforce simp: boots_to_def first_view_def)
  with run_view [OF assms(3)] assms(1) show ?thesis by (metis boots_to_def)
qed

text \<open>
  C4. The running kernel refines the abstract machine. After a successful boot, whatever interrupts arrive between the
  steps of \<open>main\<close> and in whatever order, those without a gate in the descriptor table included: the kernel is where the abstract machine is, the screen shows its terminal (the log of
  the boot, \<open>It didn't crash.\<close>, and a line for every key and every movement of the mouse, in the order of the steps) and is
  otherwise as the boot left it, the console is locked exactly while \<open>main\<close> prints (and after a crash there), and every
  interrupt was acknowledged exactly once, with nothing else written to the interrupt controllers, except the one that
  ended the kernel.
\<close>

theorem running_kernel_refines:
  assumes "boots_to pl cfg items vec_ok pci_fuel apic_fuel bi k info t" and "kernel_boot pl pci_fuel apic_fuel bi k = (Ret (), k1)"
    and "kernel_run pl bi (Memory, k1) ls (pc, k2)"
  shows "\<exists>c. bordered (bi_graphic_info bi) (memory (screen (kernel_crt k))) c \<and>
    viewed (gi_width (bi_graphic_info bi)) (gi_height (bi_graphic_info bi)) c (info_local_apic_base info) (events t) (pc, k2)
      (fold view_step ls (first_view t))"
  using assms by (rule run_viewed)

section \<open>Progress\<close>

fun steps_done :: "pc \<Rightarrow> nat" where
  "steps_done Memory = 0"
| "steps_done Print = 1"
| "steps_done Printing = 2"
| "steps_done Break = 3"
| "steps_done Breaking = 4"
| "steps_done _ = 5"

lemma steps_done_le: "steps_done pc \<le> 5"
  by (cases pc) simp_all

lemma run_steps:
  "kernel_run pl bi s ls u \<Longrightarrow> fst s = Memory \<Longrightarrow>
    length (filter ((=) Main) ls) \<le> steps_done (fst u) \<and> (fst u \<notin> {Crashed, Stopped} \<longrightarrow> length (filter ((=) Main) ls) = steps_done (fst u))"
proof (induction rule: kernel_run.induct)
  case (run_step ls t l u)
  have "steps_done pc \<le> 4" "steps_done (next_pc pc) = Suc (steps_done pc)" if "pc \<notin> {Idle, Crashed, Stopped}" for pc
    using that by (cases pc; simp)+
  with run_step steps_done_le show ?case by (auto elim!: kernel_stepE simp: panic_pc_def split: if_splits)
qed simp

text \<open>
  C12. \<open>main\<close> reaches its halt loop. In every run after a successful boot \<open>main\<close> makes at most five steps; unless an
  interrupt crashed the kernel, it is in its halt loop exactly when it has made all five, and before that its next step is
  always possible and does not panic: no lock is held for ever and no unwrap fails.
\<close>

theorem main_reaches_idle:
  assumes "boots_to pl cfg items vec_ok pci_fuel apic_fuel bi k info t" and "kernel_boot pl pci_fuel apic_fuel bi k = (Ret (), k1)"
    and "kernel_run pl bi (Memory, k1) ls (pc, k2)"
  shows "length (filter ((=) Main) ls) \<le> 5 \<and> (pc \<notin> {Crashed, Stopped} \<longrightarrow> (pc = Idle \<longleftrightarrow> length (filter ((=) Main) ls) = 5)) \<and>
    (pc \<notin> {Idle, Crashed, Stopped} \<longrightarrow> (\<exists>k3. kernel_step pl bi (pc, k2) Main (next_pc pc, k3)) \<and>
      \<not> (\<exists>k3. kernel_step pl bi (pc, k2) Main (Crashed, k3)) \<and> \<not> (\<exists>k3. kernel_step pl bi (pc, k2) Main (Stopped, k3)))"
proof (intro conjI impI)
  have count: "length (filter ((=) Main) ls) \<le> steps_done pc" "pc \<notin> {Crashed, Stopped} \<Longrightarrow> length (filter ((=) Main) ls) = steps_done pc"
    using run_steps [OF assms(3)] by simp_all
  with steps_done_le [of pc] show "length (filter ((=) Main) ls) \<le> 5" by linarith
  show "pc = Idle \<longleftrightarrow> length (filter ((=) Main) ls) = 5" if "pc \<notin> {Crashed, Stopped}"
    using count(2) [OF that] that by (cases pc) simp_all
  assume pc: "pc \<notin> {Idle, Crashed, Stopped}"
  obtain c where "viewed (gi_width (bi_graphic_info bi)) (gi_height (bi_graphic_info bi)) c (info_local_apic_base info)
      (events t) (pc, k2) (fold view_step ls (first_view t))"
    using run_viewed [OF assms] by blast
  moreover have "wf_map 0 (bi_memory_map bi)" using assms(1) by (simp add: boots_to_def)
  ultimately obtain k3 where k3: "main_step pl bi pc k2 = (Ret (), k3)" using main_step_view pc by blast
  with pc show "\<exists>k3. kernel_step pl bi (pc, k2) Main (next_pc pc, k3)" by (blast intro: step_main)
  have "next_pc pc \<notin> {Crashed, Stopped}" using pc by (cases pc) simp_all
  with k3 show "\<not> (\<exists>k3. kernel_step pl bi (pc, k2) Main (Crashed, k3))" "\<not> (\<exists>k3. kernel_step pl bi (pc, k2) Main (Stopped, k3))"
    by (auto elim!: kernel_stepE)
qed

text \<open>The panic handler with the console locked, and with the console free.\<close>

lemma panic_handler_locked: "console_locked (kernel_crt k) \<Longrightarrow> panic_handler panic_info k = (Panic, k)"
  by (simp add: panic_handler_def bnd_def on_crt_def zoom_def kprintln_locked) (simp add: set_crt_def kernel_crt_def)

definition panic_text :: "PanicInfo \<Rightarrow> string" where
  "panic_text panic_info = ''[panic]'' @ [CHR 0x0A] @ concat (PanicInfo_fmt panic_info) @ [CHR 0x0A]"

lemma panic_handler_prints:
  assumes "represents W H bg fg (kernel_crt k) t" "\<not> console_locked (kernel_crt k)"
    "list_all (\<lambda>p. as_ascii p = Some p) (PanicInfo_fmt panic_info)"
  shows "\<exists>k'. panic_handler panic_info k = (Ret (), k') \<and>
    represents W H bg fg (kernel_crt k') (term_puts (panic_text panic_info) t)"
proof -
  have "list_all (\<lambda>p. as_ascii p = Some p) [''[panic]'']" by code_simp
  from wpD [OF kprintln_refines [OF assms(1,2) this]] assms(2)
  obtain u where u: "kprintln_fmt [''[panic]''] (kernel_crt k) = (Ret (), u)" "\<not> console_locked u"
      "represents W H bg fg u (term_puts (''[panic]'' @ [CHR 0x0A]) t)"
    by (auto simp: keeps_def)
  from wpD [OF kprintln_refines [OF u(3,2) assms(3)]]
  obtain v where "kprintln_fmt (PanicInfo_fmt panic_info) u = (Ret (), v)"
      "represents W H bg fg v (term_puts (panic_text panic_info) t)"
    by (auto simp: term_puts_def panic_text_def)
  with u(1) show ?thesis
    by (intro exI [of _ "set_crt v (set_crt u k)"]) (simp add: panic_handler_def bnd_def on_crt_def zoom_def)
qed

lemma view_step_ends:
  assumes "pc \<notin> {Crashed, Stopped}" "l = Main \<longrightarrow> pc \<noteq> Idle"
  shows "fst (view_step l (pc, t, n)) \<in> {Crashed, Stopped} \<longleftrightarrow>
    (\<exists>v. l = Irq v \<and> (IDT v = None \<or> irq_text v \<noteq> None \<and> pc \<in> {Printing, Breaking}))"
  using assms by (cases l; cases pc) (auto split: option.splits)

lemma halted_stuck: "pc \<in> {Crashed, Stopped} \<Longrightarrow> \<not> kernel_step pl bi (pc, k) l s"
  by (auto elim!: kernel_stepE)

text \<open>
  C13. How the running kernel can end: by an interrupt whose vector has no gate in the descriptor table (51 and 255, which
  the local APIC is programmed with, have none), or by one whose handler prints (keyboard or mouse) and that arrives while
  \<open>main\<close> prints its last line; by nothing else, and always by those. That interrupt is never acknowledged and nothing runs
  after it but the panic handler. When the interrupt came while \<open>main\<close> prints, the console is still locked and the panic
  handler panics in turn; otherwise it prints its text, provided that text is ASCII.
\<close>

theorem kernel_crash_causes:
  assumes "boots_to pl cfg items vec_ok pci_fuel apic_fuel bi k info t" and "kernel_boot pl pci_fuel apic_fuel bi k = (Ret (), k1)"
    and "kernel_run pl bi (Memory, k1) ls (pc, k2)" and "kernel_step pl bi (pc, k2) l (pc', k3)"
  shows "(pc' \<in> {Crashed, Stopped} \<longleftrightarrow>
      (\<exists>v. l = Irq v \<and> (IDT v = None \<or> irq_text v \<noteq> None \<and> pc \<in> {Printing, Breaking}))) \<and>
    (pc' \<in> {Crashed, Stopped} \<longrightarrow> events (cpu k3) = events (cpu k2) \<and> (\<forall>l s. \<not> kernel_step pl bi (pc', k3) l s) \<and>
      (if pc \<in> {Printing, Breaking} then panic_handler panic_info k3 = (Panic, k3)
       else list_all (\<lambda>p. as_ascii p = Some p) (PanicInfo_fmt panic_info) \<longrightarrow>
         (\<exists>k4. panic_handler panic_info k3 = (Ret (), k4) \<and>
           represents (gi_width (bi_graphic_info bi)) (gi_height (bi_graphic_info bi)) console_bg console_fg (kernel_crt k4)
             (term_puts (panic_text panic_info) (fst (snd (fold view_step ls (first_view t))))))))"
proof -
  let ?viewed = "viewed (gi_width (bi_graphic_info bi)) (gi_height (bi_graphic_info bi))"
  obtain c where c: "?viewed c (info_local_apic_base info) (events t) (pc, k2) (fold view_step ls (first_view t))"
    using run_viewed [OF assms(1-3)] by blast
  then obtain tm n where w: "fold view_step ls (first_view t) = (pc, tm, n)" by (auto simp: viewed_def split: prod.splits)
  have u: "?viewed c (info_local_apic_base info) (events t) (pc', k3) (view_step l (pc, tm, n))"
    using step_view [OF assms(4) c [unfolded w]] assms(1) by (simp add: boots_to_def)
  have pc: "pc \<notin> {Crashed, Stopped}" "l = Main \<longrightarrow> pc \<noteq> Idle" using assms(4) by (auto elim!: kernel_stepE)
  have "pc' = fst (view_step l (pc, tm, n))" using u by (auto simp: viewed_def split: prod.splits)
  note ends = view_step_ends [OF pc, of tm n, folded this]
  have "events (cpu k3) = events (cpu k2) \<and> console_locked (kernel_crt k3) = (pc \<in> {Printing, Breaking}) \<and>
      represents (gi_width (bi_graphic_info bi)) (gi_height (bi_graphic_info bi)) console_bg console_fg (kernel_crt k3) tm"
    if stop: "pc' \<in> {Crashed, Stopped}"
  proof -
    obtain v where "l = Irq v" "IDT v = None \<or> irq_text v \<noteq> None \<and> pc \<in> {Printing, Breaking}" using stop ends by blast
    with u c w show ?thesis by (auto simp: viewed_def split: if_splits)
  qed
  with ends show ?thesis
    using halted_stuck [of pc' pl bi k3] panic_handler_locked [of k3] panic_handler_prints [of _ _ _ _ k3 tm panic_info]
    by (auto simp: w)
qed

section \<open>Runs\<close>

lemma can_step:
  assumes "viewed W H c a ev (pc, k) w" "wf_map 0 (bi_memory_map bi)" "pc \<notin> {Crashed, Stopped}"
    and "case l of Main \<Rightarrow> pc \<noteq> Idle | Irq v \<Rightarrow> 32 \<le> v"
  shows "\<exists>k'. kernel_step pl bi (pc, k) l (fst (view_step l w), k')"
proof (cases l)
  case Main
  then have pc: "pc \<notin> {Idle, Crashed, Stopped}" using assms(3,4) by simp
  moreover have "fst (view_step Main w) = next_pc pc" using assms(1) by (cases w) (simp add: viewed_def)
  ultimately show ?thesis
    using main_step_view [OF assms(1) pc assms(2), of pl] Main step_main [of pc pl bi k] by auto
next
  case (Irq v)
  then have h: "32 \<le> v" using assms(4) by auto
  moreover have "interrupts_on k" using assms(1) by (cases w) (simp add: viewed_def)
  moreover have "fst (view_step (Irq v) w) = pc'" if "viewed W H c a ev (pc', k') (view_step (Irq v) w)" for pc' k'
    using that by (cases "view_step (Irq v) w") (simp add: viewed_def)
  ultimately show ?thesis
    using irq_step_view [OF assms(1,3) h, of pl] Irq step_irq [of pc k v pl _ bi] step_irq_panic [of pc k v pl _ bi] assms(3)
    by metis
qed

text \<open>A list of labels that the abstract machine can take.\<close>

fun possible :: "view \<Rightarrow> label list \<Rightarrow> bool" where
  "possible w [] = True"
| "possible w (l # ls) \<longleftrightarrow> fst w \<notin> {Crashed, Stopped} \<and> (case l of Main \<Rightarrow> fst w \<noteq> Idle | Irq v \<Rightarrow> 32 \<le> v) \<and>
     possible (view_step l w) ls"

lemma possible_append: "possible w (ls @ [l]) \<longleftrightarrow> possible w ls \<and> possible (fold view_step ls w) [l]"
  by (induction ls arbitrary: w) auto

lemma possible_runs:
  assumes "viewed W H c a ev s w" "wf_map 0 (bi_memory_map bi)" "possible w ls"
  shows "\<exists>k. kernel_run pl bi s ls (fst (fold view_step ls w), k)"
  using assms(3)
proof (induction ls rule: rev_induct)
  case Nil
  obtain pc k where "s = (pc, k)" by (cases s)
  moreover from this assms(1) have "fst w = pc" by (auto simp: viewed_def split: prod.splits)
  ultimately show ?case using run_start [of pl bi s] by auto
next
  case (snoc l ls)
  then obtain k where k: "kernel_run pl bi s ls (fst (fold view_step ls w), k)" by (auto simp: possible_append)
  from run_view [OF k assms(1,2)] snoc.prems
  obtain k' where "kernel_step pl bi (fst (fold view_step ls w), k) l (fst (view_step l (fold view_step ls w)), k')"
    using can_step [of W H c a ev _ k "fold view_step ls w" bi l pl] assms(2) by (auto simp: possible_append)
  with run_step [OF k] show ?case by auto
qed

section \<open>The machine that boots, running\<close>

definition small_boot_info :: "nat BootInfo" where
  "small_boot_info = demo_boot_info\<lparr>bi_graphic_info := (bi_graphic_info demo_boot_info)\<lparr>gi_width := 1024, gi_height := 768\<rparr>\<rparr>"

theorem small_screen_panics_witness:
  "\<exists>k. kernel_main demo_platform 33 3 small_boot_info demo_statics = (Panic, k) \<and> panic_handler (explicit_panic ''src/main.rs'' 83 10) k = (Panic, k)"
proof -
  have "mode_ok (bi_graphic_info small_boot_info)" "gi_width (bi_graphic_info small_boot_info) < 1200"
    by (simp_all add: small_boot_info_def demo_boot_info_def mode_ok_def PAGE_SIZE_1G_def)
  moreover have "\<not> frame_buf_locked (screen (kernel_crt demo_statics))" "\<not> console_locked (kernel_crt demo_statics)"
    using demo_fresh by (simp_all add: fresh_kernel_def)
  ultimately show ?thesis
    using small_screen_panics [of small_boot_info demo_statics demo_platform 33 3] by blast
qed

lemma demo_facts:
  "acpi_tables demo_platform = sample_tables" "snd (machine (DEVICES demo_statics)) = sample_config"
  "gi_width (bi_graphic_info demo_boot_info) = 1280" "gi_height (bi_graphic_info demo_boot_info) = 800"
  "bi_rsdp_addr demo_boot_info = Some \<lparr>phys_ptr = 0x1000\<rparr>" "bi_memory_map demo_boot_info = small_map"
  by (simp_all add: demo_platform_def demo_statics_def demo_boot_info_def)

theorem missing_rsdp_panics_witness:
  "\<exists>k k'. kernel_main demo_platform 33 3 (demo_boot_info\<lparr>bi_rsdp_addr := None\<rparr>) demo_statics = (Panic, k) \<and>
    panic_handler (explicit_panic ''src/main.rs'' 94 9) k = (Ret (), k')"
proof -
  let ?bi = "demo_boot_info\<lparr>bi_rsdp_addr := None\<rparr>"
  have "mode_ok (bi_graphic_info ?bi)" using demo_mode_ok by simp
  moreover have "plain ''src/main.rs''" by code_simp
  ultimately show ?thesis
    using missing_rsdp_panics [OF demo_fresh demo_platform_ok, of ?bi 33 "''src/main.rs''" 94 9 3] sample_enum demo_facts by auto
qed

lemma demo_boots:
  "\<exists>t. boots_to demo_platform snd ArrayVec_items (ArrayVec_wf DEVICE_CAPACITY) 33 3 demo_boot_info demo_statics sample_apic t"
proof -
  obtain t where "drivers_init (log_hw demo_platform) 3
      (before_drivers demo_platform 0x1000 0x8000 sample_apic demo_statics) = (Ret (), t)"
    using demo_drivers_return by blast
  then have "boots_to demo_platform snd ArrayVec_items (ArrayVec_wf DEVICE_CAPACITY) 33 3 demo_boot_info demo_statics sample_apic t"
    using demo_fresh demo_platform_ok demo_mode_ok small_map_wf sample_enum sample_tables_found
    by (simp add: boots_to_def demo_facts)
  then show ?thesis by blast
qed

text \<open>Where a run gets to does not depend on the terminal.\<close>

lemma fst_view_step: "fst w = fst w' \<Longrightarrow> fst (view_step l w) = fst (view_step l w')"
  by (cases w; cases w'; cases l) (auto split: option.splits)

lemma possible_fst:
  "fst w = fst w' \<Longrightarrow> possible w ls = possible w' ls \<and> fst (fold view_step ls w) = fst (fold view_step ls w')"
proof (induction ls arbitrary: w w')
  case (Cons l ls)
  from Cons.IH [OF fst_view_step [OF Cons.prems, of l]] Cons.prems show ?case by (cases l) simp_all
qed simp

definition demo_view :: view where "demo_view = (Memory, log_lines [], 0)"

lemma demo_runs:
  assumes "possible demo_view ls" "fst (fold view_step ls demo_view) = pc"
  obtains t k1 k2 where
    "boots_to demo_platform snd ArrayVec_items (ArrayVec_wf DEVICE_CAPACITY) 33 3 demo_boot_info demo_statics sample_apic t"
    "kernel_boot demo_platform 33 3 demo_boot_info demo_statics = (Ret (), k1)"
    "kernel_run demo_platform demo_boot_info (Memory, k1) ls (pc, k2)"
proof -
  obtain t where t: "boots_to demo_platform snd ArrayVec_items (ArrayVec_wf DEVICE_CAPACITY) 33 3 demo_boot_info
      demo_statics sample_apic t"
    using demo_boots by blast
  then obtain k1 c where k1: "kernel_boot demo_platform 33 3 demo_boot_info demo_statics = (Ret (), k1)"
      "viewed 1280 800 c (info_local_apic_base sample_apic) (events t) (Memory, k1) (first_view t)"
    using boot_view [of ArrayVec_items "ArrayVec_wf DEVICE_CAPACITY" demo_statics demo_platform snd demo_boot_info 33 _ _ sample_apic 3 t]
    by (fastforce simp: boots_to_def first_view_def demo_facts)
  have "fst (first_view t) = fst demo_view" by (simp add: first_view_def demo_view_def)
  with possible_runs [OF k1(2), of demo_boot_info ls demo_platform] possible_fst [of "first_view t" demo_view ls] assms
  have "\<exists>k2. kernel_run demo_platform demo_boot_info (Memory, k1) ls (pc, k2)"
    by (simp add: demo_facts small_map_wf)
  with t k1 that show thesis by blast
qed

lemma demo_runs_facts:
  "possible demo_view [Main, Irq 33, Main, Main, Main, Main]" "fst (fold view_step [Main, Irq 33, Main, Main, Main, Main] demo_view) = Idle"
  "possible demo_view [Main, Main]" "fst (fold view_step [Main, Main] demo_view) = Printing"
  "possible demo_view [Main]" "fst (fold view_step [Main] demo_view) = Print"
  by (simp_all add: demo_view_def irq_text_def IDT_def EXTERNAL_IRQ_OFFSET_def)

theorem running_kernel_refines_witness:
  "\<exists>(t :: (demo_machine \<times> string list) cpu_state) k1 k2 c.
    kernel_run demo_platform demo_boot_info (Memory, k1) [Main, Irq 33, Main, Main, Main, Main] (Idle, k2) \<and>
    viewed 1280 800 c 0xfee00000 (events t) (Idle, k2) (fold view_step [Main, Irq 33, Main, Main, Main, Main] (first_view t))"
proof -
  obtain t k1 k2 where run: "boots_to demo_platform snd ArrayVec_items (ArrayVec_wf DEVICE_CAPACITY) 33 3 demo_boot_info
      demo_statics sample_apic t" "kernel_boot demo_platform 33 3 demo_boot_info demo_statics = (Ret (), k1)"
      "kernel_run demo_platform demo_boot_info (Memory, k1) [Main, Irq 33, Main, Main, Main, Main] (Idle, k2)"
    by (rule demo_runs [OF demo_runs_facts(1,2)])
  have "info_local_apic_base sample_apic = 0xfee00000" by (simp add: sample_apic_def)
  with running_kernel_refines [OF run] run(3) show ?thesis unfolding demo_facts by metis
qed

theorem main_reaches_idle_witness:
  "\<exists>k1 k2 k3. kernel_run demo_platform demo_boot_info (Memory, k1) [Main] (Print, k2) \<and>
    kernel_step demo_platform demo_boot_info (Print, k2) Main (Printing, k3)"
proof -
  obtain t k1 k2 where run: "boots_to demo_platform snd ArrayVec_items (ArrayVec_wf DEVICE_CAPACITY) 33 3 demo_boot_info
      demo_statics sample_apic t" "kernel_boot demo_platform 33 3 demo_boot_info demo_statics = (Ret (), k1)"
      "kernel_run demo_platform demo_boot_info (Memory, k1) [Main] (Print, k2)"
    by (rule demo_runs [OF demo_runs_facts(5,6)])
  show ?thesis using main_reaches_idle [OF run] run(3) by auto
qed

theorem kernel_crash_causes_witness:
  "\<exists>k1 k2 k3 k4 k5. kernel_run demo_platform demo_boot_info (Memory, k1) [Main, Main] (Printing, k2) \<and>
    kernel_step demo_platform demo_boot_info (Printing, k2) (Irq 33) (Crashed, k3) \<and>
    panic_handler (explicit_panic ''src/main.rs'' 83 10) k3 = (Panic, k3) \<and>
    kernel_step demo_platform demo_boot_info (Print, k4) (Irq 51) (Stopped, k5) \<and> events (cpu k5) = events (cpu k4)"
proof -
  note demo_step = can_step [where pl = demo_platform and bi = demo_boot_info, unfolded demo_facts]
  obtain t k1 k2 where run: "boots_to demo_platform snd ArrayVec_items (ArrayVec_wf DEVICE_CAPACITY) 33 3 demo_boot_info
      demo_statics sample_apic t" "kernel_boot demo_platform 33 3 demo_boot_info demo_statics = (Ret (), k1)"
      "kernel_run demo_platform demo_boot_info (Memory, k1) [Main, Main] (Printing, k2)"
    by (rule demo_runs [OF demo_runs_facts(3,4)])
  obtain c where "viewed 1280 800 c (info_local_apic_base sample_apic) (events t) (Printing, k2) (fold view_step [Main, Main] (first_view t))"
    using run_viewed [OF run] unfolding demo_facts by blast
  from demo_step [OF this small_map_wf, of "Irq 33"]
  obtain k3 where k3: "kernel_step demo_platform demo_boot_info (Printing, k2) (Irq 33) (Crashed, k3)"
    by (auto simp: first_view_def irq_text_def IDT_def EXTERNAL_IRQ_OFFSET_def)
  obtain t' k1' k4 where run': "boots_to demo_platform snd ArrayVec_items (ArrayVec_wf DEVICE_CAPACITY) 33 3 demo_boot_info
      demo_statics sample_apic t'" "kernel_boot demo_platform 33 3 demo_boot_info demo_statics = (Ret (), k1')"
      "kernel_run demo_platform demo_boot_info (Memory, k1') [Main] (Print, k4)"
    by (rule demo_runs [OF demo_runs_facts(5,6)])
  obtain c' where "viewed 1280 800 c' (info_local_apic_base sample_apic) (events t') (Print, k4) (fold view_step [Main] (first_view t'))"
    using run_viewed [OF run'] unfolding demo_facts by blast
  from demo_step [OF this small_map_wf, of "Irq 51"]
  obtain k5 where k5: "kernel_step demo_platform demo_boot_info (Print, k4) (Irq 51) (Stopped, k5)"
    by (auto simp: first_view_def IDT_def EXTERNAL_IRQ_OFFSET_def)
  have "panic_handler (explicit_panic ''src/main.rs'' 83 10) k3 = (Panic, k3)" "events (cpu k5) = events (cpu k4)"
    using kernel_crash_causes [OF run k3, of "explicit_panic ''src/main.rs'' 83 10"] kernel_crash_causes [OF run' k5] by simp_all
  with run(3) k3 k5 show ?thesis by blast
qed

end
