(* ===== verification/Stack_Switch.thy ===== *)
theory Stack_Switch
  imports Kernel_Main
begin

text \<open>
  The \<open>asm!\<close> block of \<open>switch_to_kernel_stack\<close> (\<open>kernel/src/main.rs\<close>), instruction by instruction. The compiler chooses
  the registers of the three \<open>in(reg)\<close> operands; the choice is a parameter, constrained as the reference of inline
  assembly says: different registers of the class \<open>reg\<close>. \<open>Kernel_Main\<close> models the block by its intended effect; here
  it is shown for which choices the block has that effect.
\<close>

section \<open>Registers and instructions\<close>

datatype reg = RAX | RBX | RCX | RDX | RSI | RDI | RBP | RSP | R8 | R9 | R10 | R11 | R12 | R13 | R14 | R15

datatype instr = Mov reg reg | Call reg

record core =
  regs :: "reg \<Rightarrow> u64"
  rip :: u64
  words :: "u64 \<Rightarrow> u64"

text \<open>\<open>Call\<close> pushes the address of the next instruction, which is the parameter \<open>after\<close>.\<close>

fun exec_instr :: "u64 \<Rightarrow> instr \<Rightarrow> core \<Rightarrow> core" where
  "exec_instr after (Mov d r) c = c\<lparr>regs := (regs c)(d := regs c r)\<rparr>"
| "exec_instr after (Call r) c = c\<lparr>regs := (regs c)(RSP := regs c RSP - 8), rip := regs c r,
     words := (words c)(regs c RSP - 8 := after)\<rparr>"

section \<open>The block\<close>

record operands =
  boot_info_reg :: reg
  stack_reg :: reg
  entry_reg :: reg

definition allocation_ok :: "operands \<Rightarrow> bool" where
  "allocation_ok a \<longleftrightarrow> distinct [boot_info_reg a, stack_reg a, entry_reg a] \<and>
     RSP \<notin> {boot_info_reg a, stack_reg a, entry_reg a} \<and> RBP \<notin> {boot_info_reg a, stack_reg a, entry_reg a}"

definition bind_operands :: "operands \<Rightarrow> u64 \<Rightarrow> u64 \<Rightarrow> u64 \<Rightarrow> core \<Rightarrow> core" where
  "bind_operands a boot_info stk entry c =
     c\<lparr>regs := (regs c)(boot_info_reg a := boot_info, stack_reg a := stk, entry_reg a := entry)\<rparr>"

definition switch_asm :: "operands \<Rightarrow> instr list" where
  "switch_asm a = [Mov RDI (boot_info_reg a), Mov RSP (stack_reg a), Call (entry_reg a)]"

definition run_switch :: "operands \<Rightarrow> u64 \<Rightarrow> u64 \<Rightarrow> u64 \<Rightarrow> u64 \<Rightarrow> core \<Rightarrow> core" where
  "run_switch a after boot_info stk entry c = fold (exec_instr after) (switch_asm a) (bind_operands a boot_info stk entry c)"

section \<open>What the block does\<close>

text \<open>The intended effect: the entry point runs on the new stack with the boot information in the first argument register.\<close>

definition switched :: "u64 \<Rightarrow> u64 \<Rightarrow> u64 \<Rightarrow> u64 \<Rightarrow> core \<Rightarrow> bool" where
  "switched after boot_info stk entry c \<longleftrightarrow> regs c RDI = boot_info \<and> regs c RSP = stk - 8 \<and> rip c = entry \<and> words c (stk - 8) = after"

lemma switch_registers:
  assumes "allocation_ok a"
  shows "regs (run_switch a after boot_info stk entry c) RDI = boot_info"
    "regs (run_switch a after boot_info stk entry c) RSP = (if stack_reg a = RDI then boot_info else stk) - 8"
    "rip (run_switch a after boot_info stk entry c) = (if entry_reg a = RDI then boot_info else entry)"
    "words (run_switch a after boot_info stk entry c) = (words c)((if stack_reg a = RDI then boot_info else stk) - 8 := after)"
  using assms by (auto simp: run_switch_def switch_asm_def bind_operands_def allocation_ok_def)

text \<open>
  C40. The block switches to the kernel's stack exactly when the compiler puts neither the stack address nor the entry
  point into \<open>rdi\<close>. The block overwrites \<open>rdi\<close> in its first instruction, before it reads these two operands, and does not
  declare that it does: with the stack address in \<open>rdi\<close> the kernel runs on a stack below the boot information, with
  the entry point in \<open>rdi\<close> it jumps to the boot information.
\<close>

theorem stack_switch_iff:
  assumes "allocation_ok a" and "boot_info \<noteq> stk" and "boot_info \<noteq> entry"
  shows "switched after boot_info stk entry (run_switch a after boot_info stk entry c) \<longleftrightarrow> stack_reg a \<noteq> RDI \<and> entry_reg a \<noteq> RDI"
  using assms by (auto simp: switched_def switch_registers)

theorem stack_switch_iff_witness:
  "switched 0x1000 0x9000 0x100000 0x2000 (run_switch \<lparr>boot_info_reg = RAX, stack_reg = RCX, entry_reg = RDX\<rparr> 0x1000 0x9000 0x100000 0x2000
     \<lparr>regs = (\<lambda>_. 0), rip = 0, words = (\<lambda>_. 0)\<rparr>) \<and>
   \<not> switched 0x1000 0x9000 0x100000 0x2000 (run_switch \<lparr>boot_info_reg = RAX, stack_reg = RDI, entry_reg = RDX\<rparr> 0x1000 0x9000 0x100000 0x2000
     \<lparr>regs = (\<lambda>_. 0), rip = 0, words = (\<lambda>_. 0)\<rparr>)"
  using stack_switch_iff [of "\<lparr>boot_info_reg = RAX, stack_reg = RCX, entry_reg = RDX\<rparr>" "0x9000" "0x100000" "0x2000" "0x1000"]
    stack_switch_iff [of "\<lparr>boot_info_reg = RAX, stack_reg = RDI, entry_reg = RDX\<rparr>" "0x9000" "0x100000" "0x2000" "0x1000"]
  by (simp add: allocation_ok_def)

section \<open>The stack of the kernel\<close>

text \<open>
  With the stack address that \<open>switch_to_kernel_stack\<close> computes, the return address is stored inside \<open>KERNEL_STACK\<close>, and
  the stack pointer at the entry of \<open>main\<close> is 8 modulo 16, as the calling convention wants it: the array is aligned to 16
  bytes and its size is a multiple of 16.
\<close>

lemma kernel_stack_entry:
  assumes "unat (KERNEL_STACK_ptr pl) + 0x100000 < 2 ^ 64" and "unat (KERNEL_STACK_ptr pl) mod 16 = 0"
    and "allocation_ok a" and "stack_reg a \<noteq> RDI"
  shows "\<exists>stk. switch_to_kernel_stack pl new_entry x k = new_entry x (k\<lparr>rsp := stk\<rparr>) \<and>
    (let sp = regs (run_switch a after boot_info stk entry c) RSP in
      words (run_switch a after boot_info stk entry c) sp = after \<and> unat sp mod 16 = 8 \<and> unat (KERNEL_STACK_ptr pl) \<le> unat sp \<and>
      unat sp + 8 = unat (KERNEL_STACK_ptr pl) + KernelStack_len KernelStack_new)"
proof -
  let ?top = "KERNEL_STACK_ptr pl + 0x100000"
  have len: "KernelStack_len KernelStack_new = 0x100000"
    by (simp add: KernelStack_len_def KernelStack_new_def KERNEL_STACK_SIZE_def)
  then have sum: "u64_add (KernelStack_as_ptr pl) (of_nat (KernelStack_len KernelStack_new)) k = (Ret ?top, k)"
    using assms(1) by (simp add: u64_add_def KernelStack_as_ptr_def ret_def)
  then have switch: "switch_to_kernel_stack pl new_entry x k = new_entry x (k\<lparr>rsp := ?top\<rparr>)"
    by (simp add: switch_to_kernel_stack_def bnd_def update_def ret_def)
  have "?top - 8 = KERNEL_STACK_ptr pl + of_nat 0xffff8" by simp
  moreover have "unat (KERNEL_STACK_ptr pl + of_nat 0xffff8) = unat (KERNEL_STACK_ptr pl) + 0xffff8"
    using assms(1) by (simp add: unat_word_ariths)
  ultimately have sp: "unat (?top - 8) = unat (KERNEL_STACK_ptr pl) + 0xffff8" by (simp only:)
  moreover have "(unat (KERNEL_STACK_ptr pl) + 0xffff8) mod 16 = 8"
    using assms(2) by presburger
  ultimately show ?thesis
    using assms(3,4) len
    by (intro exI [of _ ?top]) (simp add: switch switch_registers)
qed

end
