(* ===== verification/I8042.thy ===== *)
theory I8042
  imports Ps2_Init
begin

unbundle bit_operations_syntax

text \<open>
  The PS/2 driver against the hardware it is written for: a two-port 8042 controller with a keyboard and a mouse, as
  documented (the OSDev pages that \<open>ps2/mod.rs\<close> cites). The model has the controller's configuration byte, its output
  queue, and the state of the mouse; bytes become visible in the status register only after a delay, which is a parameter,
  and so are the delay of the input buffer and what the self test does to the configuration byte. The locale
  \<open>ps2_ports\<close> says that some ports behave like this controller through a view of the machine's state, and
  \<open>ps2_machine\<close> that the machine can print as well; in it the whole of \<open>ps2::init\<close> is executed symbolically.
\<close>

section \<open>The controller\<close>

record i8042_params =
  out_lag :: "nat \<Rightarrow> nat"
  in_lag :: "nat \<Rightarrow> nat"
  self_test :: "u8 \<Rightarrow> u8"
  mouse_id :: u8

text \<open>
  \<open>lag\<close> and \<open>busy\<close> count the status reads until the head of the queue is visible and until the input buffer is empty.
  \<open>overrun\<close> records that a byte was written while the input buffer was full; such a byte is lost.
\<close>

record i8042 =
  config :: u8
  queue :: "u8 list"
  awaiting :: "u8 option"
  reporting :: bool
  lag :: nat
  busy :: nat
  turn :: nat
  overrun :: bool

definition status_byte :: "i8042 \<Rightarrow> u8" where
  "status_byte d = (if queue d \<noteq> [] \<and> lag d = 0 then 1 else 0) OR (if busy d > 0 then 2 else 0)"

definition status_read :: "i8042 \<Rightarrow> i8042" where
  "status_read d = d\<lparr>lag := lag d - 1, busy := busy d - 1\<rparr>"

definition data_read :: "i8042_params \<Rightarrow> i8042 \<Rightarrow> u8 \<times> i8042" where
  "data_read p d = (case queue d of
       [] \<Rightarrow> (0, d)
     | v # vs \<Rightarrow> if lag d = 0 then (v, d\<lparr>queue := vs, lag := out_lag p (turn d), turn := turn d + 1\<rparr>) else (0, d))"

definition respond :: "i8042_params \<Rightarrow> u8 list \<Rightarrow> i8042 \<Rightarrow> i8042" where
  "respond p vs d = (if queue d = [] then d\<lparr>queue := vs, lag := out_lag p (turn d), turn := turn d + 1\<rparr>
     else d\<lparr>queue := queue d @ vs\<rparr>)"

text \<open>The keyboard hears a byte only when the clock of its port runs (bit 4 clear), the mouse likewise (bit 5).\<close>

definition to_keyboard :: "i8042_params \<Rightarrow> u8 \<Rightarrow> i8042 \<Rightarrow> i8042" where
  "to_keyboard p v d = (if bit (config d) 4 then d else if v = 0xff then respond p [0xfa, 0xaa] d else respond p [0xfa] d)"

definition to_mouse :: "i8042_params \<Rightarrow> u8 \<Rightarrow> i8042 \<Rightarrow> i8042" where
  "to_mouse p v d = (if bit (config d) 5 then d
     else if v = 0xff then respond p [0xfa, 0xaa, mouse_id p] (d\<lparr>reporting := False\<rparr>)
     else if v = 0xf4 then respond p [0xfa] (d\<lparr>reporting := True\<rparr>)
     else if v = 0xf5 then respond p [0xfa] (d\<lparr>reporting := False\<rparr>)
     else respond p [0xfa] d)"

definition run_command :: "i8042_params \<Rightarrow> u8 \<Rightarrow> i8042 \<Rightarrow> i8042" where
  "run_command p v d =
     (if v = 0x20 then respond p [config d] d
      else if v = 0xa7 then d\<lparr>config := config d OR 0x20\<rparr>
      else if v = 0xa8 then d\<lparr>config := config d AND 0xdf\<rparr>
      else if v = 0xad then d\<lparr>config := config d OR 0x10\<rparr>
      else if v = 0xae then d\<lparr>config := config d AND 0xef\<rparr>
      else if v = 0xa9 \<or> v = 0xab then respond p [0x00] d
      else if v = 0xaa then respond p [0x55] (d\<lparr>config := self_test p (config d)\<rparr>)
      else if v \<in> {0x60, 0xd3, 0xd4} then d\<lparr>awaiting := Some v\<rparr>
      else d)"

definition take_data :: "i8042_params \<Rightarrow> u8 \<Rightarrow> i8042 \<Rightarrow> i8042" where
  "take_data p v d = (case awaiting d of
       None \<Rightarrow> to_keyboard p v d
     | Some c \<Rightarrow> let d = d\<lparr>awaiting := None\<rparr> in
         if c = 0x60 then d\<lparr>config := v\<rparr> else if c = 0xd3 then respond p [v] d else to_mouse p v d)"

definition i8042_write :: "i8042_params \<Rightarrow> (i8042 \<Rightarrow> i8042) \<Rightarrow> i8042 \<Rightarrow> i8042" where
  "i8042_write p f d = (if busy d > 0 then d\<lparr>overrun := True\<rparr>
     else (let e = f d in e\<lparr>busy := in_lag p (turn e), turn := turn e + 1\<rparr>))"

definition i8042_inb :: "i8042_params \<Rightarrow> u16 \<Rightarrow> i8042 \<Rightarrow> u8 \<times> i8042" where
  "i8042_inb p port d = (if port = 0x64 then (status_byte d, status_read d)
     else if port = 0x60 then data_read p d else (0xff, d))"

definition i8042_outb :: "i8042_params \<Rightarrow> u16 \<Rightarrow> u8 \<Rightarrow> i8042 \<Rightarrow> i8042" where
  "i8042_outb p port v d = (if port = 0x64 then i8042_write p (run_command p v) d
     else if port = 0x60 then i8042_write p (take_data p v) d else d)"

section \<open>Machines with such a controller\<close>

text \<open>
  \<open>write_command\<close> writes to the command port without looking at the input buffer, and the driver polls at most 1000
  times for an answer: it relies on a controller that takes every byte at once and answers within 999 status reads.
  \<open>ps2_at\<close> describes such a controller between two accesses: its configuration byte, queue, awaited byte and mouse.
\<close>

definition timing_ok :: "i8042_params \<Rightarrow> bool" where
  "timing_ok p \<longleftrightarrow> (\<forall>n. in_lag p n = 0 \<and> out_lag p n < 1000)"

definition ps2_at :: "i8042_params \<Rightarrow> ('d \<Rightarrow> i8042) \<Rightarrow> u8 \<Rightarrow> u8 list \<Rightarrow> u8 option \<Rightarrow> bool \<Rightarrow> 'd io_state \<Rightarrow> bool" where
  "ps2_at p view cfg q w m s \<longleftrightarrow> timing_ok p \<and> config (view (dev s)) = cfg \<and> queue (view (dev s)) = q \<and> awaiting (view (dev s)) = w \<and>
     reporting (view (dev s)) = m \<and> busy (view (dev s)) = 0 \<and> lag (view (dev s)) < 1000 \<and> \<not> overrun (view (dev s))"

text \<open>What a command and a data byte do when the queue is empty.\<close>

fun command_effect :: "i8042_params \<Rightarrow> ControllerCommand \<Rightarrow> u8 \<Rightarrow> u8 \<times> u8 list \<times> u8 option" where
  "command_effect p ReadControllerConfigByte cfg = (cfg, [cfg], None)"
| "command_effect p WriteControllerConfigByte cfg = (cfg, [], Some 0x60)"
| "command_effect p DisableSecondPort cfg = (cfg OR 0x20, [], None)"
| "command_effect p EnableSecondPort cfg = (cfg AND 0xdf, [], None)"
| "command_effect p TestSecondPort cfg = (cfg, [0x00], None)"
| "command_effect p TestController cfg = (self_test p cfg, [0x55], None)"
| "command_effect p TestFirstPort cfg = (cfg, [0x00], None)"
| "command_effect p DisableFirstPort cfg = (cfg OR 0x10, [], None)"
| "command_effect p EnableFirstPort cfg = (cfg AND 0xef, [], None)"
| "command_effect p WriteSecondPortOutputBuffer cfg = (cfg, [], Some 0xd3)"
| "command_effect p WriteSecondPortInputBuffer cfg = (cfg, [], Some 0xd4)"

definition data_effect :: "i8042_params \<Rightarrow> u8 option \<Rightarrow> u8 \<Rightarrow> u8 \<Rightarrow> bool \<Rightarrow> u8 \<times> u8 list \<times> bool" where
  "data_effect p w v cfg m = (case w of
       None \<Rightarrow> (cfg, if bit cfg 4 then [] else if v = 0xff then [0xfa, 0xaa] else [0xfa], m)
     | Some c \<Rightarrow> if c = 0x60 then (v, [], m) else if c = 0xd3 then (cfg, [v], m)
         else if bit cfg 5 then (cfg, [], m)
         else if v = 0xff then (cfg, [0xfa, 0xaa, mouse_id p], False)
         else if v = 0xf4 then (cfg, [0xfa], True)
         else if v = 0xf5 then (cfg, [0xfa], False) else (cfg, [0xfa], m))"

lemma status_bits:
  "bit (status_byte d) 0 \<longleftrightarrow> queue d \<noteq> [] \<and> lag d = 0" "bit (status_byte d) 1 \<longleftrightarrow> 0 < busy d"
  "bit (status_byte d) (Suc 0) \<longleftrightarrow> 0 < busy d"
  by (simp_all add: status_byte_def bit_simps)

locale ps2_ports =
  fixes hw :: "'d io_hw" and view :: "'d \<Rightarrow> i8042" and p :: i8042_params
  assumes in_view: "port \<in> {0x60, 0x64} \<Longrightarrow>
      fst (inb hw port d) = fst (i8042_inb p port (view d)) \<and> view (snd (inb hw port d)) = snd (i8042_inb p port (view d))"
    and out_view: "port \<in> {0x60, 0x64} \<Longrightarrow> view (outb hw port v d) = i8042_outb p port v (view d)"
begin

lemma out_view_state:
  "port \<in> {0x60, 0x64} \<Longrightarrow> wp (port_write hw port v) (\<lambda>_ t. view (dev t) = i8042_outb p port v (view (dev s))) s"
  using out_view by (simp add: wp_def port_write_def)

lemma in_view_state:
  "port \<in> {0x60, 0x64} \<Longrightarrow> wp (port_read hw port) (\<lambda>r t. r = fst (i8042_inb p port (view (dev s))) \<and>
    view (dev t) = snd (i8042_inb p port (view (dev s)))) s"
  using in_view [of port "dev s"] by (simp add: wp_def port_read_def split_beta)

text \<open>Waiting: the head of the queue shows after at most 999 reads of the status; the input buffer is empty at once.\<close>

lemma poll_full:
  assumes "ps2_at p view cfg (v # q) w m s" "lag (view (dev s)) < n"
  shows "wp (poll hw Controller_new is_output_full n) (\<lambda>r t. r = Ok () \<and> ps2_at p view cfg (v # q) w m t \<and> lag (view (dev t)) = 0) s"
  using assms
proof (induction n arbitrary: s)
  case (Suc n)
  have read: "wp (read_status hw Controller_new) (\<lambda>st t. is_output_full st = (lag (view (dev s)) = 0) \<and> ps2_at p view cfg (v # q) w m t \<and>
      lag (view (dev t)) = lag (view (dev s)) - 1) s"
    unfolding read_status_eq Controller_new_def Controller.simps
    by (rule wp_mono [OF in_view_state])
      (use Suc.prems(1) in \<open>auto simp: i8042_inb_def ps2_at_def timing_ok_def status_read_def is_output_full_iff status_bits\<close>)
  show ?case
    unfolding poll.simps wp_bnd
    by (rule wp_mono [OF read]) (use Suc in \<open>auto simp: wp_ret\<close>)
qed simp

lemma wait_for_read_at: "ps2_at p view cfg (v # q) w m s \<Longrightarrow>
    wp (wait_for_read hw Controller_new) (\<lambda>r t. r = Ok () \<and> ps2_at p view cfg (v # q) w m t \<and> lag (view (dev t)) = 0) s"
  unfolding wait_for_read_def by (rule poll_full) (simp_all add: ps2_at_def timing_ok_def Controller_new_def)

lemma wait_for_write_at:
  assumes "ps2_at p view cfg q w m s"
  shows "wp (wait_for_write hw Controller_new) (\<lambda>r t. r = Ok () \<and> ps2_at p view cfg q w m t) s"
proof -
  have n: "loop_timeout Controller_new = Suc 999" by (simp add: Controller_new_def)
  have read: "wp (read_status hw Controller_new) (\<lambda>st t. \<not> is_input_full st \<and> ps2_at p view cfg q w m t) s"
    unfolding read_status_eq Controller_new_def Controller.simps
    by (rule wp_mono [OF in_view_state])
      (use assms in \<open>auto simp: i8042_inb_def ps2_at_def timing_ok_def status_read_def is_input_full_iff status_bits\<close>)
  show ?thesis
    unfolding wait_for_write_def n poll.simps wp_bnd
    by (rule wp_mono [OF read]) (simp add: wp_ret)
qed

text \<open>Single accesses.\<close>

lemma read_data_at:
  assumes "ps2_at p view cfg (v # q) w m s" and "\<And>t. ps2_at p view cfg q w m t \<Longrightarrow> Q (Ok v) t"
  shows "wp (Controller_read_data hw Controller_new) Q s"
proof -
  have "wp (port_read hw 0x60) (\<lambda>x. Q (Ok x)) t" if "ps2_at p view cfg (v # q) w m t" "lag (view (dev t)) = 0" for t
    by (rule wp_mono [OF in_view_state])
      (use that in \<open>auto simp: i8042_inb_def data_read_def ps2_at_def timing_ok_def intro!: assms(2)\<close>)
  with wait_for_read_at [OF assms(1)] show ?thesis
    unfolding Controller_read_data_def wp_bndE wp_bnd wp_ret
    by (elim wp_mono) (auto simp: Controller_new_def)
qed

lemma command_at:
  assumes "ps2_at p view cfg [] None m s" "command_effect p c cfg = (cfg', q', w')"
    and "\<And>t. ps2_at p view cfg' q' w' m t \<Longrightarrow> Q () t"
  shows "wp (Controller_write_command hw Controller_new c) Q s"
proof -
  have "ps2_at p view cfg' q' w' m t" if "view (dev t) = i8042_write p (run_command p (ControllerCommand_as_u8 c)) (view (dev s))" for t
    using that assms(1,2)
    by (cases c) (auto simp: ps2_at_def timing_ok_def i8042_write_def Let_def run_command_def respond_def)
  then show ?thesis
    unfolding Controller_write_command_def Controller_new_def Controller.simps
    by (intro wp_mono [OF out_view_state]) (auto simp: i8042_outb_def intro!: assms(3))
qed

lemma write_data_at:
  assumes "ps2_at p view cfg [] w m s" "data_effect p w v cfg m = (cfg', q', m')"
    and "\<And>t. ps2_at p view cfg' q' None m' t \<Longrightarrow> Q (Ok ()) t"
  shows "wp (Controller_write_data hw Controller_new v) Q s"
proof -
  have "ps2_at p view cfg' q' None m' u" if "ps2_at p view cfg [] w m t" "view (dev u) = i8042_write p (take_data p v) (view (dev t))" for t u
    using that assms(2)
    by (auto simp: ps2_at_def timing_ok_def i8042_write_def Let_def take_data_def respond_def to_keyboard_def to_mouse_def data_effect_def
        split: option.splits if_splits)
  then have "wp (port_write hw 0x60 v) (\<lambda>_. Q (Ok ())) t" if "ps2_at p view cfg [] w m t" for t
    using that by (intro wp_mono [OF out_view_state]) (auto simp: i8042_outb_def intro!: assms(3))
  with wait_for_write_at [OF assms(1)] show ?thesis
    unfolding Controller_write_data_def wp_bndE wp_bnd wp_ret
    by (elim wp_mono) (auto simp: Controller_new_def)
qed

text \<open>The operations of the controller.\<close>

lemma read_config_byte_at:
  assumes "ps2_at p view cfg [] None m s" and "\<And>t. ps2_at p view cfg [] None m t \<Longrightarrow> Q (Ok cfg) t"
  shows "wp (read_config_byte hw Controller_new) Q s"
  unfolding read_config_byte_def wp_bnd wp_bndE
  by (rule command_at [OF assms(1)], simp, rule read_data_at, assumption) (simp add: wp_ret assms(2))

lemma write_config_byte_at:
  assumes "ps2_at p view cfg [] None m s" and "\<And>t. ps2_at p view v [] None m t \<Longrightarrow> Q (Ok ()) t"
  shows "wp (write_config_byte hw Controller_new v) Q s"
  unfolding write_config_byte_def wp_bnd wp_bndE ControllerConfigByte_get_def
  by (rule command_at [OF assms(1)], simp, rule write_data_at, assumption, simp add: data_effect_def) (simp add: wp_ret assms(2))

lemma test_controller_at:
  assumes "ps2_at p view cfg [] None m s" and "\<And>t. ps2_at p view (self_test p cfg) [] None m t \<Longrightarrow> Q (Ok ()) t"
  shows "wp (test_controller hw Controller_new) Q s"
  unfolding test_controller_def wp_bnd wp_bndE
  by (rule command_at [OF assms(1)], simp, rule read_data_at, assumption) (simp add: wp_ret assms(2))

lemma test_ports_at:
  assumes "ps2_at p view cfg [] None m s" and "\<And>t. ps2_at p view cfg [] None m t \<Longrightarrow> Q True t"
  shows "wp (is_ok (test_first_port hw Controller_new)) Q s" "wp (is_ok (test_second_port hw Controller_new)) Q s"
  unfolding is_ok_def test_first_port_def test_second_port_def wp_bnd wp_bndE
  by (rule command_at [OF assms(1)], simp, rule read_data_at, assumption, simp add: wp_ret assms(2))+

lemma enable_at:
  assumes "ps2_at p view cfg [] None m s"
  shows "(\<And>t. ps2_at p view (cfg AND 0xef) [] None m t \<Longrightarrow> Q () t) \<Longrightarrow> wp (enable_first_port hw Controller_new) Q s"
    "(\<And>t. ps2_at p view (cfg AND 0xdf) [] None m t \<Longrightarrow> Q () t) \<Longrightarrow> wp (enable_second_port hw Controller_new) Q s"
    "(\<And>t. ps2_at p view (cfg OR 0x20) [] None m t \<Longrightarrow> Q () t) \<Longrightarrow> wp (disable_second_port hw Controller_new) Q s"
  unfolding enable_first_port_def enable_second_port_def disable_second_port_def
  by - (rule command_at [OF assms], simp, simp)+

text \<open>A byte left in the output buffer when the driver starts: the first two commands leave it there, the flush removes it.\<close>

lemma disable_leftover:
  assumes "ps2_at p view cfg q None m s" "lag (view (dev s)) = 0"
  shows "(\<And>t. ps2_at p view (cfg OR 0x10) q None m t \<Longrightarrow> lag (view (dev t)) = 0 \<Longrightarrow> Q () t) \<Longrightarrow> wp (disable_first_port hw Controller_new) Q s"
    "(\<And>t. ps2_at p view (cfg OR 0x20) q None m t \<Longrightarrow> lag (view (dev t)) = 0 \<Longrightarrow> Q () t) \<Longrightarrow> wp (disable_second_port hw Controller_new) Q s"
  unfolding disable_first_port_def disable_second_port_def Controller_write_command_def Controller_new_def Controller.simps
  by (rule wp_mono [OF out_view_state]; use assms in
      \<open>fastforce simp: i8042_outb_def i8042_write_def run_command_def ps2_at_def timing_ok_def Let_def\<close>)+

lemma flush_at:
  assumes "ps2_at p view cfg q None m s" "lag (view (dev s)) = 0" "length q \<le> 1" "\<And>t. ps2_at p view cfg [] None m t \<Longrightarrow> Q () t"
  shows "wp (flush_data_port hw Controller_new) Q s"
proof -
  have look: "wp (read_status hw Controller_new) (\<lambda>st t. is_output_full st = (lag (view (dev s)) = 0 \<and> q \<noteq> []) \<and> ps2_at p view cfg q None m t) s"
    if "ps2_at p view cfg q None m s" for s q
    unfolding read_status_eq Controller_new_def Controller.simps
    by (rule wp_mono [OF in_view_state])
      (use that in \<open>auto simp: i8042_inb_def ps2_at_def timing_ok_def status_read_def is_output_full_iff status_bits\<close>)
  have empty: "wp (flush_loop hw Controller_new (Suc n)) Q s" if "ps2_at p view cfg [] None m s" for s n
    unfolding flush_loop.simps wp_bnd
    by (rule wp_mono [OF look [OF that]]) (auto simp: wp_ret intro: assms(4))
  have n: "loop_timeout Controller_new = Suc (Suc 998)" by (simp add: Controller_new_def)
  show ?thesis
  proof (cases q)
    case Nil
    with assms(1) empty [of s] show ?thesis by (simp only: flush_data_port_def n)
  next
    case (Cons v vs)
    with assms(3) have q: "q = [v]" by simp
    show ?thesis
      unfolding flush_data_port_def n flush_loop.simps(2) [of _ _ "Suc 998"] wp_bnd
      by (rule wp_mono [OF look [OF assms(1)]])
        (use assms(2) q empty [where n = 998] in \<open>auto simp: wp_bnd simp del: flush_loop.simps intro!: read_data_at\<close>)
  qed
qed

text \<open>Keyboard and mouse.\<close>

lemma response_at:
  assumes "ps2_at p view cfg (Response_as_u8 r # q) w m s"
  shows "(\<And>t. ps2_at p view cfg q w m t \<Longrightarrow> Q (Ok r) t) \<Longrightarrow> wp (Keyboard_read_response hw Controller_new) Q s"
    "(\<And>t. ps2_at p view cfg q w m t \<Longrightarrow> Q' (Ok r) t) \<Longrightarrow> wp (Mouse_read_response hw Controller_new) Q' s"
  unfolding Keyboard_read_response_def Mouse_read_response_def wp_bndE wp_bnd wp_map_err
  by - (rule read_data_at [OF assms], simp add: Response_from_as wp_ret)+

lemma Keyboard_reset_at:
  assumes "ps2_at p view cfg [] None m s" "\<not> bit cfg 4" and "\<And>t. ps2_at p view cfg [] None m t \<Longrightarrow> Q (Ok ()) t"
  shows "wp (Keyboard_reset_and_self_test hw Controller_new) Q s"
  unfolding Keyboard_reset_and_self_test_def Keyboard_write_command_def wp_bndE wp_map_err
  apply (rule write_data_at [OF assms(1)])
   apply (simp add: data_effect_def assms(2))
  apply simp
  apply (rule response_at(1) [where r = Acknowledged], simp)
  apply (simp add: wp_ret)
  apply (rule response_at(1) [where r = SelfTestPassed], simp)
  apply (simp add: wp_ret assms(3))
  done

lemma Mouse_command_at:
  assumes "ps2_at p view cfg [] None m s" "data_effect p (Some 0xd4) (MouseCommand_as_u8 c) cfg m = (cfg, 0xfa # q, m')"
    and "\<And>t. ps2_at p view cfg q None m' t \<Longrightarrow> Q (Ok ()) t"
  shows "wp (Mouse_write_command hw Controller_new c None) Q s"
  unfolding Mouse_write_command_def write_to_second_port_input_buffer_def wp_bndE wp_map_err wp_bnd
  apply (rule command_at [OF assms(1)], simp)
  apply (rule write_data_at, assumption, rule assms(2))
  apply (simp add: wp_ret)
  apply (rule response_at(2) [where r = Acknowledged], simp)
  apply (simp add: wp_ret assms(3))
  done

lemma Mouse_reset_at:
  assumes "ps2_at p view cfg [] None m s" "\<not> bit cfg 5" and "\<And>t. ps2_at p view cfg [] None False t \<Longrightarrow> Q (Ok (mouse_id p)) t"
  shows "wp (Mouse_reset_and_self_test hw Controller_new) Q s"
  unfolding Mouse_reset_and_self_test_def wp_bndE
  apply (rule Mouse_command_at [OF assms(1), where q = "[0xaa, mouse_id p]" and m' = False], simp add: data_effect_def assms(2))
  apply simp
  apply (rule response_at(2) [where r = SelfTestPassed], simp)
  apply (simp add: Mouse_read_data_def wp_bndE wp_map_err wp_ret)
  apply (rule read_data_at, assumption)
  apply (simp add: wp_ret assms(3))
  done

lemma enable_data_reporting_at:
  assumes "ps2_at p view cfg [] None m s" "\<not> bit cfg 5" and "\<And>t. ps2_at p view cfg [] None True t \<Longrightarrow> Q (Ok ()) t"
  shows "wp (enable_data_reporting hw Controller_new) Q s"
  unfolding enable_data_reporting_def wp_bndE
  by (rule Mouse_command_at [OF assms(1)], simp add: data_effect_def assms(2)) (simp add: wp_ret assms(3))

end

text \<open>A machine that prints besides; its messages do not touch the controller.\<close>

locale ps2_machine = ps2_ports +
  assumes log_view: "plain msg \<Longrightarrow> fst (klog hw msg d) = Ret () \<and> view (snd (klog hw msg d)) = view d"
begin

lemma kprintln_at:
  "ps2_at p view cfg q w m s \<Longrightarrow> plain msg \<Longrightarrow> (\<And>t. ps2_at p view cfg q w m t \<Longrightarrow> Q () t) \<Longrightarrow> wp (kprintln hw msg) Q s"
  using log_view [of msg "dev s"]
  by (auto simp: wp_def kprintln_def zoom_def ps2_at_def timing_ok_def split: prod.split)

lemma detect_second_port_at:
  assumes "ps2_at p view cfg [] None m s" and "\<And>t. ps2_at p view (second_port_config (cfg AND 0xdf)) [] None m t \<Longrightarrow> Q True t"
  shows "wp (detect_second_port hw Controller_new) Q s"
proof -
  have "\<not> get_second_port_clock (cfg AND 0xdf)" by (simp add: config_bits bit_simps)
  then show ?thesis
    unfolding detect_second_port_def wp_bnd wp_unwrap
    apply -
    apply (rule enable_at(2) [OF assms(1)])
    apply (rule read_config_byte_at, assumption)
    apply (simp add: wp_bnd wp_unwrap)
    apply (rule kprintln_at, assumption, rule plain_second_port)
    apply (rule enable_at(3), assumption)
    apply (rule write_config_byte_at, assumption)
    apply (simp add: wp_ret assms(2))
    done
qed

lemma enable_ports_at:
  assumes "ps2_at p view cfg [] None m s" and "\<And>t. ps2_at p view ((cfg OR 1) OR 2) [] None m t \<Longrightarrow> Q () t"
  shows "wp (enable_ports hw Controller_new True True) Q s"
  unfolding enable_ports_def wp_bnd wp_unwrap
  apply (rule read_config_byte_at [OF assms(1)])
  apply (simp add: wp_bnd wp_ret)
  apply (rule enable_at(1), assumption)
  apply (rule enable_at(2), assumption)
  apply (rule write_config_byte_at, assumption)
  apply (simp add: config_bits assms(2))
  done

text \<open>The whole initialisation.\<close>

lemma ps2_init_at:
  assumes "ps2_at p view cfg q None m s" "lag (view (dev s)) = 0" "length q \<le> 1"
  shows "wp (ps2_init hw) (\<lambda>_. ps2_at p view ((cfg AND 0x8c) OR 3) [] None True) s"
proof -
  have cfgs: "(second_port_config (first_port_config ((cfg OR 0x10) OR 0x20) AND 0xdf) OR 1) OR 2 = (cfg AND 0x8c) OR 3"
  proof (rule bit_word_eqI)
    fix n assume "n < LENGTH(8)"
    then have "n \<in> {0, 1, 2, 3, 4, 5, 6, 7}" by auto
    then show "bit ((second_port_config (first_port_config ((cfg OR 0x10) OR 0x20) AND 0xdf) OR 1) OR 2) n = bit ((cfg AND 0x8c) OR 3) n"
      by (auto simp: config_bits bit_simps)
  qed
  have bits: "\<not> bit ((cfg AND 0x8c) OR 3) 4" "\<not> bit ((cfg AND 0x8c) OR 3) 5" by (simp_all add: bit_simps)
  show ?thesis
    unfolding ps2_init_def Let_def wp_bnd wp_unwrap device_views
    apply (rule disable_leftover(1) [OF assms(1,2)])
    apply (rule disable_leftover(2), assumption+)
    apply (rule flush_at, assumption+, rule assms(3))
    apply (rule read_config_byte_at, assumption, simp)
    apply (rule write_config_byte_at, assumption, simp)
    apply (rule test_controller_at, assumption, simp)
    apply (rule write_config_byte_at, assumption, simp)
    apply (rule detect_second_port_at, assumption)
    apply (rule test_ports_at(1), assumption, simp)
    apply (rule test_ports_at(2), assumption)
    apply (rule enable_ports_at, assumption, simp only: cfgs)
    apply (rule Keyboard_reset_at, assumption, rule bits(1), simp)
    apply (rule Mouse_reset_at, assumption, rule bits(2), simp add: wp_bnd wp_unwrap)
    apply (rule enable_data_reporting_at, assumption, rule bits(2), simp add: wp_ret)
    done
qed

end

section \<open>The driver on the controller\<close>

definition i8042_hw :: "i8042_params \<Rightarrow> i8042 io_hw" where
  "i8042_hw p = \<lparr>inb = i8042_inb p, outb = i8042_outb p, klog = (\<lambda>msg d. (Ret (), d))\<rparr>"

interpretation kbc: ps2_machine "i8042_hw p" "\<lambda>d. d" p for p
  by standard (simp_all add: i8042_hw_def)

text \<open>When the driver starts: no command is half written, at most one byte is left in the output buffer.\<close>

definition i8042_idle :: "i8042 \<Rightarrow> bool" where
  "i8042_idle d \<longleftrightarrow> awaiting d = None \<and> busy d = 0 \<and> lag d = 0 \<and> length (queue d) \<le> 1 \<and> \<not> overrun d"

text \<open>
  C15. \<open>ps2::init\<close> brings up an 8042. On a two-port controller with a keyboard and a mouse that takes commands at once and
  answers within 999 status reads, whatever its configuration byte was, whatever the self test does to that byte, and with
  or without a byte left in the output buffer, the initialisation returns; afterwards both ports run and raise interrupts,
  translation is off, the other bits of the configuration byte are as before, no answer is left unread, the mouse reports,
  and no byte was written into a full input buffer.
\<close>

theorem ps2_init_on_8042:
  assumes "timing_ok p" and "i8042_idle (dev s)"
  shows "\<exists>t. ps2_init (i8042_hw p) s = (Ret (), t) \<and> config (dev t) = (config (dev s) AND 0x8c) OR 3 \<and>
    queue (dev t) = [] \<and> awaiting (dev t) = None \<and> reporting (dev t) \<and> \<not> overrun (dev t)"
proof -
  have "ps2_at p (\<lambda>d. d) (config (dev s)) (queue (dev s)) None (reporting (dev s)) s"
    using assms by (simp add: ps2_at_def i8042_idle_def)
  from wpD [OF kbc.ps2_init_at [OF this]] assms(2) show ?thesis
    by (auto simp: ps2_at_def i8042_idle_def)
qed

section \<open>A controller that needs time\<close>

text \<open>
  What every access of a port preserves, the operations of the drivers preserve, however they end; and \<open>ps2::init\<close> does, if
  messages preserve it too.
\<close>

locale port_invariant =
  fixes hw :: "'d io_hw" and I :: "'d io_state \<Rightarrow> bool"
  assumes keeps_read: "preserves I (port_read hw port)"
    and keeps_write: "preserves I (port_write hw port v)"
begin

lemma keeps_poll: "preserves I (poll hw c ready n)"
  by (induction n) (auto simp: read_status_eq intro!: preserves_rules keeps_read)

lemma keeps_controller:
  "preserves I (Controller_write_command hw c command)" "preserves I (Controller_read_data hw c)"
  "preserves I (Controller_write_data hw c v)"
  unfolding Controller_write_command_def Controller_read_data_def Controller_write_data_def wait_for_read_def wait_for_write_def
  by (intro preserves_rules keeps_poll keeps_read keeps_write)+

lemma keeps_keyboard_data: "preserves I (Keyboard_read_data hw c)"
  unfolding Keyboard_read_data_def by (intro preserves_rules keeps_controller)

lemma keeps_flush: "preserves I (flush_data_port hw c)"
proof -
  have "preserves I (flush_loop hw c n)" for n
    by (induction n) (auto simp: read_status_eq intro!: preserves_rules keeps_read keeps_controller)
  then show ?thesis by (simp add: flush_data_port_def)
qed

lemma keeps_config:
  "preserves I (read_config_byte hw c)" "preserves I (write_config_byte hw c v)" "preserves I (test_controller hw c)"
  "preserves I (test_first_port hw c)" "preserves I (test_second_port hw c)" "preserves I (disable_first_port hw c)"
  "preserves I (disable_second_port hw c)" "preserves I (enable_first_port hw c)" "preserves I (enable_second_port hw c)"
  unfolding read_config_byte_def write_config_byte_def test_controller_def test_first_port_def test_second_port_def
    disable_first_port_def disable_second_port_def enable_first_port_def enable_second_port_def
  by (intro preserves_rules keeps_controller)+

lemma keeps_responses: "preserves I (Keyboard_read_response hw c)" "preserves I (Mouse_read_response hw c)"
proof -
  have decode: "preserves I (Response_from_u8 v)" for v
    by (auto simp: Response_from_u8_def intro!: preserves_rules)
  show "preserves I (Keyboard_read_response hw c)" "preserves I (Mouse_read_response hw c)"
    unfolding Keyboard_read_response_def Mouse_read_response_def by (intro preserves_rules keeps_controller decode)+
qed

lemma keeps_devices:
  "preserves I (Keyboard_reset_and_self_test hw c)" "preserves I (Mouse_reset_and_self_test hw c)"
  "preserves I (enable_data_reporting hw c)"
  unfolding Keyboard_reset_and_self_test_def Keyboard_write_command_def Mouse_reset_and_self_test_def Mouse_write_command_def
    enable_data_reporting_def write_to_second_port_input_buffer_def Mouse_read_data_def option.case
  by (intro preserves_rules keeps_controller keeps_responses; auto intro!: preserves_rules keeps_controller split: Response.split)+

end

locale logging_invariant = port_invariant +
  assumes keeps_klog: "preserves I (kprintln hw msg)"
begin

lemma keeps_init: "preserves I (ps2_init hw)"
  unfolding ps2_init_def Let_def detect_second_port_def enable_ports_def is_ok_def
  by (intro preserves_rules keeps_controller keeps_flush keeps_config keeps_devices keeps_klog)

end

interpretation ovr: logging_invariant "i8042_hw p" "\<lambda>s. overrun (dev s)" for p
proof
  have outb: "overrun d \<Longrightarrow> overrun (i8042_outb p port v d)" for d port v
    by (auto simp: i8042_outb_def i8042_write_def Let_def run_command_def take_data_def respond_def to_keyboard_def
        to_mouse_def split: option.split)
  then show "preserves (\<lambda>s. overrun (dev s)) (port_write (i8042_hw p) port v)" for port v
    by (intro preservesI) (simp add: port_write_def i8042_hw_def)
  show "preserves (\<lambda>s. overrun (dev s)) (port_read (i8042_hw p) port)" for port
    by (intro preservesI) (auto simp: port_read_def i8042_hw_def i8042_inb_def status_read_def data_read_def Let_def
        split: list.split)
qed (auto intro!: preservesI simp: kprintln_def zoom_def i8042_hw_def)

text \<open>
  C39. The driver does not wait before it writes a command. If the controller is not instantaneous (its input buffer is
  still full when the next status would be read), then \<open>ps2::init\<close> writes the second command into a full input buffer,
  and the controller loses it: \<open>write_command\<close> never looks at bit 1 of the status register, which the documentation of the
  controller requires before every write to port \<open>0x60\<close> or \<open>0x64\<close>.
\<close>

theorem slow_controller_overruns:
  assumes "busy (dev s) = 0" and "0 < in_lag p (turn (dev s))"
  shows "overrun (dev (snd (ps2_init (i8042_hw p) s)))"
proof -
  define t where "t = snd (disable_first_port (i8042_hw p) Controller_new s)"
  have first: "disable_first_port (i8042_hw p) Controller_new s = (Ret (), t)" "0 < busy (dev t)"
    using assms by (simp_all add: t_def disable_first_port_def Controller_write_command_def Controller_new_def port_write_def
        i8042_hw_def i8042_outb_def i8042_write_def run_command_def Let_def)
  then have "overrun (dev (snd (disable_second_port (i8042_hw p) Controller_new t)))"
    by (simp add: disable_second_port_def Controller_write_command_def Controller_new_def port_write_def
        i8042_hw_def i8042_outb_def i8042_write_def)
  then show ?thesis
    unfolding ps2_init_def Let_def detect_second_port_def enable_ports_def is_ok_def bnd_Ret [where m = "disable_first_port (i8042_hw p) Controller_new", OF first(1)]
    by (intro preserves_from [where P = "\<lambda>s. overrun (dev s)"] preserves_rules ovr.keeps_controller ovr.keeps_flush
        ovr.keeps_config ovr.keeps_devices ovr.keeps_klog)
qed

section \<open>Two controllers\<close>

definition demo_8042 :: i8042_params where
  "demo_8042 = \<lparr>out_lag = (\<lambda>n. n mod 5), in_lag = (\<lambda>_. 0), self_test = (\<lambda>_. 0x30), mouse_id = 3\<rparr>"

definition fresh_8042 :: i8042 where
  "fresh_8042 = \<lparr>config = 0x47, queue = [0x1c], awaiting = None, reporting = False, lag = 0, busy = 0, turn = 0, overrun = False\<rparr>"

lemma demo_8042_ok: "timing_ok demo_8042" "i8042_idle fresh_8042"
proof -
  have "n mod 5 < 1000" for n :: nat using mod_less_divisor [of 5 n] by linarith
  then show "timing_ok demo_8042" by (simp add: timing_ok_def demo_8042_def)
qed (simp add: i8042_idle_def fresh_8042_def)

theorem ps2_init_on_8042_witness:
  "\<exists>t. ps2_init (i8042_hw demo_8042) \<lparr>dev = fresh_8042, trace = []\<rparr> = (Ret (), t) \<and> config (dev t) = 7 \<and> reporting (dev t)"
  using ps2_init_on_8042 [of demo_8042 "\<lparr>dev = fresh_8042, trace = []\<rparr>"] demo_8042_ok by (auto simp: fresh_8042_def)

theorem slow_controller_overruns_witness:
  "overrun (dev (snd (ps2_init (i8042_hw (demo_8042\<lparr>in_lag := (\<lambda>_. 1)\<rparr>)) \<lparr>dev = fresh_8042, trace = []\<rparr>)))"
  using slow_controller_overruns [of "\<lparr>dev = fresh_8042, trace = []\<rparr>" "demo_8042\<lparr>in_lag := (\<lambda>_. 1)\<rparr>"]
  by (simp add: fresh_8042_def)

end
