(* ===== verification/Apic_Device.thy ===== *)
theory Apic_Device
  imports Apic
begin

unbundle bit_operations_syntax

text \<open>
  \<open>interrupts::init\<close> against the hardware it is written for: a local APIC and an I/O APIC with the registers of the Intel
  manuals that the driver uses. A delivery takes a number of reads of the interrupt command register, which is a
  parameter. \<open>run_events\<close> says whether a sequence of accesses is one that these devices can produce, and which state it
  leads to; the locale \<open>apic_machine\<close> says that the memory-mapped registers of a machine behave like these devices
  through a view of its state. What \<open>Apic\<close> proves of the accesses for arbitrary hardware then becomes a statement about
  the state of the devices.
\<close>

section \<open>The devices\<close>

record apics =
  icr_lag :: nat
  icr_busy :: nat
  lapic :: "u64 \<Rightarrow> u32"
  io_ident :: u8
  io_last :: u8
  io_file :: "u32 \<times> (u32 \<rightharpoonup> u32)"

text \<open>\<open>la\<close> and \<open>ia\<close> are the base addresses of the two devices.\<close>

definition io_data :: "apics \<Rightarrow> u32" where
  "io_data d = (let sel = fst (io_file d) in
     if sel = 0 then push_bit 24 (ucast (io_ident d))
     else if sel = 1 then push_bit 16 (ucast (io_last d)) OR 0x11
     else (case snd (io_file d) sel of None \<Rightarrow> 0 | Some v \<Rightarrow> v))"

definition apics_in :: "u32 \<Rightarrow> u32 \<Rightarrow> u64 \<Rightarrow> apics \<Rightarrow> u32 \<times> apics" where
  "apics_in la ia a d =
     (if a = ucast ia then (fst (io_file d), d)
      else if a = ucast ia + 16 then (io_data d, d)
      else if a = ucast la + 0x300 then
        (if 0 < icr_busy d then lapic d 0x300 OR 0x1000 else lapic d 0x300 AND NOT 0x1000, d\<lparr>icr_busy := icr_busy d - 1\<rparr>)
      else (lapic d (a - ucast la), d))"

definition apics_out :: "u32 \<Rightarrow> u32 \<Rightarrow> u64 \<Rightarrow> u32 \<Rightarrow> apics \<Rightarrow> apics" where
  "apics_out la ia a v d =
     (if a = ucast ia then d\<lparr>io_file := (v, snd (io_file d))\<rparr>
      else if a = ucast ia + 16 then d\<lparr>io_file := (fst (io_file d), (snd (io_file d))(fst (io_file d) \<mapsto> v))\<rparr>
      else if a = ucast la + 0x300 then d\<lparr>lapic := (lapic d)(0x300 := v), icr_busy := icr_lag d\<rparr>
      else d\<lparr>lapic := (lapic d)(a - ucast la := v)\<rparr>)"

section \<open>Sequences of accesses\<close>

fun run_events :: "u32 \<Rightarrow> u32 \<Rightarrow> cpu_event list \<Rightarrow> apics \<Rightarrow> apics option" where
  "run_events la ia [] d = Some d"
| "run_events la ia (MmioWrite a v # es) d = run_events la ia es (apics_out la ia a v d)"
| "run_events la ia (MmioRead a v # es) d =
     (if fst (apics_in la ia a d) = v then run_events la ia es (snd (apics_in la ia a d)) else None)"
| "run_events la ia (_ # es) d = run_events la ia es d"

lemma run_events_append:
  "run_events la ia (es @ fs) d = (case run_events la ia es d of None \<Rightarrow> None | Some e \<Rightarrow> run_events la ia fs e)"
  by (induction la ia es d rule: run_events.induct) simp_all

text \<open>Reading the interrupt command register until the delivery is done.\<close>

lemma run_icr_reads:
  assumes "run_events la ia (map (MmioRead (ucast la + 0x300)) icrs) d = Some e"
    and "ucast la + 0x300 \<noteq> (ucast ia :: u64)" "ucast la + 0x300 \<noteq> (ucast ia + 16 :: u64)"
  shows "e = d\<lparr>icr_busy := icr_busy d - length icrs\<rparr> \<and> (list_all (\<lambda>v. bit v 12) icrs \<longrightarrow> length icrs \<le> icr_busy d)"
  using assms(1)
proof (induction icrs arbitrary: d)
  case (Cons v icrs)
  have v: "v = (if 0 < icr_busy d then lapic d 0x300 OR 0x1000 else lapic d 0x300 AND NOT 0x1000)"
      "run_events la ia (map (MmioRead (ucast la + 0x300)) icrs) (d\<lparr>icr_busy := icr_busy d - 1\<rparr>) = Some e"
    using Cons.prems assms(2,3) by (simp_all add: apics_in_def split: if_splits)
  have "bit v 12 \<longleftrightarrow> 0 < icr_busy d" unfolding v(1) by (simp add: bit_simps)
  with Cons.IH [OF v(2)] show ?case by auto
qed simp

text \<open>Accesses of the I/O APIC: the register file follows \<open>replay\<close>, the identifier and the version are as built in.\<close>

lemma run_io_file:
  "run_events la ia es d = Some e \<Longrightarrow> io_file e = replay ia es (io_file d) \<and> io_ident e = io_ident d \<and> io_last e = io_last d"
proof (induction la ia es d rule: run_events.induct)
  case (2 la ia a v es d)
  moreover have "replay ia (MmioWrite a v # es) (io_file d) = replay ia es (io_file (apics_out la ia a v d))"
    by (cases "io_file d") (simp add: apics_out_def)
  moreover have "io_ident (apics_out la ia a v d) = io_ident d" "io_last (apics_out la ia a v d) = io_last d"
    by (simp_all add: apics_out_def)
  ultimately show ?case by simp
next
  case (3 la ia a v es d)
  moreover have "io_file (snd (apics_in la ia a d)) = io_file d" "io_ident (snd (apics_in la ia a d)) = io_ident d"
      "io_last (snd (apics_in la ia a d)) = io_last d"
    by (simp_all add: apics_in_def)
  ultimately show ?case by (simp split: if_splits)
qed simp_all

definition io_access :: "u32 \<Rightarrow> cpu_event \<Rightarrow> bool" where
  "io_access ia e \<longleftrightarrow> (case e of MmioWrite a v \<Rightarrow> a = ucast ia \<or> a = ucast ia + 16
     | MmioRead a v \<Rightarrow> a = ucast ia \<or> a = ucast ia + 16 | _ \<Rightarrow> False)"

lemma run_io_access:
  "run_events la ia es d = Some e \<Longrightarrow> list_all (io_access ia) es \<Longrightarrow> lapic e = lapic d"
  by (induction la ia es d rule: run_events.induct) (auto simp: io_access_def apics_in_def apics_out_def split: if_splits)

lemma io_apic_events_access: "list_all (io_access (io_apic_base info)) (io_apic_events info idv ver)"
  by (auto simp: list_all_iff io_apic_events_def entry_events_def io_access_def Let_def)

text \<open>What the two reads of the I/O APIC answer.\<close>

lemma io_apic_fields:
  "ucast (drop_bit 24 (push_bit 24 (ucast i :: u32)) AND 0xf) = i AND 0xf"
  "entry_count (push_bit 16 (ucast i) OR 0x11) = unat i" for i :: u8
proof -
  have nibble: "(0xf :: u8) = mask 4" "(0x11 :: u32) < 2 ^ 16" by (simp_all add: mask_eq_exp_minus_1)
  have u8: "unat i < 256" using unsigned_less [of i] by simp
  show "ucast (drop_bit 24 (push_bit 24 (ucast i :: u32)) AND 0xf) = i AND 0xf"
    unfolding masks_u32 nibble by (rule bit_word_eqI) (auto simp: bit_simps)
  have "drop_bit 16 (push_bit 16 (ucast i) OR 0x11) AND 0xff = (ucast i :: u32)"
    unfolding masks_u32
  proof (rule bit_word_eqI)
    fix n assume "n < LENGTH(32)"
    have "\<not> bit (0x11 :: u32) (16 + n)" using bit_less_exp [OF nibble(2), of "16 + n"] by auto
    with \<open>n < LENGTH(32)\<close> show "bit (drop_bit 16 (push_bit 16 (ucast i) OR 0x11 :: u32) AND mask 8) n = bit (ucast i :: u32) n"
      by (auto simp: bit_simps dest: bit_imp_le_length)
  qed
  then show "entry_count (push_bit 16 (ucast i) OR 0x11) = unat i"
    using u8 by (simp add: entry_count_def unsigned_ucast_eq take_bit_nat_eq_self)
qed

lemma run_io_apic_reads:
  assumes "run_events la (io_apic_base info) (io_apic_events info idv ver) d = Some e"
  shows "idv = push_bit 24 (ucast (io_ident d))" "entry_count ver = unat (io_last d)"
proof -
  have "idv = push_bit 24 (ucast (io_ident d)) \<and> ver = push_bit 16 (ucast (io_last d)) OR 0x11"
    using assms
    by (simp add: io_apic_events_def Let_def apics_in_def apics_out_def io_data_def split: if_splits del: upt_Suc)
  then show "idv = push_bit 24 (ucast (io_ident d))" "entry_count ver = unat (io_last d)"
    using io_apic_fields(2) [of "io_last d"] by simp_all
qed

lemma run_io_apic_ident:
  "run_events la (io_apic_base info) (take 2 (io_apic_events info idv ver)) d = Some e \<Longrightarrow> idv = push_bit 24 (ucast (io_ident d))"
  by (simp add: io_apic_events_def Let_def apics_in_def apics_out_def io_data_def split: if_splits)

text \<open>The writes to the local APIC, up to the command that starts the delivery; the registers they set.\<close>

definition lapic_start :: "ApicInfo \<Rightarrow> cpu_event list" where
  "lapic_start info = [LoadIdt, WriteMsr 0x1b 0 (info_local_apic_base info OR 0x800)]
     @ take 10 (local_apic_events (info_local_apic_base info) [])"

definition lapic_started :: "apics \<Rightarrow> apics" where
  "lapic_started d = d\<lparr>lapic := (lapic d)(0xf0 := 0x1ff, 0x350 := 0x10000, 0x360 := 0x10000, 0x340 := 0x10000, 0x370 := 51,
     0x280 := 0, 0xb0 := 0, 0x310 := 0, 0x300 := 0x88500), icr_busy := icr_lag d\<rparr>"

lemma init_events_parts:
  "init_events info icrs = lapic_start info @ map (MmioRead (ucast (info_local_apic_base info) + 0x300)) icrs @
    [MmioWrite (ucast (info_local_apic_base info) + 0x80) 0]"
  by (simp add: init_events_def lapic_start_def local_apic_events_def)

lemma run_lapic_start:
  assumes "apics_apart info" "info_local_apic_base info = la" "io_apic_base info = ia"
  shows "run_events la ia (lapic_start info) d = Some (lapic_started d)"
proof -
  have "ucast la + k \<noteq> (ucast ia :: u64) \<and> ucast la + k \<noteq> (ucast ia + 16 :: u64)"
    if "k \<in> {0xb0, 0xf0, 0x280, 0x300, 0x310, 0x340, 0x350, 0x360, 0x370}" for k
    using assms that by (auto simp: apics_apart_def)
  then show ?thesis
    by (simp add: lapic_start_def local_apic_events_def assms(2) apics_out_def lapic_started_def)
qed

text \<open>The state the devices are left in.\<close>

lemma apics_after_init:
  assumes "run_events la ia (init_events info icrs @ io_apic_events info idv ver) d = Some e"
    and "apics_apart info" "info_local_apic_base info = la" "io_apic_base info = ia"
  shows "lapic e 0xf0 = 0x1ff" "lapic e 0x80 = 0" "lapic e 0x20 = lapic d 0x20"
    and "j < 2 ^ 16 \<Longrightarrow> redirection (snd (io_file e)) j =
      (if j = 12 then Some (44, push_bit 24 (ucast (processor_id info)))
       else if j = 1 then Some (33, push_bit 24 (ucast (processor_id info)))
       else if j < unat (io_last d) then Some (of_nat (32 + j) OR 0x10000, 0)
       else redirection (snd (io_file d)) j)"
proof -
  have apart: "ucast la + 0x300 \<noteq> (ucast ia :: u64)" "ucast la + 0x300 \<noteq> (ucast ia + 16 :: u64)"
      "ucast la + 0x80 \<noteq> (ucast ia :: u64)" "ucast la + 0x80 \<noteq> (ucast ia + 16 :: u64)"
    using assms(2-4) by (auto simp: apics_apart_def)
  obtain d1 where d1: "run_events la ia (init_events info icrs) d = Some d1" "run_events la ia (io_apic_events info idv ver) d1 = Some e"
    using assms(1) by (auto simp: run_events_append split: option.splits)
  then obtain d2 where d2: "run_events la ia (map (MmioRead (ucast la + 0x300)) icrs) (lapic_started d) = Some d2"
      "d1 = apics_out la ia (ucast la + 0x80) 0 d2"
    unfolding init_events_parts assms(3) run_events_append run_lapic_start [OF assms(2-4)] by (auto split: option.splits)
  have "lapic e = lapic d1"
    using run_io_access [OF d1(2)] io_apic_events_access [of info idv ver] assms(4) by simp
  moreover have "lapic d1 = (lapic (lapic_started d))(0x80 := 0)"
    using run_icr_reads [OF d2(1) apart(1,2)] d2(2) apart by (simp add: apics_out_def)
  ultimately show "lapic e 0xf0 = 0x1ff" "lapic e 0x80 = 0" "lapic e 0x20 = lapic d 0x20" by (simp_all add: lapic_started_def)
  assume j: "j < 2 ^ 16"
  have regs: "io_file d1 = io_file d" "io_last d1 = io_last d"
    using run_io_file [OF d1(1)] replay_elsewhere [OF init_events_elsewhere [OF assms(2)]] assms(4) by simp_all
  have "entry_count ver = unat (io_last d)" using run_io_apic_reads(2) [of la info idv ver d1 e] d1(2) regs assms(4) by simp
  moreover have "io_file e = replay (io_apic_base info) (io_apic_events info idv ver) (io_file d)"
    using run_io_file [OF d1(2)] regs assms(4) by simp
  moreover have "unat (io_last d) < 256" using unsigned_less [of "io_last d"] by simp
  ultimately show "redirection (snd (io_file e)) j =
      (if j = 12 then Some (44, push_bit 24 (ucast (processor_id info)))
       else if j = 1 then Some (33, push_bit 24 (ucast (processor_id info)))
       else if j < unat (io_last d) then Some (of_nat (32 + j) OR 0x10000, 0)
       else redirection (snd (io_file d)) j)"
    using redirection_after_init [OF j, of info idv ver "io_file d"]
    by (simp add: entry_words_routed entry_words_masked del: of_nat_add)
qed

section \<open>Invariants of the drivers\<close>

text \<open>What every access preserves, \<open>interrupts::init\<close> preserves, however it ends.\<close>

locale cpu_invariant =
  fixes hw :: "'d cpu_hw" and I :: "'d cpu_state \<Rightarrow> bool"
  assumes keeps_volatile: "preserves I (write_volatile hw a v)" "preserves I (read_volatile hw a)"
    and keeps_msr: "preserves I (write_msr hw r x)"
    and keeps_log: "preserves I (cpu_kprintln hw msg)"
    and keeps_pic: "preserves I (disable_pic_8259 hw)"
    and keeps_cells: "preserves I (LOCAL_APIC_call_once b)" "preserves I init_idt"
begin

lemma keeps_cell_reads: "preserves I LOCAL_APIC_wait" "preserves I cpu_apic_info"
  by (auto intro!: preservesI simp: LOCAL_APIC_wait_def cpu_apic_info_def bnd_def get_def diverge_def ret_def expect_def panic_def
      split: option.split)

lemma keeps_registers:
  "preserves I (LocalApic_write hw a ofs v)" "preserves I (LocalApic_read hw a ofs)"
  "preserves I (IoApic_write hw a r v)" "preserves I (IoApic_read hw a r)"
  unfolding LocalApic_write_def LocalApic_read_def IoApic_write_def IoApic_read_def
  by (intro preserves_rules keeps_volatile)+

lemma keeps_wait: "preserves I (wait_delivery hw a n)"
proof (induction n)
  case 0
  show ?case by (simp add: preserves_def diverge_def)
next
  case (Suc n)
  then show ?case
    unfolding wait_delivery.simps read_interrupt_command_register_low_def by (intro preserves_rules keeps_registers)
qed

lemma keeps_interrupts_init: "preserves I (interrupts_init hw fuel)"
  unfolding interrupts_init_def init_apic_def init_local_apic_def lapic_writes init_io_apic_def Let_def get_id_def
    get_max_amount_of_redirection_entries_def set_redirection_entry_at_def
  by (intro preserves_rules keeps_registers keeps_msr keeps_log keeps_pic keeps_cells keeps_cell_reads keeps_wait)

end

section \<open>Machines with these devices\<close>

text \<open>The accesses since \<open>s\<close> are ones the devices can produce, and led to the state they are in.\<close>

definition explained :: "('d \<Rightarrow> apics) \<Rightarrow> u32 \<Rightarrow> u32 \<Rightarrow> 'd cpu_state \<Rightarrow> 'd cpu_state \<Rightarrow> bool" where
  "explained view la ia s t \<longleftrightarrow> (\<exists>es. events t = rev es @ events s \<and> run_events la ia es (view (dev (io s))) = Some (view (dev (io t))))"

locale apic_machine =
  fixes hw :: "'d cpu_hw" and view :: "'d \<Rightarrow> apics" and la ia :: u32
  assumes mmio_in_view: "fst (mmio_in hw a d) = fst (apics_in la ia a (view d)) \<and> view (snd (mmio_in hw a d)) = snd (apics_in la ia a (view d))"
    and mmio_out_view: "view (mmio_out hw a v d) = apics_out la ia a v (view d)"
    and others_view: "view (outb (ports hw) port b d) = view d" "view (snd (klog (ports hw) msg d)) = view d"
      "view (wrmsr hw r hi lo d) = view d"
begin

lemma explained_refl: "explained view la ia s s"
  unfolding explained_def by (intro exI [of _ "[]"]) simp

lemma explained_snoc:
  assumes "explained view la ia s t" "events u = e # events t" "run_events la ia [e] (view (dev (io t))) = Some (view (dev (io u)))"
  shows "explained view la ia s u"
proof -
  obtain es where "events t = rev es @ events s" "run_events la ia es (view (dev (io s))) = Some (view (dev (io t)))"
    using assms(1) by (auto simp: explained_def)
  with assms(2,3) show ?thesis
    unfolding explained_def by (intro exI [of _ "es @ [e]"]) (simp add: run_events_append)
qed

lemma explained_same:
  "explained view la ia s t \<Longrightarrow> events u = events t \<Longrightarrow> view (dev (io u)) = view (dev (io t)) \<Longrightarrow> explained view la ia s u"
  by (simp add: explained_def)

end

sublocale apic_machine \<subseteq> ex: cpu_invariant hw "explained view la ia s" for s
proof
  show "preserves (explained view la ia s) (write_volatile hw a v)" for a v
  proof (rule preservesI)
    fix t assume "explained view la ia s t"
    then show "explained view la ia s (snd (write_volatile hw a v t))"
      by (cases "mmio_ok a") (auto simp: write_volatile_def mmio_out_view elim: explained_snoc)
  qed
  show "preserves (explained view la ia s) (read_volatile hw a)" for a
  proof (rule preservesI)
    fix t assume "explained view la ia s t"
    then show "explained view la ia s (snd (read_volatile hw a t))"
      by (cases "mmio_ok a") (auto simp: read_volatile_def mmio_in_view split_beta elim: explained_snoc)
  qed
  show "preserves (explained view la ia s) (write_msr hw r x)" for r x
    by (rule preservesI, erule explained_snoc, simp add: write_msr_def others_view Let_def) (simp add: write_msr_def others_view Let_def)
  show "preserves (explained view la ia s) (cpu_kprintln hw msg)" for msg
    by (rule preservesI, erule explained_same)
      (simp_all add: cpu_kprintln_def on_io_def kprintln_def zoom_def others_view split_beta)
  show "preserves (explained view la ia s) (disable_pic_8259 hw)"
    by (rule preservesI, erule explained_same)
      (simp_all add: disable_pic_8259_def on_io_def zoom_def port_write_def bnd_def others_view)
  show "preserves (explained view la ia s) (LOCAL_APIC_call_once b)" for b
    by (rule preservesI, erule explained_same) (simp_all add: LOCAL_APIC_call_once_def update_def split: option.split)
  show "preserves (explained view la ia s) init_idt"
    by (rule preservesI, erule explained_snoc, simp add: init_idt_def update_def) (simp add: init_idt_def update_def)
qed

context apic_machine
begin

text \<open>The devices are where the MADT says and the delivery ends in time.\<close>

lemma interrupts_init_on_apics:
  assumes info: "apic_info s = Some info" "info_local_apic_base info = la" "io_apic_base info = ia" "apics_apart info"
      "apics_aligned info"
    and quiet: "printing_returns hw"
    and dev: "io_ident (view (dev (io s))) AND 0xf = io_apic_id info" "icr_lag (view (dev (io s))) < fuel"
  shows "\<exists>icrs idv ver t. interrupts_init hw fuel s = (Ret (), t) \<and>
    initialised info (init_events info icrs @ io_apic_events info idv ver) s t \<and>
    run_events la ia (init_events info icrs @ io_apic_events info idv ver) (view (dev (io s))) = Some (view (dev (io t)))"
proof -
  let ?d = "view (dev (io s))"
  have explained: "explained view la ia s (snd (interrupts_init hw fuel s))"
    using preservesD [OF ex.keeps_interrupts_init explained_refl] .
  have run: "run_events la ia es ?d = Some (view (dev (io t)))" if "interrupts_init hw fuel s = (r, t)" "initialised info es s t" for r t es
    using explained that by (auto simp: explained_def initialised_def)
  have apart: "ucast la + 0x300 \<noteq> (ucast ia :: u64)" "ucast la + 0x300 \<noteq> (ucast ia + 16 :: u64)"
    using info(2-4) by (auto simp: apics_apart_def)
  note start = run_lapic_start [OF info(4,2,3)]
  have busy: "length icrs \<le> icr_lag ?d" if "list_all (\<lambda>v. bit v 12) icrs"
    "run_events la ia (lapic_start info @ map (MmioRead (ucast la + 0x300)) icrs) ?d = Some e" for icrs e
    using run_icr_reads [OF _ apart, of icrs "lapic_started ?d" e] that
    by (simp add: run_events_append start lapic_started_def)
  have ident: "ucast (drop_bit 24 idv AND 0xf) = io_apic_id info"
    if ran: "run_events la ia (init_events info icrs @ take 2 (io_apic_events info idv ver)) ?d = Some e" for icrs idv ver e
  proof -
    obtain d1 where d1: "run_events la ia (init_events info icrs) ?d = Some d1"
        "run_events la ia (take 2 (io_apic_events info idv ver)) d1 = Some e"
      using ran by (auto simp: run_events_append split: option.splits)
    have "idv = push_bit 24 (ucast (io_ident ?d))"
      using run_io_apic_ident [of la info idv ver d1 e] d1(2) run_io_file [OF d1(1)] info(3) by simp
    then show ?thesis using dev(1) io_apic_fields(1) [of "io_ident ?d"] by simp
  qed
  consider (ret) icrs idv ver t where "interrupts_init hw fuel s = (Ret (), t)"
      "initialised info (init_events info icrs @ io_apic_events info idv ver) s t"
    | (panic) icrs idv t where "interrupts_init hw fuel s = (Panic, t)" "ucast (drop_bit 24 idv AND 0xf) \<noteq> io_apic_id info"
        "initialised info (init_events info icrs @ take 2 (io_apic_events info idv 0)) s t"
    | (stuck) icrs t where "interrupts_init hw fuel s = (Diverge, t)" "length icrs = fuel" "list_all (\<lambda>v. bit v 12) icrs"
        "initialised info (butlast (init_events info icrs)) s t"
    using interrupts_init_runs [OF info(1) quiet, of fuel] info(5) unfolding apics_aligned_def by blast
  then show ?thesis
  proof cases
    case ret
    then show ?thesis using run by blast
  next
    case panic
    then show ?thesis using ident run by blast
  next
    case stuck
    have "run_events la ia (lapic_start info @ map (MmioRead (ucast la + 0x300)) icrs) ?d = Some (view (dev (io t)))"
      using run [OF stuck(1,4)] by (simp add: init_events_parts butlast_append info(2))
    then show ?thesis using busy stuck(2,3) dev(2) by fastforce
  qed
qed

end

end
