(* ===== verification/Pc_Boot.thy ===== *)
theory Pc_Boot
  imports I8042 Apic_Device Kernel_Run
begin

unbundle bit_operations_syntax

text \<open>
  The kernel on a PC: the platform of \<open>Kernel_Main\<close> with the 8042 of \<open>I8042\<close> behind the ports and the interrupt controllers
  of \<open>Apic_Device\<close> behind the memory-mapped registers. On it the hypothesis of \<open>kernel_boots\<close> that the drivers return is a
  theorem, and the state the devices are left in is known, so that the path of a key press from the keyboard through
  the two interrupt controllers to the handler and the screen can be followed: from the device, which holds its bytes until the
  output buffer of the 8042 is free, through the redirection table of the I/O APIC, whose entry names the local APIC it is
  meant for, to the vector and its gate. A byte gets into the output buffer between handlers only: one that a device has
  ready while a handler runs is held until that handler has ended.
\<close>

section \<open>The platform\<close>

text \<open>What the keyboard and the mouse send; \<open>held\<close> are the bytes they have ready, oldest first.\<close>

datatype input = Key u8 | Motion u8

record pc_devices =
  ps2 :: i8042
  apic :: apics
  held :: "input list"

definition pc_platform ::
    "i8042_params \<Rightarrow> u32 \<Rightarrow> u32 \<Rightarrow> (pc_devices, 'q, 'v, 't, 's, 'r) platform \<Rightarrow> (pc_devices, 'q, 'v, 't, 's, 'r) platform" where
  "pc_platform p la ia pl = pl\<lparr>
     port_in := (\<lambda>a d. (fst (i8042_inb p a (ps2 d)), d\<lparr>ps2 := snd (i8042_inb p a (ps2 d))\<rparr>)),
     port_out := (\<lambda>a v d. d\<lparr>ps2 := i8042_outb p a v (ps2 d)\<rparr>),
     register_in := (\<lambda>a d. (fst (apics_in la ia a (apic d)), d\<lparr>apic := snd (apics_in la ia a (apic d))\<rparr>)),
     register_out := (\<lambda>a v d. d\<lparr>apic := apics_out la ia a v (apic d)\<rparr>),
     msr_in := (\<lambda>r d. ((0, 0), d)), msr_out := (\<lambda>r hi lo d. d)\<rparr>"

lemma pc_platform_fields:
  "table_ptrs (pc_platform p la ia pl) = table_ptrs pl" "pci_ports (pc_platform p la ia pl) = pci_ports pl"
  "vec_push (pc_platform p la ia pl) = vec_push pl" "acpi_tables (pc_platform p la ia pl) = acpi_tables pl"
  "KERNEL_STACK_ptr (pc_platform p la ia pl) = KERNEL_STACK_ptr pl" "memory_types (pc_platform p la ia pl) = memory_types pl"
  by (simp_all add: pc_platform_def)

lemma pc_platform_ok: "platform_ok (pc_platform p la ia pl) cfg items vec_ok = platform_ok pl cfg items vec_ok"
  by (simp add: platform_ok_def pc_platform_fields)

text \<open>The machine with a log has the two devices, and each driver leaves the other's device alone.\<close>

lemmas pc_log_hw = log_hw_def pc_platform_def split_beta Let_def

interpretation pk: ps2_machine "ports (log_hw (pc_platform p la ia pl))" "\<lambda>d. ps2 (fst d)" p for p la ia pl
  by standard (simp_all add: pc_log_hw)

interpretation pa: apic_machine "log_hw (pc_platform p la ia pl)" "\<lambda>d. apic (fst d)" la ia for p la ia pl
  by standard (simp_all add: pc_log_hw)

interpretation ka: logging_invariant "ports (log_hw (pc_platform p la ia pl))" "\<lambda>s. apic (fst (dev s)) = d \<and> held (fst (dev s)) = h" for p la ia pl d h
  by standard (auto intro!: preservesI simp: port_read_def port_write_def kprintln_def zoom_def pc_log_hw)

interpretation kl: port_invariant "ports (log_hw (pc_platform p la ia pl))" "\<lambda>s. apic (fst (dev s)) = d \<and> held (fst (dev s)) = h \<and> snd (dev s) = l"
  for p la ia pl d h l
  by standard (auto intro!: preservesI simp: port_read_def port_write_def pc_log_hw)

interpretation kp: cpu_invariant "log_hw (pc_platform p la ia pl)" "\<lambda>s. ps2 (fst (dev (io s))) = d \<and> held (fst (dev (io s))) = h"
  for p la ia pl d h
  by standard (auto intro!: preservesI simp: write_volatile_def read_volatile_def write_msr_def cpu_kprintln_def kprintln_def
      on_io_def zoom_def disable_pic_8259_def port_write_def bnd_def LOCAL_APIC_call_once_def init_idt_def update_def
      i8042_outb_def pc_log_hw split: option.split)

lemma pc_printing_returns: "printing_returns (log_hw pl)"
  by (simp add: printing_returns_def log_hw_def split_beta)

section \<open>The drivers\<close>

text \<open>The devices as the drivers need them: where the MADT says, at aligned addresses, idle, and answering in time.\<close>

definition pc_found :: "i8042_params \<Rightarrow> u32 \<Rightarrow> u32 \<Rightarrow> nat \<Rightarrow> ApicInfo \<Rightarrow> pc_devices \<Rightarrow> bool" where
  "pc_found p la ia fuel info d \<longleftrightarrow> timing_ok p \<and> i8042_idle (ps2 d) \<and> info_local_apic_base info = la \<and> io_apic_base info = ia \<and>
     apics_apart info \<and> apics_aligned info \<and> io_ident (apic d) AND 0xf = io_apic_id info \<and> icr_lag (apic d) < fuel \<and> held d = []"

text \<open>The devices after the drivers, which started from \<open>d\<close>.\<close>

definition pc_started :: "ApicInfo \<Rightarrow> pc_devices \<Rightarrow> pc_devices \<Rightarrow> bool" where
  "pc_started info d e \<longleftrightarrow> config (ps2 e) = (config (ps2 d) AND 0x8c) OR 3 \<and> queue (ps2 e) = [] \<and> awaiting (ps2 e) = None \<and>
     reporting (ps2 e) \<and> busy (ps2 e) = 0 \<and> lag (ps2 e) < 1000 \<and> \<not> overrun (ps2 e) \<and>
     lapic (apic e) 0xf0 = 0x1ff \<and> lapic (apic e) 0x80 = 0 \<and> lapic (apic e) 0x20 = lapic (apic d) 0x20 \<and>
     (\<forall>j < 2 ^ 16. redirection (snd (io_file (apic e))) j =
        (if j = 12 then Some (44, push_bit 24 (ucast (processor_id info)))
         else if j = 1 then Some (33, push_bit 24 (ucast (processor_id info)))
         else if j < unat (io_last (apic d)) then Some (of_nat (32 + j) OR 0x10000, 0)
         else redirection (snd (io_file (apic d))) j))"

lemma pc_drivers_return:
  assumes "pc_found p la ia fuel info (fst (dev (io s)))" "apic_info s = Some info" "LOCAL_APIC s = None"
  shows "\<exists>t. drivers_init (log_hw (pc_platform p la ia pl)) fuel s = (Ret (), t) \<and>
    pc_started info (fst (dev (io s))) (fst (dev (io t))) \<and> held (fst (dev (io t))) = [] \<and> LOCAL_APIC t = Some la"
proof -
  let ?hw = "log_hw (pc_platform p la ia pl)" and ?d = "fst (dev (io s))" and ?ps2 = "\<lambda>d :: pc_devices \<times> string list. ps2 (fst d)"
  note found = assms(1) [unfolded pc_found_def i8042_idle_def]
  have "ps2_at p ?ps2 (config (ps2 ?d)) (queue (ps2 ?d)) None (reporting (ps2 ?d)) (io s)"
    using found by (simp add: ps2_at_def)
  from wpD [OF pk.ps2_init_at [OF this, where la = la and ia = ia and pl = pl]] found
  obtain u where u: "ps2_init (ports ?hw) (io s) = (Ret (), u)" "ps2_at p ?ps2 ((config (ps2 ?d) AND 0x8c) OR 3) [] None True u"
    by auto
  have "preserves (\<lambda>s. apic (fst (dev s)) = apic ?d \<and> held (fst (dev s)) = []) (ps2_init (ports ?hw))" by (rule ka.keeps_init)
  from preservesD [OF this, of "io s"] found have apic_u: "apic (fst (dev u)) = apic ?d" "held (fst (dev u)) = []" by (simp_all add: u(1))
  let ?s = "s\<lparr>io := u\<rparr>"
  obtain icrs idv ver t where t: "interrupts_init ?hw fuel ?s = (Ret (), t)"
      "initialised info (init_events info icrs @ io_apic_events info idv ver) ?s t"
      "run_events la ia (init_events info icrs @ io_apic_events info idv ver) (apic ?d) = Some (apic (fst (dev (io t))))"
    using pa.interrupts_init_on_apics [of ?s info la ia p pl fuel] found assms(2) apic_u by (auto simp: pc_printing_returns)
  have "preserves (\<lambda>s. ps2 (fst (dev (io s))) = ps2 (fst (dev u)) \<and> held (fst (dev (io s))) = []) (interrupts_init ?hw fuel)"
    by (rule kp.keeps_interrupts_init)
  from preservesD [OF this, of ?s] apic_u(2) have kept: "ps2 (fst (dev (io t))) = ps2 (fst (dev u))" "held (fst (dev (io t))) = []"
    by (simp_all add: t(1))
  note kept(1)
  moreover note apics_after_init [OF t(3)]
  ultimately have "pc_started info ?d (fst (dev (io t)))"
    using u(2) found by (auto simp: pc_started_def ps2_at_def)
  moreover have "drivers_init ?hw fuel s = (Ret (), t)"
    using u(1) t(1) by (simp add: drivers_init_def on_io_def zoom_def bnd_def)
  moreover have "LOCAL_APIC t = Some la" using t(2) assms(3) found by (simp add: initialised_def)
  ultimately show ?thesis using kept(2) by blast
qed

section \<open>Bytes from the devices\<close>

text \<open>
  Who an entry of the redirection table is meant for: in physical mode (bit 11 clear) the local APIC whose identifier
  (bits 24 to 31 of its register \<open>0x20\<close>) is in the top byte of the entry, or every one of them (\<open>0xff\<close>).
\<close>

definition lapic_id :: "apics \<Rightarrow> u8" where
  "lapic_id a = ucast (drop_bit 24 (lapic a 0x20))"

definition addressed :: "apics \<Rightarrow> u32 \<Rightarrow> u32 \<Rightarrow> bool" where
  "addressed a lo hi \<longleftrightarrow> \<not> bit lo 11 \<and> (let dest = ucast (drop_bit 24 hi) in dest = lapic_id a \<or> dest = 0xff)"

text \<open>
  The vector at which line \<open>j\<close> of the I/O APIC interrupts the processor: the local APIC is enabled and accepts every
  priority, and the entry of the line is not masked and meant for this local APIC.
\<close>

definition vector_of :: "apics \<Rightarrow> nat \<Rightarrow> u8 option" where
  "vector_of a j = (if bit (lapic a 0xf0) 8 \<and> lapic a 0x80 = 0 then
     (case redirection (snd (io_file a)) j of None \<Rightarrow> None
      | Some (lo, hi) \<Rightarrow> if bit lo 16 \<or> \<not> addressed a lo hi then None else Some (ucast lo)) else None)"

text \<open>
  The driver puts the processor identifier of the MADT into the entries; the entries reach this processor when that is the
  identifier of its local APIC.
\<close>

definition irqs_here :: "ApicInfo \<Rightarrow> apics \<Rightarrow> bool" where
  "irqs_here info a \<longleftrightarrow> processor_id info = lapic_id a \<or> processor_id info = 0xff"

text \<open>
  A device with a byte to send holds it until the output buffer of the controller is free and the clock of its port runs (and,
  for the mouse, reporting is enabled); the bytes behind it wait. The byte then gets into the buffer, and the controller
  raises line 1 or line 12, if its configuration byte says so.
\<close>

definition hold :: "input \<Rightarrow> pc_devices \<Rightarrow> pc_devices" where
  "hold x d = d\<lparr>held := held d @ [x]\<rparr>"

fun port_open :: "input \<Rightarrow> i8042 \<Rightarrow> bool" where
  "port_open (Key _) d \<longleftrightarrow> \<not> bit (config d) 4"
| "port_open (Motion _) d \<longleftrightarrow> \<not> bit (config d) 5 \<and> reporting d"

fun input_byte :: "input \<Rightarrow> u8" where
  "input_byte (Key v) = v"
| "input_byte (Motion v) = v"

fun input_irq :: "input \<Rightarrow> pc_devices \<Rightarrow> u8 option" where
  "input_irq (Key _) d = (if bit (config (ps2 d)) 0 then vector_of (apic d) 1 else None)"
| "input_irq (Motion _) d = (if bit (config (ps2 d)) 1 then vector_of (apic d) 12 else None)"

definition put_byte :: "u8 \<Rightarrow> pc_devices \<Rightarrow> pc_devices" where
  "put_byte v d = d\<lparr>ps2 := (ps2 d)\<lparr>queue := [v], lag := 0\<rparr>\<rparr>"

definition deliver :: "pc_devices \<Rightarrow> pc_devices \<times> u8 option" where
  "deliver d = (case held d of [] \<Rightarrow> (d, None)
     | x # xs \<Rightarrow> if queue (ps2 d) \<noteq> [] \<or> \<not> port_open x (ps2 d) then (d, None)
         else (put_byte (input_byte x) (d\<lparr>held := xs\<rparr>), input_irq x d))"

text \<open>
  The oldest byte is delivered, and the processor takes the interrupt that it raises: the handler behind the gate of the
  vector runs.
\<close>

definition board_devices :: "('d, 'q, 'v, 's) kernel \<Rightarrow> 'd" where
  "board_devices k = rest (dev (io (cpu k)))"

definition with_devices :: "'d \<Rightarrow> ('d, 'q, 'v, 's) kernel \<Rightarrow> ('d, 'q, 'v, 's) kernel" where
  "with_devices d k = k\<lparr>cpu := (cpu k)\<lparr>io := (io (cpu k))\<lparr>dev := (dev (io (cpu k)))\<lparr>rest := d\<rparr>\<rparr>\<rparr>\<rparr>"

definition serve :: "(pc_devices, 'q, 'v, 't, 's, 'r) platform \<Rightarrow> ((pc_devices, 'q, 'v, 's) kernel, unit) prog" where
  "serve pl k = (let (d, irq) = deliver (board_devices k); k = with_devices d k in
     case irq of None \<Rightarrow> (Ret (), k) | Some v \<Rightarrow> on_cpu (run_handler (board_hw pl) (gate v)) k)"

text \<open>What happens on a running PC, in any order: a device has a byte to send, or the next byte is delivered and served.\<close>

datatype moment = Sends input | Serves

fun happen :: "(pc_devices, 'q, 'v, 't, 's, 'r) platform \<Rightarrow> moment \<Rightarrow> ((pc_devices, 'q, 'v, 's) kernel, unit) prog" where
  "happen pl (Sends x) k = (Ret (), with_devices (hold x (board_devices k)) k)"
| "happen pl Serves k = serve pl k"

fun sent :: "moment list \<Rightarrow> input list" where
  "sent [] = []"
| "sent (Sends x # ms) = x # sent ms"
| "sent (Serves # ms) = sent ms"

fun input_handler :: "input \<Rightarrow> handler" where
  "input_handler (Key _) = Keyboard_interrupt_handler"
| "input_handler (Motion _) = Mouse_interrupt_handler"

fun input_text :: "input \<Rightarrow> string" where
  "input_text (Key _) = ''pressed''"
| "input_text (Motion _) = ''moved.''"

fun input_vector :: "input \<Rightarrow> u8" where
  "input_vector (Key _) = 33"
| "input_vector (Motion _) = 44"

lemma input_gate: "gate (input_vector x) = input_handler x" "IDT (input_vector x) = Some (input_handler x)" "32 \<le> input_vector x"
  by (cases x; simp add: gate_def IDT_def EXTERNAL_IRQ_OFFSET_def)+

lemma board_with_devices [simp]:
  "board_devices (with_devices d k) = d" "with_devices d (with_devices e k) = with_devices d k" "with_devices (board_devices k) k = k"
  by (simp_all add: board_devices_def with_devices_def)

lemma config_started:
  "bit ((cfg AND 0x8c) OR 3 :: u8) 0" "bit ((cfg AND 0x8c) OR 3 :: u8) (Suc 0)"
  "\<not> bit ((cfg AND 0x8c) OR 3 :: u8) 4" "\<not> bit ((cfg AND 0x8c) OR 3 :: u8) 5"
  by (simp_all add: bit_simps)

lemma destination: "ucast (drop_bit 24 (push_bit 24 (ucast i :: u32))) = i" for i :: u8
  by (rule bit_word_eqI) (simp add: bit_simps)

text \<open>After the initialisation the two lines have their vectors, if the entries reach this processor, and none otherwise.\<close>

lemma started_vectors:
  assumes "pc_started info d e"
  shows "vector_of (apic e) 1 = (if irqs_here info (apic d) then Some 33 else None)"
    "vector_of (apic e) 12 = (if irqs_here info (apic d) then Some 44 else None)"
proof -
  have "lapic_id (apic e) = lapic_id (apic d)" using assms by (simp add: pc_started_def lapic_id_def)
  then show "vector_of (apic e) 1 = (if irqs_here info (apic d) then Some 33 else None)"
    "vector_of (apic e) 12 = (if irqs_here info (apic d) then Some 44 else None)"
    using assms by (auto simp: pc_started_def vector_of_def addressed_def irqs_here_def destination Let_def)
qed

lemma started_irq:
  "pc_started info d e \<Longrightarrow> input_irq x e = (if irqs_here info (apic d) then Some (input_vector x) else None)"
  using started_vectors [of info d e] by (cases x) (simp_all add: pc_started_def config_started)

lemma started_open: "pc_started info d e \<Longrightarrow> port_open x (ps2 e)"
  by (cases x) (simp_all add: pc_started_def config_started)

text \<open>After the initialisation every byte is delivered.\<close>

lemma started_deliver:
  assumes "pc_started info d e"
  shows "held e = [] \<Longrightarrow> deliver e = (e, None)"
    and "held e = x # xs \<Longrightarrow> deliver e = (put_byte (input_byte x) (e\<lparr>held := xs\<rparr>),
      if irqs_here info (apic d) then Some (input_vector x) else None)"
  using started_irq [OF assms, of x] started_open [OF assms, of x] assms by (simp_all add: deliver_def pc_started_def)

section \<open>The handlers on the machine with a log\<close>

lemma work_logs:
  assumes "m (io s) = (Ret r, u)" "LOCAL_APIC s = Some la" "lapic_aligned la"
  shows "\<exists>t. bnd (on_io m) (\<lambda>_. bnd (cpu_kprintln (log_hw (pc_platform p la ia pl)) msg) (\<lambda>_.
      end_of_interrupt (log_hw (pc_platform p la ia pl)))) s = (Ret (), t) \<and>
    ps2 (fst (dev (io t))) = ps2 (fst (dev u)) \<and> apic (fst (dev (io t))) = apics_out la ia (ucast la + 0xb0) 0 (apic (fst (dev u))) \<and>
    held (fst (dev (io t))) = held (fst (dev u)) \<and> snd (dev (io t)) = snd (dev u) @ [msg] \<and> events t = MmioWrite (ucast la + 0xb0) 0 # events s \<and> LOCAL_APIC t = Some la"
  using assms lapic_mmio_ok [of "0xb0 div 4" la]
  by (simp add: bnd_def cpu_kprintln_def on_io_def kprintln_def zoom_def end_of_interrupt_def LOCAL_APIC_wait_def get_def ret_def
      write_end_of_interrupt_register_def LocalApic_write_def write_volatile_def pc_log_hw)

lemma handler_logs:
  assumes "ps2_at p (\<lambda>d. ps2 (fst d)) cfg [input_byte x] None m (io s)" "lag (ps2 (fst (dev (io s)))) = 0" "LOCAL_APIC s = Some la" "lapic_aligned la"
  shows "\<exists>t. run_handler (log_hw (pc_platform p la ia pl)) (input_handler x) s = (Ret (), t) \<and>
    ps2_at p (\<lambda>d. ps2 (fst d)) cfg [] None m (io t) \<and>
    apic (fst (dev (io t))) = apics_out la ia (ucast la + 0xb0) 0 (apic (fst (dev (io s)))) \<and>
    held (fst (dev (io t))) = held (fst (dev (io s))) \<and> snd (dev (io t)) = snd (dev (io s)) @ [input_text x] \<and> events t = MmioWrite (ucast la + 0xb0) 0 # events s \<and> LOCAL_APIC t = Some la"
proof -
  let ?hw = "log_hw (pc_platform p la ia pl)" and ?at = "ps2_at p (\<lambda>d :: pc_devices \<times> string list. ps2 (fst d)) cfg [] None m"
  let ?I = "\<lambda>t. apic (fst (dev t)) = apic (fst (dev (io s))) \<and> held (fst (dev t)) = held (fst (dev (io s))) \<and> snd (dev t) = snd (dev (io s))"
  have work: "\<exists>t. bnd (on_io w) (\<lambda>_. bnd (cpu_kprintln ?hw msg) (\<lambda>_. end_of_interrupt ?hw)) s = (Ret (), t) \<and> ?at (io t) \<and>
      apic (fst (dev (io t))) = apics_out la ia (ucast la + 0xb0) 0 (apic (fst (dev (io s)))) \<and>
      held (fst (dev (io t))) = held (fst (dev (io s))) \<and> snd (dev (io t)) = snd (dev (io s)) @ [msg] \<and> events t = MmioWrite (ucast la + 0xb0) 0 # events s \<and> LOCAL_APIC t = Some la"
    if run: "wp w (\<lambda>_. ?at) (io s)" and keep: "preserves ?I w" for w :: "((pc_devices \<times> string list) io_state, 'w) prog" and msg
  proof -
    obtain r u where u: "w (io s) = (Ret r, u)" "?at u" using wpD [OF run] by blast
    from preservesD [OF keep, of "io s"] u(1) have "?I u" by simp
    with work_logs [of w s r u la p ia pl msg, OF u(1) assms(3,4)] u(2) show ?thesis by (auto simp: ps2_at_def)
  qed
  show ?thesis
  proof (cases x)
    case (Key v)
    have "wp (Keyboard_read_data (ports ?hw) Controller_new) (\<lambda>_. ?at) (io s)"
      unfolding Keyboard_read_data_def wp_bndE wp_map_err
      by (rule pk.read_data_at) (use assms(1) Key in \<open>simp_all add: wp_ret\<close>)
    from work [OF this kl.keeps_keyboard_data, of "''pressed''"] show ?thesis
      by (simp add: Key keyboard_interrupt_handler_def device_views)
  next
    case (Motion v)
    have "wp (flush_data_port (ports ?hw) Controller_new) (\<lambda>_. ?at) (io s)"
      by (rule pk.flush_at [OF assms(1,2)]) simp_all
    from work [OF this kl.keeps_flush, of "''moved.''"] show ?thesis
      by (simp add: Motion mouse_interrupt_handler_def device_views)
  qed
qed

text \<open>Acknowledging an interrupt leaves the configuration of the interrupt controllers as it is.\<close>

lemma started_acknowledged:
  assumes "pc_started info d e" "apics_apart info" "ps2_at p (\<lambda>d. ps2 (g d)) (config (ps2 e)) [] None True (io t)"
    and "apic (g (dev (io t))) = apics_out (info_local_apic_base info) (io_apic_base info) (ucast (info_local_apic_base info) + 0xb0) 0 (apic e)"
  shows "pc_started info d (g (dev (io t)))"
proof -
  let ?f = "apic (g (dev (io t)))"
  have "lapic ?f 0xf0 = lapic (apic e) 0xf0 \<and> lapic ?f 0x80 = lapic (apic e) 0x80 \<and> lapic ?f 0x20 = lapic (apic e) 0x20 \<and> io_file ?f = io_file (apic e)"
    using assms(2,4) by (auto simp: apics_apart_def apics_out_def)
  with assms(1,3) show ?thesis by (simp add: pc_started_def ps2_at_def)
qed

section \<open>The kernel\<close>

text \<open>
  A kernel that serves its devices: it cannot be told from the machine with the log \<open>s\<close>, whose devices are as the drivers
  left them, with the bytes \<open>q\<close> held.
\<close>

definition serving ::
    "i8042_params \<Rightarrow> ApicInfo \<Rightarrow> pc_devices \<Rightarrow> nat \<Rightarrow> nat \<Rightarrow> terminal \<Rightarrow> input list \<Rightarrow> (pc_devices \<times> string list) cpu_state \<Rightarrow>
      (pc_devices, 'q, 'v, 's) kernel \<Rightarrow> bool" where
  "serving p info d W H c q s k \<longleftrightarrow> same_cpu (on_board W H c) (cpu k) s \<and> timing_ok p \<and> apics_apart info \<and> apics_aligned info \<and>
     pc_started info d (fst (dev (io s))) \<and> held (fst (dev (io s))) = q \<and> LOCAL_APIC s = Some (info_local_apic_base info)"

lemma serving_devices: "serving p info d W H c q s k \<Longrightarrow> board_devices k = fst (dev (io s))"
  by (simp add: serving_def board_devices_def same_cpu_def same_io_def on_board_def split_beta)

lemma serving_facts:
  assumes "serving p info d W H c q s k"
  shows "pc_started info d (board_devices k)" "held (board_devices k) = q" "shows_log W H c (snd (dev (io s))) (kernel_crt k)"
    "events (cpu k) = events s"
  using assms serving_devices [OF assms]
  by (simp_all add: serving_def same_cpu_def same_io_def on_board_def split_beta kernel_crt_def)

lemma hold_step:
  assumes "serving p info d W H c q s k"
  shows "\<exists>s'. serving p info d W H c (q @ [x]) s' (with_devices (hold x (board_devices k)) k) \<and>
    snd (dev (io s')) = snd (dev (io s)) \<and> events s' = events s"
proof (intro exI conjI)
  let ?s = "s\<lparr>io := (io s)\<lparr>dev := (hold x (fst (dev (io s))), snd (dev (io s)))\<rparr>\<rparr>"
  show "serving p info d W H c (q @ [x]) ?s (with_devices (hold x (board_devices k)) k)"
    using assms serving_devices [OF assms]
    by (simp add: serving_def with_devices_def same_cpu_def same_io_def on_board_def split_beta hold_def pc_started_def)
qed simp_all

lemma serve_step:
  assumes "serving p info d W H c (x # q) s k" "irqs_here info (apic d)"
  shows "\<exists>s' k'. serve (pc_platform p (info_local_apic_base info) (io_apic_base info) pl) k = (Ret (), k') \<and>
    serving p info d W H c q s' k' \<and> snd (dev (io s')) = snd (dev (io s)) @ [input_text x] \<and>
    events s' = MmioWrite (ucast (info_local_apic_base info) + 0xb0) 0 # events s"
proof -
  let ?pl = "pc_platform p (info_local_apic_base info) (io_apic_base info) pl" and ?e = "fst (dev (io s))"
  let ?d = "put_byte (input_byte x) (?e\<lparr>held := q\<rparr>)"
  let ?s = "s\<lparr>io := (io s)\<lparr>dev := (?d, snd (dev (io s)))\<rparr>\<rparr>" and ?k = "with_devices ?d k"
  note k = assms(1) [unfolded serving_def]
  note e = serving_devices [OF assms(1)]
  have v: "deliver ?e = (?d, Some (input_vector x))" using started_deliver(2) [of info d ?e x q] k assms(2) by simp
  have "ps2_at p (\<lambda>d. ps2 (fst d)) (config (ps2 ?e)) [input_byte x] None True (io ?s)" "lag (ps2 (fst (dev (io ?s)))) = 0"
    using k by (simp_all add: ps2_at_def pc_started_def put_byte_def)
  from handler_logs [OF this, of "info_local_apic_base info" "io_apic_base info" pl] k
  obtain t where t: "run_handler (log_hw ?pl) (input_handler x) ?s = (Ret (), t)"
      "ps2_at p (\<lambda>d. ps2 (fst d)) (config (ps2 ?e)) [] None True (io t)" "LOCAL_APIC t = Some (info_local_apic_base info)"
      "apic (fst (dev (io t))) = apics_out (info_local_apic_base info) (io_apic_base info) (ucast (info_local_apic_base info) + 0xb0) 0 (apic ?e)"
      "held (fst (dev (io t))) = q"
      "snd (dev (io t)) = snd (dev (io s)) @ [input_text x]" "events t = MmioWrite (ucast (info_local_apic_base info) + 0xb0) 0 # events s"
    by (auto simp: put_byte_def apics_aligned_def)
  have "same_cpu (on_board W H c) (cpu ?k) ?s"
    using k by (simp add: with_devices_def same_cpu_def same_io_def on_board_def split_beta)
  from simD [OF km.sim_run_handler this t(1)] obtain u where u: "run_handler (board_hw ?pl) (input_handler x) (cpu ?k) = (Ret (), u)"
      "same_cpu (on_board W H c) u t" by blast
  have "pc_started info d (fst (dev (io t)))" using started_acknowledged [of info d ?e p fst, OF _ _ t(2,4)] k by blast
  then have "serving p info d W H c q t (?k\<lparr>cpu := u\<rparr>)" using u(2) t(3,5) k by (simp add: serving_def)
  moreover have "serve ?pl k = (Ret (), ?k\<lparr>cpu := u\<rparr>)"
    using u(1) v by (simp add: serve_def e on_cpu_def zoom_def input_gate)
  ultimately show ?thesis using t(6,7) by blast
qed

lemma serve_nothing:
  assumes "serving p info d W H c [] s k"
  shows "serve pl k = (Ret (), k)"
  using started_deliver(1) [OF serving_facts(1,2) [OF assms]] by (simp add: serve_def)

text \<open>Any sequence of moments: the bytes that were served are a prefix of those that were there and those that came.\<close>

lemma happen_all:
  assumes "serving p info d W H c q s k" "irqs_here info (apic d)"
  shows "\<exists>s' k' ys q'. for_each ms (happen (pc_platform p (info_local_apic_base info) (io_apic_base info) pl)) k = (Ret (), k') \<and>
    serving p info d W H c q' s' k' \<and> q @ sent ms = ys @ q' \<and> snd (dev (io s')) = snd (dev (io s)) @ map input_text ys \<and>
    events s' = replicate (length ys) (MmioWrite (ucast (info_local_apic_base info) + 0xb0) 0) @ events s"
  using assms(1)
proof (induction ms arbitrary: q s k)
  case Nil
  then show ?case by (intro exI [of _ s] exI [of _ k] exI [of _ "[]"] exI [of _ q]) (simp add: ret_def)
next
  case (Cons m ms)
  let ?pl = "pc_platform p (info_local_apic_base info) (io_apic_base info) pl"
  show ?case
  proof (cases m)
    case (Sends x)
    obtain s1 where s1: "serving p info d W H c (q @ [x]) s1 (with_devices (hold x (board_devices k)) k)"
        "snd (dev (io s1)) = snd (dev (io s))" "events s1 = events s"
      using hold_step [OF Cons.prems] by blast
    with Cons.IH [OF s1(1)] Sends show ?thesis by (simp add: bnd_def)
  next
    case Serves
    show ?thesis
    proof (cases q)
      case Nil
      with Cons.IH [OF Cons.prems] serve_nothing [OF Cons.prems [unfolded Nil], of ?pl] Serves show ?thesis by (simp add: bnd_def)
    next
      case q: (Cons x xs)
      obtain s1 k1 where one: "serve ?pl k = (Ret (), k1)" "serving p info d W H c xs s1 k1"
          "snd (dev (io s1)) = snd (dev (io s)) @ [input_text x]"
          "events s1 = MmioWrite (ucast (info_local_apic_base info) + 0xb0) 0 # events s"
        using serve_step [OF Cons.prems [unfolded q] assms(2), of pl] by blast
      from Cons.IH [OF one(2)] obtain s2 k2 ys q' where two: "for_each ms (happen ?pl) k1 = (Ret (), k2)"
          "serving p info d W H c q' s2 k2" "xs @ sent ms = ys @ q'" "snd (dev (io s2)) = snd (dev (io s1)) @ map input_text ys"
          "events s2 = replicate (length ys) (MmioWrite (ucast (info_local_apic_base info) + 0xb0) 0) @ events s1"
        by blast
      with one Serves q show ?thesis
        by (intro exI [of _ s2] exI [of _ k2] exI [of _ "x # ys"] exI [of _ q']) (simp add: bnd_def replicate_app_Cons_same)
    qed
  qed
qed

lemma serve_all:
  assumes "serving p info d W H c q s k" "irqs_here info (apic d)"
  shows "\<exists>s' k'. for_each (replicate (length q) Serves) (happen (pc_platform p (info_local_apic_base info) (io_apic_base info) pl)) k =
      (Ret (), k') \<and> serving p info d W H c [] s' k' \<and> snd (dev (io s')) = snd (dev (io s)) @ map input_text q \<and>
    events s' = replicate (length q) (MmioWrite (ucast (info_local_apic_base info) + 0xb0) 0) @ events s"
  using assms(1)
proof (induction q arbitrary: s k)
  case Nil
  then show ?case by (auto simp: ret_def)
next
  case (Cons x q)
  obtain s1 k1 where one: "serve (pc_platform p (info_local_apic_base info) (io_apic_base info) pl) k = (Ret (), k1)"
      "serving p info d W H c q s1 k1" "snd (dev (io s1)) = snd (dev (io s)) @ [input_text x]"
      "events s1 = MmioWrite (ucast (info_local_apic_base info) + 0xb0) 0 # events s"
    using serve_step [OF Cons.prems assms(2), of pl] by blast
  with Cons.IH [OF one(2)] show ?case by (auto simp: bnd_def replicate_app_Cons_same)
qed

text \<open>A PC boots, as a lemma for the theories below.\<close>

lemma pc_boots:
  assumes "fresh_kernel items vec_ok k" and "platform_ok pl cfg items vec_ok"
    and "mode_ok (bi_graphic_info bi)" and "1200 \<le> gi_width (bi_graphic_info bi)" and "400 \<le> gi_height (bi_graphic_info bi)"
    and "32 < pci_fuel" and "length (enum_all (cfg (machine (DEVICES k))) pci_fuel) \<le> 32"
    and "bi_rsdp_addr bi = Some \<lparr>phys_ptr = rsdp\<rparr>" and "tables_found (acpi_tables pl) rsdp = Some (fadt, info)"
    and "pc_found p la ia apic_fuel info (board_devices k)"
    and "wf_map 0 (bi_memory_map bi)" and "unat (KERNEL_STACK_ptr pl) + 0x100000 < 2 ^ 64"
  shows "\<exists>k1 c s. start_kernel (pc_platform p la ia pl) pci_fuel apic_fuel bi k = (Ret (), k1) \<and>
    kernel_up (pc_platform p la ia pl) bi k1 \<and> bordered (bi_graphic_info bi) (memory (screen (kernel_crt k))) c \<and>
    serving p info (board_devices k) (gi_width (bi_graphic_info bi)) (gi_height (bi_graphic_info bi)) c [] s k1"
proof -
  let ?pl = "pc_platform p la ia pl" and ?W = "gi_width (bi_graphic_info bi)" and ?H = "gi_height (bi_graphic_info bi)"
  let ?s = "before_drivers ?pl rsdp fadt info k"
  have s: "fst (dev (io ?s)) = board_devices k" "apic_info ?s = Some info" "LOCAL_APIC ?s = None"
    using assms(1) by (simp_all add: before_drivers_def log_cpu_def board_devices_def fresh_kernel_def)
  obtain t where t: "drivers_init (log_hw ?pl) apic_fuel ?s = (Ret (), t)" "LOCAL_APIC t = Some la"
      "pc_started info (board_devices k) (fst (dev (io t)))" "held (fst (dev (io t))) = []"
    using pc_drivers_return [of p la ia apic_fuel info ?s pl] assms(10) s by auto
  let ?t = "t\<lparr>io := (io t)\<lparr>dev := (fst (dev (io t)), snd (dev (io t)) @ [last_words])\<rparr>\<rparr>"
  obtain k1 c where k1: "start_kernel ?pl pci_fuel apic_fuel bi k = (Ret (), k1)" "kernel_up ?pl bi k1"
      "same_cpu (on_board ?W ?H c) (cpu k1) ?t" "bordered (bi_graphic_info bi) (memory (screen (kernel_crt k))) c"
    using kernel_boots_result [OF assms(1), of ?pl cfg bi pci_fuel rsdp fadt info apic_fuel t] assms(2-9,11,12) t(1)
    by (auto simp: pc_platform_ok pc_platform_fields)
  have "serving p info (board_devices k) ?W ?H c [] ?t k1"
    using k1(3) t(2-4) assms(10) by (simp add: serving_def pc_found_def)
  with k1 show ?thesis by blast
qed

lemma pc_boots_and_serves:
  assumes "fresh_kernel items vec_ok k" and "platform_ok pl cfg items vec_ok"
    and "mode_ok (bi_graphic_info bi)" and "1200 \<le> gi_width (bi_graphic_info bi)" and "400 \<le> gi_height (bi_graphic_info bi)"
    and "32 < pci_fuel" and "length (enum_all (cfg (machine (DEVICES k))) pci_fuel) \<le> 32"
    and "bi_rsdp_addr bi = Some \<lparr>phys_ptr = rsdp\<rparr>" and "tables_found (acpi_tables pl) rsdp = Some (fadt, info)"
    and "pc_found p la ia apic_fuel info (board_devices k)"
    and "wf_map 0 (bi_memory_map bi)" and "unat (KERNEL_STACK_ptr pl) + 0x100000 < 2 ^ 64"
    and "irqs_here info (apic (board_devices k))"
  shows "\<exists>k1 k2 k3 c log ys. start_kernel (pc_platform p la ia pl) pci_fuel apic_fuel bi k = (Ret (), k1) \<and>
    kernel_up (pc_platform p la ia pl) bi k1 \<and> bordered (bi_graphic_info bi) (memory (screen (kernel_crt k))) c \<and>
    shows_log (gi_width (bi_graphic_info bi)) (gi_height (bi_graphic_info bi)) c log (kernel_crt k1) \<and>
    for_each ms (happen (pc_platform p la ia pl)) k1 = (Ret (), k2) \<and> sent ms = ys @ held (board_devices k2) \<and>
    shows_log (gi_width (bi_graphic_info bi)) (gi_height (bi_graphic_info bi)) c (log @ map input_text ys) (kernel_crt k2) \<and>
    events (cpu k2) = replicate (length ys) (MmioWrite (ucast la + 0xb0) 0) @ events (cpu k1) \<and>
    for_each (replicate (length (held (board_devices k2))) Serves) (happen (pc_platform p la ia pl)) k2 = (Ret (), k3) \<and>
    held (board_devices k3) = [] \<and> pc_started info (board_devices k) (board_devices k3) \<and>
    shows_log (gi_width (bi_graphic_info bi)) (gi_height (bi_graphic_info bi)) c (log @ map input_text (sent ms)) (kernel_crt k3) \<and>
    events (cpu k3) = replicate (length (sent ms)) (MmioWrite (ucast la + 0xb0) 0) @ events (cpu k1)"
proof -
  let ?pl = "pc_platform p la ia pl" and ?W = "gi_width (bi_graphic_info bi)" and ?H = "gi_height (bi_graphic_info bi)"
  have base: "info_local_apic_base info = la" "io_apic_base info = ia" using assms(10) by (simp_all add: pc_found_def)
  obtain k1 c s where k1: "start_kernel ?pl pci_fuel apic_fuel bi k = (Ret (), k1)" "kernel_up ?pl bi k1"
      "bordered (bi_graphic_info bi) (memory (screen (kernel_crt k))) c" "serving p info (board_devices k) ?W ?H c [] s k1"
    using pc_boots [OF assms(1-12)] by blast
  from happen_all [OF k1(4) assms(13), of ms pl, unfolded base]
  obtain s2 k2 ys q where k2: "for_each ms (happen ?pl) k1 = (Ret (), k2)" "serving p info (board_devices k) ?W ?H c q s2 k2"
      "sent ms = ys @ q" "snd (dev (io s2)) = snd (dev (io s)) @ map input_text ys"
      "events s2 = replicate (length ys) (MmioWrite (ucast la + 0xb0) 0) @ events s"
    by auto
  from serve_all [OF k2(2) assms(13), of pl, unfolded base]
  obtain s3 k3 where k3: "for_each (replicate (length q) Serves) (happen ?pl) k2 = (Ret (), k3)"
      "serving p info (board_devices k) ?W ?H c [] s3 k3" "snd (dev (io s3)) = snd (dev (io s2)) @ map input_text q"
      "events s3 = replicate (length q) (MmioWrite (ucast la + 0xb0) 0) @ events s2"
    by blast
  note facts = serving_facts [OF k1(4)] serving_facts [OF k2(2)] serving_facts [OF k3(2)]
  have "length (sent ms) = length q + length ys" using k2(3) by simp
  then have "events (cpu k3) = replicate (length (sent ms)) (MmioWrite (ucast la + 0xb0) 0) @ events (cpu k1)"
    using k2(5) k3(4) facts by (simp add: replicate_add)
  with k1(1-3) k2(1,3-5) k3(1,3) facts show ?thesis
    by (intro exI [of _ k1] exI [of _ k2] exI [of _ k3] exI [of _ c] exI [of _ "snd (dev (io s))"] exI [of _ ys]) simp
qed

text \<open>
  C3. A PC boots this kernel and then serves its keyboard and mouse. On a machine with an 8042 that answers in time, with the
  interrupt controllers that the MADT describes, at aligned addresses, with a MADT whose processor identifier is the
  identifier of the processor's local APIC (which the driver relies on), and with the other hypotheses of a successful
  boot, \<open>_start\<close> gets to its halt loop: that the drivers return is not assumed here. From there on, whatever bytes the keyboard and
  the mouse have to send, and in whatever order sending and serving alternate: a byte is held by its device until
  the output buffer is free (and while a handler runs), is then delivered, in the order of sending, and raises an interrupt, whose vector
  leads to the handler of that device; the handler takes the byte out of the controller, prints its line below the lines
  already on the screen, and acknowledges the interrupt once. No byte is lost: what has not been served is still held, and as many
  further interrupts as bytes are held serve them all and leave the devices ready for the next one.
\<close>

theorem pc_serves_inputs:
  assumes "fresh_kernel items vec_ok k" and "platform_ok pl cfg items vec_ok"
    and "mode_ok (bi_graphic_info bi)" and "1200 \<le> gi_width (bi_graphic_info bi)" and "400 \<le> gi_height (bi_graphic_info bi)"
    and "32 < pci_fuel" and "length (enum_all (cfg (machine (DEVICES k))) pci_fuel) \<le> 32"
    and "bi_rsdp_addr bi = Some \<lparr>phys_ptr = rsdp\<rparr>" and "tables_found (acpi_tables pl) rsdp = Some (fadt, info)"
    and "pc_found p la ia apic_fuel info (board_devices k)"
    and "wf_map 0 (bi_memory_map bi)" and "unat (KERNEL_STACK_ptr pl) + 0x100000 < 2 ^ 64"
    and "irqs_here info (apic (board_devices k))"
  shows "\<exists>k1 k2 k3 c log ys. start_kernel (pc_platform p la ia pl) pci_fuel apic_fuel bi k = (Ret (), k1) \<and>
    kernel_up (pc_platform p la ia pl) bi k1 \<and> bordered (bi_graphic_info bi) (memory (screen (kernel_crt k))) c \<and>
    shows_log (gi_width (bi_graphic_info bi)) (gi_height (bi_graphic_info bi)) c log (kernel_crt k1) \<and>
    for_each ms (happen (pc_platform p la ia pl)) k1 = (Ret (), k2) \<and> sent ms = ys @ held (board_devices k2) \<and>
    shows_log (gi_width (bi_graphic_info bi)) (gi_height (bi_graphic_info bi)) c (log @ map input_text ys) (kernel_crt k2) \<and>
    events (cpu k2) = replicate (length ys) (MmioWrite (ucast la + 0xb0) 0) @ events (cpu k1) \<and>
    for_each (replicate (length (held (board_devices k2))) Serves) (happen (pc_platform p la ia pl)) k2 = (Ret (), k3) \<and>
    held (board_devices k3) = [] \<and> pc_started info (board_devices k) (board_devices k3) \<and>
    shows_log (gi_width (bi_graphic_info bi)) (gi_height (bi_graphic_info bi)) c (log @ map input_text (sent ms)) (kernel_crt k3) \<and>
    events (cpu k3) = replicate (length (sent ms)) (MmioWrite (ucast la + 0xb0) 0) @ events (cpu k1)"
  using assms by (rule pc_boots_and_serves)

section \<open>A processor identifier that is not the local APIC's\<close>

text \<open>A byte is delivered, and no interrupt comes of it: it stays in the controller, and all others stay held.\<close>

definition stuck :: "ApicInfo \<Rightarrow> pc_devices \<Rightarrow> pc_devices \<Rightarrow> u8 list \<Rightarrow> bool" where
  "stuck info d e bs \<longleftrightarrow> (queue (ps2 e) = [] \<longrightarrow> pc_started info d e) \<and> queue (ps2 e) @ map input_byte (held e) = bs"

lemma stuck_deliver:
  assumes "stuck info d e bs" "\<not> irqs_here info (apic d)"
  shows "snd (deliver e) = None \<and> stuck info d (fst (deliver e)) bs"
proof (cases "queue (ps2 e) \<noteq> []")
  case True
  then have "deliver e = (e, None)" by (simp add: deliver_def split: list.split)
  with assms(1) show ?thesis by simp
next
  case False
  then have e: "pc_started info d e" using assms(1) by (simp add: stuck_def)
  show ?thesis
  proof (cases "held e")
    case Nil
    with started_deliver(1) [OF e] assms(1) show ?thesis by simp
  next
    case (Cons x xs)
    have "stuck info d (put_byte (input_byte x) (e\<lparr>held := xs\<rparr>)) bs"
      using assms(1) False Cons by (simp add: stuck_def put_byte_def)
    with started_deliver(2) [OF e Cons] assms(2) show ?thesis by simp
  qed
qed

lemma stuck_hold: "stuck info d e bs \<Longrightarrow> stuck info d (hold x e) (bs @ [input_byte x])"
  by (auto simp: stuck_def hold_def pc_started_def)

lemma happen_stuck:
  assumes "stuck info d (board_devices k) bs" "\<not> irqs_here info (apic d)"
  shows "\<exists>e. for_each ms (happen pl) k = (Ret (), with_devices e k) \<and> stuck info d e (bs @ map input_byte (sent ms))"
  using assms(1)
proof (induction ms arbitrary: k bs)
  case Nil
  then show ?case by (intro exI [of _ "board_devices k"]) (simp add: ret_def)
next
  case (Cons m ms)
  show ?case
  proof (cases m)
    case (Sends x)
    with Cons.IH [of "with_devices (hold x (board_devices k)) k" "bs @ [input_byte x]"] stuck_hold [OF Cons.prems] show ?thesis
      by (simp add: bnd_def)
  next
    case Serves
    have "serve pl k = (Ret (), with_devices (fst (deliver (board_devices k))) k)"
      using stuck_deliver [OF Cons.prems assms(2)] by (simp add: serve_def split_beta)
    with Cons.IH [of "with_devices (fst (deliver (board_devices k))) k" bs] stuck_deliver [OF Cons.prems assms(2)] Serves
    show ?thesis by (simp add: bnd_def)
  qed
qed

text \<open>
  C35. The driver fills the destination of the redirection entries with the processor identifier of the MADT, where the I/O APIC
  compares it with the identifiers of the local APICs. On a PC where the two differ (and the former is not the broadcast
  identifier), \<open>_start\<close> reaches its halt loop all the same, but from there on no byte of the keyboard or the mouse is ever
  served, whatever they send: nothing is printed, no interrupt is acknowledged, nothing of the kernel's state changes; the first byte stays in the output buffer
  and the others stay in the devices.
\<close>

theorem wrong_destination_loses_input:
  assumes "fresh_kernel items vec_ok k" and "platform_ok pl cfg items vec_ok"
    and "mode_ok (bi_graphic_info bi)" and "1200 \<le> gi_width (bi_graphic_info bi)" and "400 \<le> gi_height (bi_graphic_info bi)"
    and "32 < pci_fuel" and "length (enum_all (cfg (machine (DEVICES k))) pci_fuel) \<le> 32"
    and "bi_rsdp_addr bi = Some \<lparr>phys_ptr = rsdp\<rparr>" and "tables_found (acpi_tables pl) rsdp = Some (fadt, info)"
    and "pc_found p la ia apic_fuel info (board_devices k)"
    and "wf_map 0 (bi_memory_map bi)" and "unat (KERNEL_STACK_ptr pl) + 0x100000 < 2 ^ 64"
    and "\<not> irqs_here info (apic (board_devices k))"
  shows "\<exists>k1 e. start_kernel (pc_platform p la ia pl) pci_fuel apic_fuel bi k = (Ret (), k1) \<and>
    kernel_up (pc_platform p la ia pl) bi k1 \<and> for_each ms (happen (pc_platform p la ia pl)) k1 = (Ret (), with_devices e k1) \<and>
    queue (ps2 e) @ map input_byte (held e) = map input_byte (sent ms)"
proof -
  obtain k1 c s where k1: "start_kernel (pc_platform p la ia pl) pci_fuel apic_fuel bi k = (Ret (), k1)"
      "kernel_up (pc_platform p la ia pl) bi k1"
      "serving p info (board_devices k) (gi_width (bi_graphic_info bi)) (gi_height (bi_graphic_info bi)) c [] s k1"
    using pc_boots [OF assms(1-12)] by blast
  have "stuck info (board_devices k) (board_devices k1) []"
    using serving_facts(1,2) [OF k1(3)] by (auto simp: stuck_def pc_started_def)
  from happen_stuck [OF this assms(13), of ms "pc_platform p la ia pl"] k1(1,2) show ?thesis by (auto simp: stuck_def)
qed

section \<open>A PC\<close>

definition demo_pc :: "(pc_devices, u32 \<times> (u32 \<Rightarrow> u32), Device ArrayVec, nat, u16, u16) platform" where
  "demo_pc = \<lparr>port_in = (\<lambda>_ d. (0, d)), port_out = (\<lambda>_ _ d. d), register_in = (\<lambda>_ d. (0, d)), register_out = (\<lambda>_ _ d. d),
     msr_in = (\<lambda>_ d. ((0, 0), d)), msr_out = (\<lambda>_ _ _ d. d), pci_ports = pci_ports demo_platform, vec_push = vec_push demo_platform,
     SegmentSelector_new = SegmentSelector_new demo_platform, Ring0 = 0, gdt_ptr = 0x10020000, table_ptrs = table_ptrs demo_platform,
     KERNEL_STACK_ptr = 0x10200000, acpi_tables = sample_tables, memory_types = uefi_types\<rparr>"

definition demo_devices :: pc_devices where
  "demo_devices = \<lparr>ps2 = fresh_8042, apic = \<lparr>icr_lag = 1, icr_busy = 0, lapic = (\<lambda>_. push_bit 24 (ucast (processor_id sample_apic))),
     io_ident = 0, io_last = 23, io_file = (0, Map.empty)\<rparr>, held = []\<rparr>"

definition demo_kernel :: "(pc_devices, u32 \<times> (u32 \<Rightarrow> u32), Device ArrayVec, u16) kernel" where
  "demo_kernel = \<lparr>cpu = \<lparr>io = \<lparr>dev = \<lparr>crt = fresh_terminal, rest = demo_devices\<rparr>, trace = []\<rparr>, events = [],
       apic_info = None, LOCAL_APIC = None\<rparr>, rsp = 0x7000000, gdt_regs = boot_cpu, page_tables = paging_statics 0,
     DEVICES = DEVICES demo_statics, devices_locked = False,
     FADT_cell = None, MEMORY_MANAGER = BitmapMemoryManager_new, memory_manager_locked = False, interrupts_on = False\<rparr>"

lemma demo_pc_boots:
  "fresh_kernel ArrayVec_items (ArrayVec_wf DEVICE_CAPACITY) demo_kernel"
  "platform_ok demo_pc snd ArrayVec_items (ArrayVec_wf DEVICE_CAPACITY)"
  "pc_found demo_8042 0xfee00000 0xfec00000 2 sample_apic (board_devices demo_kernel)"
  "irqs_here sample_apic (apic (board_devices demo_kernel))"
proof -
  show "fresh_kernel ArrayVec_items (ArrayVec_wf DEVICE_CAPACITY) demo_kernel"
    using demo_fresh by (simp add: fresh_kernel_def demo_kernel_def demo_statics_def kernel_crt_def)
  show "platform_ok demo_pc snd ArrayVec_items (ArrayVec_wf DEVICE_CAPACITY)"
    using demo_platform_ok by (simp add: platform_ok_def demo_pc_def)
  show "pc_found demo_8042 0xfee00000 0xfec00000 2 sample_apic (board_devices demo_kernel)"
    using demo_8042_ok by (simp add: pc_found_def board_devices_def demo_kernel_def demo_devices_def sample_apic_def io_apic_base_def
        io_apic_id_def apics_apart_def apics_aligned_def lapic_aligned_def ioapic_aligned_def)
  show "irqs_here sample_apic (apic (board_devices demo_kernel))"
    by (simp add: irqs_here_def lapic_id_def destination board_devices_def demo_kernel_def demo_devices_def)
qed

lemma demo_pc_facts:
  "snd (machine (DEVICES demo_kernel)) = sample_config" "acpi_tables demo_pc = sample_tables" "KERNEL_STACK_ptr demo_pc = 0x10200000"
  "gi_width (bi_graphic_info demo_boot_info) = 1280" "gi_height (bi_graphic_info demo_boot_info) = 800"
  "bi_rsdp_addr demo_boot_info = Some \<lparr>phys_ptr = 0x1000\<rparr>" "bi_memory_map demo_boot_info = small_map"
  by (simp_all add: demo_kernel_def demo_statics_def demo_pc_def demo_boot_info_def)

theorem pc_serves_inputs_witness:
  "\<exists>k1 k2 k3 c log. start_kernel (pc_platform demo_8042 0xfee00000 0xfec00000 demo_pc) 33 2 demo_boot_info demo_kernel = (Ret (), k1) \<and>
    for_each [Sends (Key 0x1c), Sends (Motion 8), Serves, Sends (Key 0xf0)] (happen (pc_platform demo_8042 0xfee00000 0xfec00000 demo_pc)) k1 =
      (Ret (), k2) \<and> for_each (replicate (length (held (board_devices k2))) Serves)
      (happen (pc_platform demo_8042 0xfee00000 0xfec00000 demo_pc)) k2 = (Ret (), k3) \<and>
    shows_log 1280 800 c (log @ [''pressed'', ''moved.'', ''pressed'']) (kernel_crt k3) \<and>
    events (cpu k3) = replicate 3 (MmioWrite 0xfee000b0 0) @ events (cpu k1)"
proof -
  define ms where "ms = [Sends (Key 0x1c), Sends (Motion 8), Serves, Sends (Key 0xf0)]"
  have sent: "map input_text (sent ms) = [''pressed'', ''moved.'', ''pressed'']" "length (sent ms) = 3" by (simp_all add: ms_def)
  show ?thesis
    unfolding ms_def [symmetric]
    using pc_serves_inputs [OF demo_pc_boots(1,2) demo_mode_ok, of 33 "0x1000" "0x8000" sample_apic demo_8042 "0xfee00000" "0xfec00000" 2
        ms] demo_pc_boots(3,4) sample_enum sample_tables_found small_map_wf demo_pc_facts sent by auto blast
qed

text \<open>The same PC with another identifier in its local APIC.\<close>

definition other_devices :: pc_devices where
  "other_devices = demo_devices\<lparr>apic := (apic demo_devices)\<lparr>lapic := (\<lambda>_. push_bit 24 (ucast (processor_id sample_apic + 1)))\<rparr>\<rparr>"

definition other_kernel :: "(pc_devices, u32 \<times> (u32 \<Rightarrow> u32), Device ArrayVec, u16) kernel" where
  "other_kernel = with_devices other_devices demo_kernel"

theorem wrong_destination_loses_input_witness:
  "\<exists>k1 e. start_kernel (pc_platform demo_8042 0xfee00000 0xfec00000 demo_pc) 33 2 demo_boot_info other_kernel = (Ret (), k1) \<and>
    for_each [Sends (Key 0x1c), Serves, Sends (Motion 8), Serves] (happen (pc_platform demo_8042 0xfee00000 0xfec00000 demo_pc)) k1 =
      (Ret (), with_devices e k1) \<and> queue (ps2 e) @ map input_byte (held e) = [0x1c, 8]"
proof -
  have fresh: "fresh_kernel ArrayVec_items (ArrayVec_wf DEVICE_CAPACITY) other_kernel"
    using demo_pc_boots(1) by (simp add: fresh_kernel_def other_kernel_def with_devices_def kernel_crt_def)
  have "pc_found demo_8042 0xfee00000 0xfec00000 2 sample_apic (board_devices other_kernel)"
      "\<not> irqs_here sample_apic (apic (board_devices other_kernel))"
    using demo_pc_boots(3)
    by (simp_all add: other_kernel_def other_devices_def pc_found_def board_devices_def demo_kernel_def with_devices_def irqs_here_def
        lapic_id_def destination demo_devices_def) (simp_all add: sample_apic_def processor_id_def)
  moreover have "snd (machine (DEVICES other_kernel)) = sample_config"
    using demo_pc_facts(1) by (simp add: other_kernel_def with_devices_def)
  ultimately show ?thesis
    using wrong_destination_loses_input [OF fresh demo_pc_boots(2) demo_mode_ok, of 33 "0x1000" "0x8000" sample_apic demo_8042 "0xfee00000" "0xfec00000" 2
        "[Sends (Key 0x1c), Serves, Sends (Motion 8), Serves]"] sample_enum sample_tables_found small_map_wf demo_pc_facts by auto
qed

end
