(* ===== verification/Pc_Run.thy ===== *)
theory Pc_Run
  imports Pc_Boot
begin

text \<open>
  The PC while \<open>main\<close> is still running: after interrupts are enabled, steps of \<open>main\<close>, bytes that the keyboard and the mouse
  have to send, and interrupts that serve them come in any order. \<open>Kernel_Run\<close> has the kernel with arbitrary interrupts on
  arbitrary hardware; here the interrupts are the ones that the devices of \<open>Pc_Boot\<close> raise, and the state of the devices is
  part of the result. As in \<open>Pc_Boot\<close>, a byte gets into the output buffer between handlers only.
\<close>

section \<open>The machine\<close>

datatype pc_label = Step | Byte input | Serve

fun pc_step :: "(pc_devices, 'q, 'v, 't, 's, 'r) platform \<Rightarrow> 't BootInfo \<Rightarrow> pc_label \<Rightarrow>
    pc \<times> (pc_devices, 'q, 'v, 's) kernel \<Rightarrow> pc \<times> (pc_devices, 'q, 'v, 's) kernel" where
  "pc_step pl bi Step (pc, k) = (if pc \<in> {Idle, Crashed, Stopped} then (pc, k) else
     case main_step pl bi pc k of (r, k') \<Rightarrow> (if r = Ret () then next_pc pc else panic_pc k', k'))"
| "pc_step pl bi (Byte x) (pc, k) = (pc, with_devices (hold x (board_devices k)) k)"
| "pc_step pl bi Serve (pc, k) = (if pc \<in> {Crashed, Stopped} then (pc, k) else
     case serve pl k of (r, k') \<Rightarrow> (if r = Ret () then pc else panic_pc k', k'))"

text \<open>The abstract machine of \<open>Kernel_Run\<close> on the interrupts of the two devices, with the bytes that they hold.\<close>

fun pc_view :: "pc_label \<Rightarrow> view \<times> input list \<Rightarrow> view \<times> input list" where
  "pc_view Step (w, q) = (if fst w \<in> {Crashed, Stopped} then w else view_step Main w, q)"
| "pc_view (Byte x) (w, q) = (w, q @ [x])"
| "pc_view Serve (w, q) = (if fst w \<in> {Crashed, Stopped} then (w, q)
     else case q of [] \<Rightarrow> (w, q) | x # xs \<Rightarrow> (view_step (Irq (input_vector x)) w, xs))"

section \<open>Steps of \<open>main\<close>\<close>

lemma main_step_devices: "main_step pl bi pc k = (r, k') \<Longrightarrow> board_devices k' = board_devices k"
  by (cases pc) (auto simp: on_crt_def zoom_def set_crt_def board_devices_def with_mem_manager_def bnd_def get_def update_def
      ret_def diverge_def split: prod.splits outcome.splits if_splits)

section \<open>Handlers on the board\<close>

interpretation pb: ps2_ports "ports (board_hw (pc_platform p la ia pl))" "\<lambda>b. ps2 (rest b)" p for p la ia pl
  by standard (simp_all add: board_hw_def pc_platform_def split_beta Let_def)

interpretation pi: port_invariant "ports (board_hw (pc_platform p la ia pl))" "\<lambda>s. apic (rest (dev s)) = d \<and> held (rest (dev s)) = h"
  for p la ia pl d h
  by standard (auto intro!: preservesI simp: port_read_def port_write_def board_hw_def pc_platform_def split_beta Let_def)

lemma work_on_board:
  assumes "m (io s) = (Ret r, u)" "LOCAL_APIC s = Some la" "lapic_aligned la"
    and "bnd (on_io m) (\<lambda>_. bnd (cpu_kprintln (board_hw (pc_platform p la ia pl)) msg) (\<lambda>_.
      end_of_interrupt (board_hw (pc_platform p la ia pl)))) s = (Ret (), t)"
  shows "ps2 (rest (dev (io t))) = ps2 (rest (dev u)) \<and> apic (rest (dev (io t))) = apics_out la ia (ucast la + 0xb0) 0 (apic (rest (dev u))) \<and>
    held (rest (dev (io t))) = held (rest (dev u))"
  using assms lapic_mmio_ok [of "0xb0 div 4" la]
  by (auto simp: bnd_def cpu_kprintln_def on_io_def kprintln_def zoom_def end_of_interrupt_def LOCAL_APIC_wait_def get_def ret_def
      write_end_of_interrupt_register_def LocalApic_write_def write_volatile_def board_hw_def pc_platform_def
      split: prod.splits outcome.splits)

lemma handler_on_devices:
  assumes "ps2_at p (\<lambda>b. ps2 (rest b)) cfg [input_byte x] None m (io s)" "lag (ps2 (rest (dev (io s)))) = 0" "LOCAL_APIC s = Some la" "lapic_aligned la"
    and "run_handler (board_hw (pc_platform p la ia pl)) (input_handler x) s = (Ret (), t)"
  shows "ps2_at p (\<lambda>b. ps2 (rest b)) cfg [] None m (io t) \<and>
    apic (rest (dev (io t))) = apics_out la ia (ucast la + 0xb0) 0 (apic (rest (dev (io s)))) \<and>
    held (rest (dev (io t))) = held (rest (dev (io s)))"
proof -
  let ?hw = "board_hw (pc_platform p la ia pl)" and ?at = "ps2_at p (\<lambda>b :: pc_devices board. ps2 (rest b)) cfg [] None m"
  let ?I = "\<lambda>t. apic (rest (dev t)) = apic (rest (dev (io s))) \<and> held (rest (dev t)) = held (rest (dev (io s)))"
  have work: ?thesis
    if run: "wp w (\<lambda>_. ?at) (io s)" and keep: "preserves ?I w"
      and h: "bnd (on_io w) (\<lambda>_. bnd (cpu_kprintln ?hw msg) (\<lambda>_. end_of_interrupt ?hw)) s = (Ret (), t)"
    for w :: "(pc_devices board io_state, 'w) prog" and msg
  proof -
    obtain r u where u: "w (io s) = (Ret r, u)" "?at u" using wpD [OF run] by blast
    from preservesD [OF keep, of "io s"] u(1) have "?I u" by simp
    with work_on_board [of w s r u la p ia pl msg t, OF u(1) assms(3,4) h] u(2) show ?thesis by (auto simp: ps2_at_def)
  qed
  show ?thesis
  proof (cases x)
    case (Key v)
    have "wp (Keyboard_read_data (ports ?hw) Controller_new) (\<lambda>_. ?at) (io s)"
      unfolding Keyboard_read_data_def wp_bndE wp_map_err
      by (rule pb.read_data_at) (use assms(1) Key in \<open>simp_all add: wp_ret\<close>)
    from work [OF this pi.keeps_keyboard_data] assms(5) show ?thesis
      by (simp add: Key keyboard_interrupt_handler_def device_views)
  next
    case (Motion v)
    have "wp (flush_data_port (ports ?hw) Controller_new) (\<lambda>_. ?at) (io s)"
      by (rule pb.flush_at [OF assms(1,2)]) simp_all
    from work [OF this pi.keeps_flush] assms(5) show ?thesis
      by (simp add: Motion mouse_interrupt_handler_def device_views)
  qed
qed

section \<open>Runs\<close>

text \<open>The view of a state, with the devices: ready for the next byte, and holding the rest, unless the kernel has ended.\<close>

definition pc_viewed ::
    "nat \<Rightarrow> nat \<Rightarrow> terminal \<Rightarrow> ApicInfo \<Rightarrow> cpu_event list \<Rightarrow> pc_devices \<Rightarrow> pc \<times> (pc_devices, 'q, 'v, 's) kernel \<Rightarrow>
      view \<times> input list \<Rightarrow> bool" where
  "pc_viewed W H c info ev d s w \<longleftrightarrow> viewed W H c (info_local_apic_base info) ev s (fst w) \<and>
     (fst s \<notin> {Crashed, Stopped} \<longrightarrow> pc_started info d (board_devices (snd s)) \<and> held (board_devices (snd s)) = snd w)"

lemma viewed_with_devices: "viewed W H c a ev (pc, with_devices e k) w = viewed W H c a ev (pc, k) w"
  by (cases w) (simp add: viewed_def with_devices_def kernel_crt_def)

lemma viewed_pc: "viewed W H c a ev s w \<Longrightarrow> fst w = fst s"
  by (cases s; cases w) (simp add: viewed_def)

lemma started_held: "pc_started info d (e\<lparr>held := q\<rparr>) = pc_started info d e"
  by (simp add: pc_started_def)

lemma byte_step_view:
  assumes "pc_viewed W H c info ev d (pc, k) (w, q)"
  shows "pc_viewed W H c info ev d (pc_step pl bi (Byte x) (pc, k)) (w, q @ [x])"
  using assms by (auto simp: pc_viewed_def viewed_with_devices hold_def started_held)

lemma serve_step_view:
  assumes "pc_viewed W H c info ev d (pc, k) (w, x # q)" "pc \<notin> {Crashed, Stopped}" "timing_ok p" "apics_apart info"
    "irqs_here info (apic d)"
  shows "pc_viewed W H c info ev d (pc_step (pc_platform p (info_local_apic_base info) (io_apic_base info) pl) bi Serve (pc, k))
    (view_step (Irq (input_vector x)) w, q)"
proof -
  let ?pl = "pc_platform p (info_local_apic_base info) (io_apic_base info) pl" and ?e = "board_devices k"
  let ?k = "with_devices (put_byte (input_byte x) (?e\<lparr>held := q\<rparr>)) k"
  note start = assms(1) [unfolded pc_viewed_def]
  have e: "pc_started info d ?e" "held ?e = x # q" using start assms(2) by simp_all
  have serve: "serve ?pl k = on_cpu (run_handler (board_hw ?pl) (gate (input_vector x))) ?k"
    using started_deliver(2) [OF e] assms(5) by (simp add: serve_def)
  have view: "viewed W H c (info_local_apic_base info) ev (pc, ?k) w" using start by (simp add: viewed_with_devices)
  from irq_step_view [OF this assms(2) input_gate(3) [of x], of ?pl]
  consider k' where "serve ?pl k = (Ret (), k')" "viewed W H c (info_local_apic_base info) ev (pc, k') (view_step (Irq (input_vector x)) w)"
    | k' where "serve ?pl k = (Panic, k')" "viewed W H c (info_local_apic_base info) ev (panic_pc k', k') (view_step (Irq (input_vector x)) w)"
    unfolding serve by blast
  then show ?thesis
  proof cases
    case 1
    then obtain t where t: "run_handler (board_hw ?pl) (input_handler x) (cpu ?k) = (Ret (), t)" "k' = ?k\<lparr>cpu := t\<rparr>"
      unfolding serve input_gate by (auto simp: on_cpu_def zoom_def split: prod.splits)
    have apic: "LOCAL_APIC (cpu ?k) = Some (info_local_apic_base info)" "lapic_aligned (info_local_apic_base info)"
      using view by (cases w, simp add: viewed_def with_devices_def)+
    have ps2: "ps2_at p (\<lambda>b. ps2 (rest b)) (config (ps2 ?e)) [input_byte x] None True (io (cpu ?k))"
        "lag (ps2 (rest (dev (io (cpu ?k))))) = 0"
      using e assms(3) by (simp_all add: ps2_at_def pc_started_def put_byte_def with_devices_def)
    from handler_on_devices [OF ps2 apic t(1)]
    have "pc_started info d (rest (dev (io t))) \<and> held (rest (dev (io t))) = q"
      using started_acknowledged [of info d ?e p rest t, OF e(1) assms(4)] by (simp add: with_devices_def put_byte_def)
    with 1 t(2) assms(2) show ?thesis by (simp add: pc_viewed_def board_devices_def)
  next
    case 2
    then show ?thesis using assms(2) by (auto simp: pc_viewed_def panic_pc_def)
  qed
qed

lemma main_pc_view:
  assumes "pc_viewed W H c info ev d (pc, k) (w, q)" "wf_map 0 (bi_memory_map bi)" "pc \<notin> {Crashed, Stopped}"
  shows "pc_viewed W H c info ev d (pc_step pl bi Step (pc, k)) (view_step Main w, q)"
proof -
  have w: "fst w = pc" using viewed_pc [of W H c "info_local_apic_base info" ev "(pc, k)" w] assms(1) by (simp add: pc_viewed_def)
  show ?thesis
  proof (cases "pc = Idle")
    case True
    with assms(1) w show ?thesis by (cases w) (simp add: term_puts_def)
  next
    case False
    then obtain k' where k': "main_step pl bi pc k = (Ret (), k')"
        "viewed W H c (info_local_apic_base info) ev (next_pc pc, k') (view_step Main w)"
      using main_step_view [of W H c "info_local_apic_base info" ev pc k w bi pl] assms by (auto simp: pc_viewed_def)
    with main_step_devices [OF k'(1)] assms(1,3) False show ?thesis by (simp add: pc_viewed_def)
  qed
qed

lemma pc_step_view:
  assumes "pc_viewed W H c info ev d s w" "timing_ok p" "apics_apart info" "irqs_here info (apic d)" "wf_map 0 (bi_memory_map bi)"
  shows "pc_viewed W H c info ev d (pc_step (pc_platform p (info_local_apic_base info) (io_apic_base info) pl) bi l s) (pc_view l w)"
proof -
  let ?pl = "pc_platform p (info_local_apic_base info) (io_apic_base info) pl"
  obtain pc k v q where s: "s = (pc, k)" and w: "w = (v, q)" by (cases s; cases w)
  note start = assms(1) [unfolded s w]
  have v: "fst v = pc" using viewed_pc [of W H c "info_local_apic_base info" ev "(pc, k)" v] start by (simp add: pc_viewed_def)
  show ?thesis
  proof (cases l)
    case (Byte x)
    with byte_step_view [OF start, of ?pl bi x] show ?thesis by (simp add: s w)
  next
    case Step
    show ?thesis
    proof (cases "pc \<in> {Crashed, Stopped}")
      case True
      with Step start v show ?thesis by (auto simp: s w)
    next
      case False
      with main_pc_view [OF start assms(5) False, of ?pl] Step v show ?thesis by (simp add: s w del: pc_step.simps)
    qed
  next
    case Serve
    show ?thesis
    proof (cases "pc \<in> {Crashed, Stopped}")
      case True
      with Serve start v show ?thesis by (auto simp: s w)
    next
      case pc: False
      show ?thesis
      proof (cases q)
        case Nil
        have "serve ?pl k = (Ret (), k)"
          using started_deliver(1) [of info d "board_devices k"] start pc Nil by (simp add: pc_viewed_def serve_def)
        with Serve start v pc Nil show ?thesis by (simp add: s w)
      next
        case (Cons x xs)
        with serve_step_view [OF start [unfolded Cons] pc assms(2-4), of pl bi] Serve v pc show ?thesis
          by (simp add: s w del: pc_step.simps)
      qed
    qed
  qed
qed

lemma pc_run_view:
  assumes "pc_viewed W H c info ev d s w" "timing_ok p" "apics_apart info" "irqs_here info (apic d)" "wf_map 0 (bi_memory_map bi)"
  shows "pc_viewed W H c info ev d (fold (pc_step (pc_platform p (info_local_apic_base info) (io_apic_base info) pl) bi) ls s) (fold pc_view ls w)"
  using assms(1)
proof (induction ls arbitrary: s w)
  case (Cons l ls)
  then show ?case using pc_step_view [OF Cons.prems assms(2-5), of pl l] by simp
qed simp

section \<open>How a run ends\<close>

text \<open>
  Serving a byte is fatal when \<open>main\<close> has made two or four of its steps: then it holds the console. \<open>n\<close> counts the steps of
  \<open>main\<close>, \<open>m\<close> the bytes that are held.
\<close>

fun fatal_from :: "nat \<Rightarrow> nat \<Rightarrow> pc_label list \<Rightarrow> bool" where
  "fatal_from n m [] = False"
| "fatal_from n m (Step # ls) = fatal_from (Suc n) m ls"
| "fatal_from n m (Byte x # ls) = fatal_from n (Suc m) ls"
| "fatal_from n m (Serve # ls) \<longleftrightarrow> 0 < m \<and> n \<in> {2, 4} \<or> fatal_from n (m - 1) ls"

abbreviation fatal :: "pc_label list \<Rightarrow> bool" where
  "fatal \<equiv> fatal_from 0 0"

lemma steps_done_pc:
  "steps_done pc = 2 \<longleftrightarrow> pc = Printing" "steps_done pc = 4 \<longleftrightarrow> pc = Breaking"
  "steps_done pc = 5 \<longleftrightarrow> pc \<in> {Idle, Crashed, Stopped}"
  "pc \<notin> {Crashed, Stopped} \<Longrightarrow> steps_done (next_pc pc) = min 5 (Suc (steps_done pc))"
  "next_pc pc \<in> {Crashed, Stopped} \<longleftrightarrow> pc \<in> {Crashed, Stopped}"
  by (cases pc; simp)+

lemma input_irq_text: "irq_text (input_vector x) = Some (input_text x)"
  by (cases x) (simp_all add: irq_text_def IDT_def EXTERNAL_IRQ_OFFSET_def)

lemma pc_view_halted: "fst (fst w) \<in> {Crashed, Stopped} \<Longrightarrow> fst (fold pc_view ls w) = fst w"
proof (induction ls arbitrary: w)
  case (Cons l ls)
  moreover have "fst (pc_view l w) = fst w" using Cons.prems by (cases w; cases l) auto
  ultimately show ?case by simp
qed simp

lemma pc_view_ends:
  assumes "pc \<notin> {Crashed, Stopped}" "steps_done pc = min 5 m"
  shows "(fst (fst (fold pc_view ls ((pc, t, n), q))) = Crashed \<longleftrightarrow> fatal_from m (length q) ls) \<and>
    fst (fst (fold pc_view ls ((pc, t, n), q))) \<noteq> Stopped \<and>
    (\<not> fatal_from m (length q) ls \<longrightarrow>
      steps_done (fst (fst (fold pc_view ls ((pc, t, n), q)))) = min 5 (m + length (filter ((=) Step) ls)))"
  using assms
proof (induction ls arbitrary: pc t n q m)
  case Nil
  then show ?case by simp
next
  case (Cons l ls)
  show ?case
  proof (cases l)
    case Step
    have "next_pc pc \<notin> {Crashed, Stopped}" "steps_done (next_pc pc) = min 5 (Suc m)"
      using steps_done_pc(4,5) [of pc] Cons.prems by auto
    from Cons.IH [OF this, of "term_puts (main_text pc) t" n q] Step Cons.prems show ?thesis by simp
  next
    case (Byte x)
    with Cons.IH [OF Cons.prems, of t n "q @ [x]"] show ?thesis by simp
  next
    case Serve
    have locked: "pc \<in> {Printing, Breaking} \<longleftrightarrow> m \<in> {2, 4}"
      using Cons.prems(2) steps_done_pc(1,2) [of pc] by (auto simp: min_def split: if_splits)
    show ?thesis
    proof (cases q)
      case Nil
      with Cons.IH [OF Cons.prems, of t n "[]"] Serve Cons.prems(1) show ?thesis by simp
    next
      case q: (Cons x xs)
      have view: "pc_view Serve ((pc, t, n), q) = (view_step (Irq (input_vector x)) (pc, t, n), xs)" using q Cons.prems(1) by simp
      show ?thesis
      proof (cases "pc \<in> {Printing, Breaking}")
        case True
        then have "fst (view_step (Irq (input_vector x)) (pc, t, n)) = Crashed" by (simp add: input_irq_text input_gate)
        with pc_view_halted [of "(view_step (Irq (input_vector x)) (pc, t, n), xs)" ls] True locked q view Serve show ?thesis by simp
      next
        case False
        then have "view_step (Irq (input_vector x)) (pc, t, n) = (pc, term_puts (input_text x @ [CHR 0x0A]) t, n + 1)"
          by (simp add: input_irq_text input_gate)
        with Cons.IH [OF Cons.prems, of "term_puts (input_text x @ [CHR 0x0A]) t" "n + 1" xs] False locked q view Serve
        show ?thesis by simp
      qed
    qed
  qed
qed

text \<open>
  C11. The PC from the moment interrupts are enabled, with a MADT whose processor identifier is that of the local APIC.
  Whatever bytes the keyboard and the mouse have to send, and in whatever order the sending, the serving and the steps of \<open>main\<close> alternate (a byte
  that is ready while a handler runs is held by its device until the handler has ended): the run refines the abstract machine, so
  that the screen shows the log of the boot, the rest of \<open>main\<close> and a line per served byte in the order of the steps, and each interrupt is
  acknowledged once; as long as the kernel has not crashed, no byte is lost: none is left in the controller, those not
  served yet are held by the devices, in order, and both are ready for the next. The kernel crashes exactly when a byte is served after two or after four of the
  five steps of \<open>main\<close>, that is, while \<open>main\<close> prints; otherwise \<open>main\<close> is in its halt loop after its fifth step.
\<close>

theorem pc_run_result:
  assumes "fresh_kernel items vec_ok k" and "platform_ok pl cfg items vec_ok"
    and "mode_ok (bi_graphic_info bi)" and "1200 \<le> gi_width (bi_graphic_info bi)" and "400 \<le> gi_height (bi_graphic_info bi)"
    and "32 < pci_fuel" and "length (enum_all (cfg (machine (DEVICES k))) pci_fuel) \<le> 32"
    and "bi_rsdp_addr bi = Some \<lparr>phys_ptr = rsdp\<rparr>" and "tables_found (acpi_tables pl) rsdp = Some (fadt, info)"
    and "pc_found p la ia apic_fuel info (board_devices k)" and "wf_map 0 (bi_memory_map bi)"
    and "irqs_here info (apic (board_devices k))"
  shows "\<exists>k1 c log ev. kernel_boot (pc_platform p la ia pl) pci_fuel apic_fuel bi k = (Ret (), k1) \<and>
    bordered (bi_graphic_info bi) (memory (screen (kernel_crt k))) c \<and>
    (\<forall>ls. pc_viewed (gi_width (bi_graphic_info bi)) (gi_height (bi_graphic_info bi)) c info ev (board_devices k)
        (fold (pc_step (pc_platform p la ia pl) bi) ls (Memory, k1)) (fold pc_view ls ((Memory, log_lines log, 0), [])) \<and>
      fst (fold (pc_step (pc_platform p la ia pl) bi) ls (Memory, k1)) \<noteq> Stopped \<and>
      (fst (fold (pc_step (pc_platform p la ia pl) bi) ls (Memory, k1)) = Crashed \<longleftrightarrow> fatal ls) \<and>
      (\<not> fatal ls \<longrightarrow> 5 \<le> length (filter ((=) Step) ls) \<longrightarrow> fst (fold (pc_step (pc_platform p la ia pl) bi) ls (Memory, k1)) = Idle))"
proof -
  let ?pl = "pc_platform p la ia pl" and ?W = "gi_width (bi_graphic_info bi)" and ?H = "gi_height (bi_graphic_info bi)"
  let ?s = "before_drivers ?pl rsdp fadt info k"
  have s: "fst (dev (io ?s)) = board_devices k" "apic_info ?s = Some info" "LOCAL_APIC ?s = None"
    using assms(1) by (simp_all add: before_drivers_def log_cpu_def board_devices_def fresh_kernel_def)
  obtain t where t: "drivers_init (log_hw ?pl) apic_fuel ?s = (Ret (), t)" "pc_started info (board_devices k) (fst (dev (io t)))"
      "held (fst (dev (io t))) = []"
    using pc_drivers_return [of p la ia apic_fuel info ?s pl] assms(10) s by auto
  let ?w = "((Memory, log_lines (snd (dev (io t))), 0), [])"
  obtain k1 c where k1: "kernel_boot ?pl pci_fuel apic_fuel bi k = (Ret (), k1)" "bordered (bi_graphic_info bi) (memory (screen (kernel_crt k))) c"
      "viewed ?W ?H c (info_local_apic_base info) (events t) (Memory, k1) (fst ?w)" "rest (dev (io (cpu k1))) = fst (dev (io t))"
    using boot_view [OF assms(1), of ?pl cfg bi pci_fuel rsdp fadt info apic_fuel t] assms(2-9) t(1)
    by (auto simp: pc_platform_ok pc_platform_fields)
  have found: "timing_ok p" "apics_apart info" "info_local_apic_base info = la" "io_apic_base info = ia"
    using assms(10) by (simp_all add: pc_found_def)
  have "pc_viewed ?W ?H c info (events t) (board_devices k) (Memory, k1) ?w"
    using k1(3,4) t(2,3) by (simp add: pc_viewed_def board_devices_def)
  then have view: "pc_viewed ?W ?H c info (events t) (board_devices k) (fold (pc_step ?pl bi) ls (Memory, k1)) (fold pc_view ls ?w)" for ls
    using pc_run_view [of ?W ?H c info "events t" "board_devices k" _ ?w p bi pl ls] found assms(11,12) by simp
  then have same: "fst (fold (pc_step ?pl bi) ls (Memory, k1)) = fst (fst (fold pc_view ls ?w))" for ls
    using viewed_pc unfolding pc_viewed_def by metis
  note ends = pc_view_ends [of Memory 0 _ "log_lines (snd (dev (io t)))" 0 "[]", simplified]
  have "fst (fst (fold pc_view ls ?w)) = Idle" if "\<not> fatal ls" "5 \<le> length (filter ((=) Step) ls)" for ls
    using ends [of ls] that steps_done_pc(3) [of "fst (fst (fold pc_view ls ?w))"] by auto
  with k1(1,2) view same ends show ?thesis by metis
qed

theorem pc_run_result_witness:
  "\<exists>k1. kernel_boot (pc_platform demo_8042 0xfee00000 0xfec00000 demo_pc) 33 2 demo_boot_info demo_kernel = (Ret (), k1) \<and>
    fst (fold (pc_step (pc_platform demo_8042 0xfee00000 0xfec00000 demo_pc) demo_boot_info)
      [Step, Byte (Key 0x1c), Serve, Step, Byte (Motion 8), Step, Serve, Step, Step, Byte (Key 0xf0), Serve] (Memory, k1)) = Idle \<and>
    fst (fold (pc_step (pc_platform demo_8042 0xfee00000 0xfec00000 demo_pc) demo_boot_info)
      [Step, Byte (Key 0x1c), Step, Serve, Step] (Memory, k1)) = Crashed"
proof -
  let ?pl = "pc_platform demo_8042 0xfee00000 0xfec00000 demo_pc"
  let ?ls = "[Step, Byte (Key 0x1c), Serve, Step, Byte (Motion 8), Step, Serve, Step, Step, Byte (Key 0xf0), Serve]"
  obtain k1 where k1: "kernel_boot ?pl 33 2 demo_boot_info demo_kernel = (Ret (), k1)"
      "\<And>ls. fst (fold (pc_step ?pl demo_boot_info) ls (Memory, k1)) = Crashed \<longleftrightarrow> fatal ls"
      "\<And>ls. \<not> fatal ls \<Longrightarrow> 5 \<le> length (filter ((=) Step) ls) \<Longrightarrow> fst (fold (pc_step ?pl demo_boot_info) ls (Memory, k1)) = Idle"
    using pc_run_result [OF demo_pc_boots(1,2) demo_mode_ok, of 33 "0x1000" "0x8000" sample_apic demo_8042 "0xfee00000" "0xfec00000" 2]
      demo_pc_boots(3,4) sample_enum sample_tables_found small_map_wf demo_pc_facts by auto
  have ls: "\<not> fatal ?ls" "fatal [Step, Byte (Key 0x1c), Step, Serve, Step]" by simp_all
  have "fst (fold (pc_step ?pl demo_boot_info) ?ls (Memory, k1)) = Idle" using k1(3) [OF ls(1)] by simp
  with k1(1) k1(2) [of "[Step, Byte (Key 0x1c), Step, Serve, Step]"] ls(2) show ?thesis by blast
qed

end
