(* ===== verification/Power_On.thy ===== *)
theory Power_On
  imports Pc_Boot Boot_Main
begin

text \<open>
  From the firmware to the running kernel: the bootloader loads the kernel and hands over, the kernel starts on its statics as
  they are in the loaded image, and serves its keyboard and mouse. The theorem composes those of \<open>Boot_Main\<close> and
  \<open>Pc_Boot\<close>; what it adds is that the hypotheses of the kernel's side are what the firmware and the bootloader provide.
\<close>

section \<open>The statics\<close>

text \<open>
  The initial values of the kernel's statics, with their locks. The compiler puts these values into the data sections of
  \<open>kernel.elf\<close>; where it puts them, and with which layout, is not modelled: that the image that is loaded holds them is an
  assumption, and so is that nothing but the statements that name a static changes it.
\<close>

definition FRAME_BUF_static :: "mem \<Rightarrow> display" where
  "FRAME_BUF_static m = \<lparr>frame_buf = FrameBuf_new, frame_buf_locked = False, memory = m\<rparr>"

definition CONSOLE_static :: "display \<Rightarrow> terminal" where
  "CONSOLE_static d = \<lparr>screen = d, console = Console_new_empty, console_locked = False\<rparr>"

text \<open>\<open>vec\<close> is what \<open>ArrayVec::new_const\<close> returns, \<open>q\<close> the PCI bus.\<close>

definition DEVICES_static :: "'q \<Rightarrow> 'v \<Rightarrow> ('q, 'v) Devices \<times> bool" where
  "DEVICES_static q vec = (Devices_new q vec, False)"

definition FADT_static :: "u64 option" where "FADT_static = None"

definition APIC_INFO_static :: "ApicInfo option" where "APIC_INFO_static = None"

definition LOCAL_APIC_static :: "LocalApic option" where "LOCAL_APIC_static = None"

definition MEMORY_MANAGER_static :: "BitmapMemoryManager \<times> bool" where
  "MEMORY_MANAGER_static = (BitmapMemoryManager_new, False)"

text \<open>
  The kernel's state at its entry point: these statics, those of \<open>GDT\<close> and of the page tables, and the machine: the devices \<open>d\<close>,
  the PCI bus \<open>q\<close>, the registers and the memory that the bootloader leaves.
\<close>

definition kernel_statics ::
    "'d \<Rightarrow> 'q \<Rightarrow> 'v \<Rightarrow> 's gdt_cpu \<Rightarrow> u64 \<Rightarrow> u64 \<Rightarrow> mem \<Rightarrow> ('d, 'q, 'v, 's) kernel" where
  "kernel_statics d q vec segments old_cr3 sp m =
     \<lparr>cpu = \<lparr>io = \<lparr>dev = \<lparr>crt = CONSOLE_static (FRAME_BUF_static m), rest = d\<rparr>, trace = []\<rparr>, events = [],
        apic_info = APIC_INFO_static, LOCAL_APIC = LOCAL_APIC_static\<rparr>,
      rsp = sp, gdt_regs = segments\<lparr>GDT := GDT_initial\<rparr>, page_tables = paging_statics old_cr3,
      DEVICES = fst (DEVICES_static q vec), devices_locked = snd (DEVICES_static q vec), FADT_cell = FADT_static,
      MEMORY_MANAGER = fst MEMORY_MANAGER_static, memory_manager_locked = snd MEMORY_MANAGER_static, interrupts_on = False\<rparr>"

lemmas statics = kernel_statics_def FRAME_BUF_static_def CONSOLE_static_def DEVICES_static_def FADT_static_def
  APIC_INFO_static_def LOCAL_APIC_static_def MEMORY_MANAGER_static_def

lemma statics_fresh:
  assumes "vec_ok vec" "items vec = []"
  shows "fresh_kernel items vec_ok (kernel_statics d q vec segments old_cr3 sp m)"
  using assms by (auto simp: fresh_kernel_def statics kernel_crt_def Devices_new_def)

lemma statics_fields:
  "board_devices (kernel_statics d q vec segments old_cr3 sp m) = d" "machine (DEVICES (kernel_statics d q vec segments old_cr3 sp m)) = q"
  "memory (screen (kernel_crt (kernel_statics d q vec segments old_cr3 sp m))) = m"
  by (simp_all add: statics board_devices_def kernel_crt_def Devices_new_def)

section \<open>The firmware\<close>

text \<open>The firmware grants every request, and \<open>kernel.elf\<close> holds \<open>file\<close>, which the parser accepts as \<open>elf\<close>.\<close>

definition firmware_loads :: "('e, 'h, 'g, 't) uefi \<Rightarrow> (u8 list \<Rightarrow> 'e + Elf) \<Rightarrow> gop \<Rightarrow> u8 list \<Rightarrow> Elf \<Rightarrow> bool" where
  "firmware_loads fw parse gop file elf \<longleftrightarrow> fw_ok fw \<and>
     (\<exists>h. get_handle_for_graphics fw = Ok h \<and> open_protocol_exclusive fw h = Ok gop) \<and>
     open_file fw KERNEL_FILE_NAME = Ok () \<and> into_type fw = Ok Regular \<and>
     (\<exists>fsize bytes. get_info fw (info_buffer fw) = Ok fsize \<and> read_file fw (unat fsize) = Ok bytes \<and>
       length bytes \<le> unat fsize \<and> vec_fits fw (info_buffer fw) (unat fsize) \<and> file = file_bytes fsize bytes) \<and>
     parse file = Ok elf \<and> list_all (segment_ok file) (loads elf) \<and>
     (\<forall>ph \<in> set (loads elf). unat (p_vaddr ph) + unat (p_memsz ph) < 2 ^ 64) \<and> image_end elf + 0x1000 < 2 ^ 64 \<and>
     (\<exists>a. allocate_pages fw (image_pages elf) = Ok a)"

text \<open>A graphics mode that the kernel can use.\<close>

definition gop_ok :: "gop \<Rightarrow> bool" where
  "gop_ok gop \<longleftrightarrow> gop_pixel_format gop \<in> {GopRgb, GopBgr} \<and> unat (gop_frame_buffer gop) mod 4 = 0 \<and>
     unat (gop_frame_buffer gop) + 4 * (fst (gop_resolution gop) * snd (gop_resolution gop)) \<le> 64 * PAGE_SIZE_1G \<and>
     1200 \<le> fst (gop_resolution gop) \<and> fst (gop_resolution gop) < 2 ^ 64 \<and> 400 \<le> snd (gop_resolution gop) \<and>
     snd (gop_resolution gop) < 2 ^ 64"

definition in_frame_buffer :: "gop \<Rightarrow> u64 \<Rightarrow> bool" where
  "in_frame_buffer gop a \<longleftrightarrow> (\<exists>k < 4 * (fst (gop_resolution gop) * snd (gop_resolution gop)). a = gop_frame_buffer gop + of_nat k)"

lemma gop_ok_mode:
  assumes "gop_ok gop"
  shows "\<exists>gi. from_gop gop = Ok gi \<and> mode_ok gi \<and> gi_width gi = fst (gop_resolution gop) \<and> gi_height gi = snd (gop_resolution gop) \<and>
    gi_frame_buffer_addr gi = gop_frame_buffer gop \<and> gi_stride gi = gop_stride gop"
  using assms by (auto simp: gop_ok_def from_gop_def mode_ok_def Let_def)

lemma firmware_hands_over:
  fixes fw :: "('e, 'h, 'g, 't) uefi" and s :: "'e boot"
  assumes "firmware_loads fw parse gop file elf" "from_gop gop = Ok gi"
  shows "efi_main fw parse s = (Ret (elf_entry elf, \<lparr>bi_graphic_info = gi, bi_memory_map = exit_boot_services fw,
      bi_rsdp_addr = map_option PhysPtr_from_ptr (map_of (config_table fw) (ACPI2_GUID fw))\<rparr>), s\<lparr>boot_memory := load_image file elf (boot_memory s)\<rparr>)"
  using assms unfolding firmware_loads_def efi_main_def by (auto intro!: main_inner_hands_over)

section \<open>From power-on to the halt loop\<close>

text \<open>
  C2. Power-on. Take a firmware that grants every request of the bootloader, with a graphics mode of at least 1200 by 400
  pixels below 64 GiB, an ACPI 2.0 table and a well-formed memory map; a kernel file that can be loaded; a PC whose PS/2
  controller answers in time, whose interrupt controllers are the ones the MADT describes, at aligned addresses, and whose
  local APIC has the identifier that the MADT gives for the processor. Then the bootloader jumps to the
  entry point of the kernel, and the kernel, on its statics and with the boot information it is handed, reaches its
  halt loop. Whatever bytes the keyboard and the mouse then have to send (a byte that is ready while a handler runs is held until it has
  ended), none is lost: those not served yet are held, and as many further interrupts as bytes are held serve them all, one line on the terminal for each. Drawing writes no byte
  outside the frame buffer: those bytes are the ones of the loaded image, or of the firmware before it (the stack, the statics and the page tables are
  separate state of the model). On a mode without padding the screen shows the pixels the driver drew. The frames that the
  memory manager takes to be free are exactly those of the memory map's available memory, whether or not they hold the kernel.
\<close>

theorem power_on:
  fixes fw :: "('e, 'h, 'g, 't) uefi" and s :: "'e boot"
  assumes "firmware_loads fw parse gop file elf" and "gop_ok gop" and "map_of (config_table fw) (ACPI2_GUID fw) = Some rsdp"
    and "wf_map 0 (exit_boot_services fw)" and "platform_ok pl cfg items vec_ok" and "vec_ok vec" and "items vec = []"
    and "32 < pci_fuel" and "length (enum_all (cfg q) pci_fuel) \<le> 32" and "tables_found (acpi_tables pl) rsdp = Some (fadt, info)"
    and "pc_found p la ia apic_fuel info d" and "unat (KERNEL_STACK_ptr pl) + 0x100000 < 2 ^ 64" and "irqs_here info (apic d)"
  shows "\<exists>bi s' k1 k2 k3 c log ys. efi_main fw parse s = (Ret (elf_entry elf, bi), s') \<and> boot_errors s' = boot_errors s \<and>
    start_kernel (pc_platform p la ia pl) pci_fuel apic_fuel bi (kernel_statics d q vec segments old_cr3 sp (boot_memory s')) = (Ret (), k1) \<and>
    {f. f < mm_end (MEMORY_MANAGER k1) \<and> f \<notin> allocated (MEMORY_MANAGER k1)} = available_frames (memory_types pl) (exit_boot_services fw) \<and>
    interrupts_on k1 \<and> for_each ms (happen (pc_platform p la ia pl)) k1 = (Ret (), k2) \<and> sent ms = ys @ held (board_devices k2) \<and>
    shows_log (fst (gop_resolution gop)) (snd (gop_resolution gop)) c (log @ map input_text ys) (kernel_crt k2) \<and>
    for_each (replicate (length (held (board_devices k2))) Serves) (happen (pc_platform p la ia pl)) k2 = (Ret (), k3) \<and>
    held (board_devices k3) = [] \<and>
    shows_log (fst (gop_resolution gop)) (snd (gop_resolution gop)) c (log @ map input_text (sent ms)) (kernel_crt k3) \<and>
    (\<forall>a. \<not> in_frame_buffer gop a \<longrightarrow> memory (screen (kernel_crt k3)) a = load_image file elf (boot_memory s) a) \<and>
    (gop_stride gop = fst (gop_resolution gop) \<longrightarrow> shown_color (screen (kernel_crt k3)) = pixel_color (screen (kernel_crt k3)))"
proof -
  let ?pl = "pc_platform p la ia pl" and ?W = "fst (gop_resolution gop)" and ?H = "snd (gop_resolution gop)"
  obtain gi where gi: "from_gop gop = Ok gi" "mode_ok gi" "gi_width gi = ?W" "gi_height gi = ?H" "gi_frame_buffer_addr gi = gop_frame_buffer gop"
      "gi_stride gi = gop_stride gop"
    using gop_ok_mode [OF assms(2)] by blast
  define bi where "bi = \<lparr>bi_graphic_info = gi, bi_memory_map = exit_boot_services fw, bi_rsdp_addr = Some \<lparr>phys_ptr = rsdp\<rparr>\<rparr>"
  define s' where "s' = s\<lparr>boot_memory := load_image file elf (boot_memory s)\<rparr>"
  have boot: "efi_main fw parse s = (Ret (elf_entry elf, bi), s')"
    using firmware_hands_over [OF assms(1) gi(1)] assms(3) by (simp add: bi_def s'_def PhysPtr_from_ptr_def)
  have bi: "bi_graphic_info bi = gi" "bi_memory_map bi = exit_boot_services fw" "bi_rsdp_addr bi = Some \<lparr>phys_ptr = rsdp\<rparr>"
    by (simp_all add: bi_def)
  let ?k = "kernel_statics d q vec segments old_cr3 sp (boot_memory s')"
  have "1200 \<le> ?W" "400 \<le> ?H" using assms(2) by (simp_all add: gop_ok_def)
  then obtain k1 k2 k3 c log ys where k: "start_kernel ?pl pci_fuel apic_fuel bi ?k = (Ret (), k1)" "kernel_up ?pl bi k1"
      "for_each ms (happen ?pl) k1 = (Ret (), k2)" "bordered gi (boot_memory s') c" "sent ms = ys @ held (board_devices k2)"
      "shows_log ?W ?H c (log @ map input_text ys) (kernel_crt k2)"
      "for_each (replicate (length (held (board_devices k2))) Serves) (happen ?pl) k2 = (Ret (), k3)" "held (board_devices k3) = []"
      "shows_log ?W ?H c (log @ map input_text (sent ms)) (kernel_crt k3)"
    using pc_boots_and_serves [OF statics_fresh [of vec_ok vec items d q segments old_cr3 sp "boot_memory s'"] assms(5), of bi pci_fuel rsdp fadt
        info p la ia apic_fuel ms] assms(4,6-13) gi bi
    by (auto simp: statics_fields)
  have kept: "outside_kept gi (boot_memory s') (screen (kernel_crt k3))"
    using beyond_outside [of ?W ?H] k(4,9) by (simp add: bordered_def shows_log_def keeps_def)
  then have "\<forall>a. \<not> in_frame_buffer gop a \<longrightarrow> memory (screen (kernel_crt k3)) a = load_image file elf (boot_memory s) a"
    using gi by (auto simp: outside_kept_def in_frame_buffer_def s'_def)
  moreover have "shown_color (screen (kernel_crt k3)) = pixel_color (screen (kernel_crt k3))" if "gop_stride gop = ?W"
    using kept that gi by (intro ext unpadded_shows) (simp add: outside_kept_def)
  moreover have "boot_errors s' = boot_errors s" by (simp add: s'_def)
  moreover have "interrupts_on k1" "{f. f < mm_end (MEMORY_MANAGER k1) \<and> f \<notin> allocated (MEMORY_MANAGER k1)} =
      available_frames (memory_types pl) (exit_boot_services fw)"
    using k(2) bi by (simp_all add: kernel_up_def pc_platform_fields)
  ultimately show ?thesis using boot k(1,3,5-9) by blast
qed

section \<open>A machine\<close>

text \<open>
  The PC of \<open>Pc_Boot\<close> with the firmware of \<open>Boot_Main\<close>, whose memory map has two megabytes of available memory. The
  kernel is loaded at one megabyte, where nothing was allocated for it: the frame with its first instructions is free for
  the memory manager, and holds them.
\<close>

definition demo_map :: "nat MemoryDescriptor list" where
  "demo_map = [\<lparr>desc_ty = 7, phys_start = 0, page_count = 0x200\<rparr>]"

definition pc_firmware :: "(unit, unit, nat, nat) uefi" where
  "pc_firmware = demo_firmware\<lparr>config_table := [(2, 0x1000)], exit_boot_services := demo_map\<rparr>"

lemma pc_firmware_ok:
  "firmware_loads pc_firmware (\<lambda>_. Ok small_elf) demo_gop [0x7f, 0xfa, 0xf4, 0] small_elf" "gop_ok demo_gop"
proof -
  have "fw_ok pc_firmware" "info_buffer pc_firmware = 102"
    by (simp_all add: fw_ok_def sizes_ok_def vec_fits_def info_buffer_def pc_firmware_def demo_firmware_def KERNEL_FILE_NAME_def)
  then show "firmware_loads pc_firmware (\<lambda>_. Ok small_elf) demo_gop [0x7f, 0xfa, 0xf4, 0] small_elf"
    by (simp add: firmware_loads_def small_elf_facts segment_ok_def)
      (simp add: pc_firmware_def demo_firmware_def file_bytes_def vec_fits_def)
qed (simp add: gop_ok_def demo_gop_def PAGE_SIZE_1G_def)

lemma demo_map_facts: "wf_map 0 demo_map" "0x100 \<in> available_frames uefi_types demo_map"
  by (simp_all add: demo_map_def desc_stop_def mm_consts available_frames_def uefi_types_def is_available_def)

lemma demo_image: "load_image [0x7f, 0xfa, 0xf4, 0] small_elf m 0x100000 = 0xfa"
  by (simp add: load_image_def small_elf_facts segment_image_def unsigned_minus_1_eq_mask mask_eq_exp_minus_1)

lemma demo_outside: "\<not> in_frame_buffer demo_gop 0x100000"
proof
  assume "in_frame_buffer demo_gop 0x100000"
  then obtain k where k: "k < 4096000" "(0x100000 :: u64) = 0x80000000 + of_nat k"
    by (auto simp: in_frame_buffer_def demo_gop_def)
  have "unat (of_nat k :: u64) = k" using k(1) by (simp add: unsigned_of_nat take_bit_nat_eq_self)
  then have "unat (0x80000000 + of_nat k :: u64) = 0x80000000 + k" using k(1) by (simp add: unat_word_ariths)
  with k(2) have "unat (0x100000 :: u64) = 0x80000000 + k" by (simp only:)
  then show False by simp
qed

theorem power_on_witness:
  "\<exists>bi s' k1 k2 k3. efi_main pc_firmware (\<lambda>_. Ok small_elf) \<lparr>boot_memory = (\<lambda>_. 0), boot_errors = []\<rparr> = (Ret (0x100000, bi), s') \<and>
    start_kernel (pc_platform demo_8042 0xfee00000 0xfec00000 demo_pc) 33 2 bi
      (kernel_statics demo_devices (0, sample_config) (ArrayVec_new DEVICE_CAPACITY) boot_cpu 0 0x7000000 (boot_memory s')) = (Ret (), k1) \<and>
    for_each [Sends (Key 0x1c), Serves] (happen (pc_platform demo_8042 0xfee00000 0xfec00000 demo_pc)) k1 = (Ret (), k2) \<and>
    for_each (replicate (length (held (board_devices k2))) Serves) (happen (pc_platform demo_8042 0xfee00000 0xfec00000 demo_pc)) k2 =
      (Ret (), k3) \<and> held (board_devices k3) = [] \<and>
    0x100 \<notin> allocated (MEMORY_MANAGER k1) \<and> memory (screen (kernel_crt k3)) 0x100000 = 0xfa"
proof -
  have facts: "acpi_tables demo_pc = sample_tables" "KERNEL_STACK_ptr demo_pc = 0x10200000" "memory_types demo_pc = uefi_types"
      "board_devices demo_kernel = demo_devices" "map_of (config_table pc_firmware) (ACPI2_GUID pc_firmware) = Some 0x1000"
      "exit_boot_services pc_firmware = demo_map" "elf_entry small_elf = 0x100000"
    by (simp_all add: demo_pc_def board_devices_def demo_kernel_def pc_firmware_def demo_firmware_def small_elf_def)
  define ms where "ms = [Sends (Key 0x1c), Serves]"
  show ?thesis
    unfolding ms_def [symmetric]
    using power_on [OF pc_firmware_ok facts(5) _ demo_pc_boots(2), of "ArrayVec_new DEVICE_CAPACITY" 33 "(0, sample_config)" "0x8000" sample_apic
        demo_8042 "0xfee00000" "0xfec00000" 2 demo_devices "\<lparr>boot_memory = (\<lambda>_. 0), boot_errors = []\<rparr>" boot_cpu 0 "0x7000000" ms]
      demo_pc_boots(3,4) sample_enum sample_tables_found demo_map_facts new_device_vec facts demo_outside demo_image [of "\<lambda>_. 0"]
    by (fastforce simp: set_eq_iff)
qed

end
