(* ===== verification/Spec2Isabelle.thy ===== *)
theory Spec2Isabelle
  imports Phys_Mem Gdt Paging Ps2_Init Pci Console Cursor Acpi Apic Timer Elf_Loader Boot_Main Kernel_Main Kernel_Run
    Stack_Switch I8042 Apic_Device Pc_Boot Pc_Run Power_On
begin

text \<open>
  Maizono OS: a verification development of the bootloader and the kernel.

  \<^bold>\<open>The program.\<close> \<open>bootloader\<close> is a UEFI application: it finds the graphics mode, reads \<open>kernel.elf\<close>, loads its segments,
  looks up the ACPI root pointer, leaves the boot services and jumps to the kernel with a \<open>BootInfo\<close>. \<open>kernel\<close> is a
  freestanding binary: \<open>main\<close> starts the frame buffer and a text console on it, loads a GDT and identity-mapping page tables,
  scans the PCI buses, finds the interrupt controllers in the ACPI tables, sets up the PS/2 keyboard and mouse and the
  APICs, enables interrupts, sets up a bitmap of physical frames, prints a last line and halts; from then on keyboard and
  mouse interrupts print a line each. \<open>common\<close> has the types the two share. Components share state through static
  cells behind \<open>spin\<close> locks; \<open>kprintln!\<close> takes the console's lock with \<open>try_lock\<close> and unwraps, also inside interrupt
  handlers and in the panic handler.

  \<^bold>\<open>Programs.\<close> \<open>Prelude\<close> fixes how Rust code is written here. A call is a function from a state to an \<open>outcome\<close> (it returns,
  panics, or does not end) and the state it leaves, \<open>bnd\<close> is sequencing, \<open>bndE\<close> is \<open>?\<close>, \<open>for_each\<close> is \<open>for\<close>, \<open>zoom\<close> runs a
  program on a part of the state. Integers of the source are words; \<open>usize\<close> is \<open>nat\<close> with checked operations, because the
  repository is built in the debug profile, where overflow panics. The reasoning rules are \<open>wp\<close> (total correctness), \<open>wlp\<close>
  (partial correctness, in \<open>Port_Io\<close>), \<open>preserves\<close> (invariants, panics included), \<open>returns\<close> and \<open>sim\<close> (two programs that cannot be told
  apart).

  \<^bold>\<open>Parameters.\<close> What is not in the repository is an argument of the definitions: the devices behind ports, memory-mapped and
  model-specific registers (records of functions on an arbitrary state, \<open>io_hw\<close>, \<open>io32\<close>, \<open>cpu_hw\<close>), the firmware (\<open>uefi\<close>), the
  ELF parser, the \<open>acpi\<close> crate with the tables (\<open>acpi_crate\<close>), the \<open>arrayvec\<close> vector (the locale \<open>bounded_vec\<close>), the selectors
  of the \<open>x86_64\<close> crate and the addresses the linker chose. Each property that depends on one has a witness with a concrete
  instance. Three theories are specifications of such parameters and not of code: \<open>I8042\<close> (the PS/2 controller),
  \<open>Apic_Device\<close> (the interrupt controllers) and the first part of \<open>Pc_Boot\<close>, which puts the two into one machine.

  \<^bold>\<open>Theories and sources.\<close> Paths are relative to \<open>src\<close>.
  \<^item> \<open>Phys_Mem\<close>: \<open>kernel/src/phys_mem_manager.rs\<close>, \<open>memory_map.rs\<close>. The bitmap, its initialisation from the memory map,
    marking, freeing, allocating. Initialisation leaves free exactly the available frames; marking and freeing refine set
    operations (locale \<open>frame_set\<close>); \<open>alloc\<close> never finds a frame; a reserved range that ends beyond 128 GiB panics.
  \<^item> \<open>Gdt\<close>: \<open>gdt.rs\<close>. Descriptor fields and \<open>init\<close>. Descriptors decode to what was asked for; the table and the registers
    after \<open>init\<close>.
  \<^item> \<open>Paging\<close>: \<open>paging.rs\<close>. The tables and the loops that fill them, against a four-level page walk: the identity map of 64 GiB.
  \<^item> \<open>Port_Io\<close>, \<open>Ps2_Controller\<close>, \<open>Ps2_Devices\<close>, \<open>Ps2_Init\<close>: \<open>ps2/*.rs\<close>. Every operation and the initialisation over arbitrary
    hardware: its transcript, the discipline on the data port, bounded waiting.
  \<^item> \<open>Kernel_Error\<close>, \<open>Array_Vec\<close>, \<open>Pci\<close>: \<open>error.rs\<close>, \<open>common/src/arrayvec.rs\<close>, \<open>pci/mod.rs\<close>. The scan ends and lists exactly the
    reachable functions (locale \<open>device_vec\<close>); configuration addresses; base address registers.
  \<^item> \<open>Graphic\<close>, \<open>Font\<close>, \<open>Frame_Buffer\<close>, \<open>Console\<close>, \<open>Cursor\<close>: \<open>common/src/graphic.rs\<close>, \<open>graphic/*.rs\<close>. Drawing over byte-addressed memory
    (locale \<open>plotter\<close>); \<open>kprintln!\<close> refines a terminal of 25 lines, glyph by glyph; the console keeps its shape; the cursor.
    The driver addresses a pixel with the width of the mode (\<open>pixel_offset\<close>, \<open>pixel_color\<close>), the screen with its stride
    (\<open>shown_color\<close>): the two agree on modes without padding, and what the screen shows is stated for these.
  \<^item> \<open>Acpi\<close>: \<open>acpi.rs\<close>. \<open>Apic\<close>: \<open>arch.rs\<close>, \<open>interrupts.rs\<close>. Which tables are found; the accesses of the initialisation and the
    redirection table after it; the handlers. An access through a misaligned or null pointer panics, as in a debug build.
    \<open>Timer\<close>: \<open>timer.rs\<close>, a file outside the build.
  \<^item> \<open>Elf_Loader\<close>, \<open>Boot_Main\<close>: \<open>bootloader/src/kernel.rs\<close>, \<open>bootloader/src/main.rs\<close>, \<open>common/src/boot.rs\<close>, \<open>common/src/address.rs\<close>. The image in
    memory, the hand-over to the kernel, and every way the bootloader can fail, with what it logs.
  \<^item> \<open>Kernel_Main\<close>: \<open>main.rs\<close> as a composition of all of these. Its state \<open>kernel\<close> has the statics of the components; \<open>board\<close>
    puts the real console beside the devices. The locales \<open>same_ports\<close> and \<open>same_machine\<close> say when drivers cannot tell two
    machines apart; interpreting them with the console on one side and a list of lines on the other shows that the
    drivers behave on the kernel's console as with a log, and that the screen shows that log. \<open>kernel_boots\<close> is the result.
  \<^item> \<open>Kernel_Run\<close>: the kernel with interrupts on, a step relation over the control points of \<open>main\<close> and interrupts,
    those without a gate in the descriptor table included: they end in the handler for double faults.
    By induction over runs it refines an abstract machine; from this follow how it can end and that \<open>main\<close> reaches its loop.
  \<^item> \<open>Stack_Switch\<close>: the \<open>asm!\<close> block of \<open>switch_to_kernel_stack\<close> with its registers: for which choices of the compiler it does
    what \<open>Kernel_Main\<close> says it does.
  \<^item> \<open>I8042\<close>: a two-port PS/2 controller with keyboard and mouse, with its delays. The locales \<open>ps2_ports\<close> and \<open>ps2_machine\<close> execute \<open>ps2::init\<close>
    on every machine that has one: it returns, and both ports run. A controller with a slower input buffer loses a command.
    The locales \<open>port_invariant\<close> and \<open>logging_invariant\<close> carry what every port access keeps through the drivers.
  \<^item> \<open>Apic_Device\<close>: the registers of the two APICs. The locale \<open>apic_machine\<close> turns the accesses of \<open>Apic\<close> into the state of the
    devices after \<open>interrupts::init\<close>; \<open>cpu_invariant\<close> is the counterpart of \<open>port_invariant\<close>.
  \<^item> \<open>Pc_Boot\<close>: the kernel on the machine with both. The drivers return, so the kernel boots without further hypotheses on
    them. The devices hold their bytes until the output buffer is free, and a redirection entry reaches the local APIC that it
    names: every byte of the keyboard and the mouse is then served if the processor identifier of the MADT is the identifier
    of the local APIC, and none if it is not.
  \<^item> \<open>Pc_Run\<close>: the same machine while \<open>main\<close> still runs: bytes are sent and served between its steps, and the run refines the abstract machine of
    \<open>Kernel_Run\<close>; it says exactly which sequences crash the kernel.
  \<^item> \<open>Power_On\<close>: the bootloader, the statics of the kernel and \<open>Pc_Boot\<close> composed, from the firmware to the halt loop.

  \<^bold>\<open>Bounds and fuel.\<close> The PCI scan takes fuel for the recursion through bridges; 33 is proved to be enough for every
  machine, because a panic stops the recursion at 32 devices. \<open>wait_delivery\<close> takes fuel because the source loops without a limit
  until the hardware answers; running out is \<open>Diverge\<close>, and the property says exactly when. The polling loops of the PS/2
  controller are bounded by \<open>loop_timeout\<close> in the source. \<open>alloc\<close> and the printing of numbers have termination proofs. A lock taken
  with \<open>lock\<close> while it is held is \<open>Diverge\<close>.

  \<^bold>\<open>Assumptions.\<close> Memory accesses are physical; the identity map makes this right below 64 GiB, which \<open>mode_ok\<close> asks of the
  frame buffer. No interrupt arrives before \<open>main\<close> enables them. A handler runs to its end before the next interrupt, and on the PC
  the devices hold a byte that is ready meanwhile, so that none gets into the output buffer while a handler runs.
  The statics have their initial values at the entry point; their place in the image that is loaded is not modelled, and stack,
  statics and page tables are state of their own beside the memory that is drawn on. Segments do not overlap the buffer the
  file was read into. \<open>switch_to_kernel_stack\<close> has the effect it means to have, under the condition that \<open>Stack_Switch\<close> gives.
  The initialisation of the memory manager is one step of the running kernel; \<open>handler_inside_memory_init\<close> shows that an
  interrupt inside it could as well come before or after. The
  PCI configuration ports are independent of the other devices.

  \<^bold>\<open>Not modelled.\<close> The messages of \<open>info!\<close> and \<open>debug!\<close>; the registers an interrupt saves; the layout of types, and with it
  \<open>common/src/array.rs\<close>, which consists of an alignment and is not used; \<open>graphic/char.rs\<close>, which nothing uses; module
  declarations; code that is commented out; the \<open>Deref\<close> impls of the page tables, which the model reads directly.

  \<^bold>\<open>Plan.\<close> Next: in \<open>Pc_Boot\<close> and \<open>Pc_Run\<close>, bytes that get into the output buffer while a handler runs, and scan codes and mouse packets of several bytes.
\<close>

end
